(* ===== verification/Ena_Prelude.thy ===== *)
theory Ena_Prelude
  imports Main "HOL-Library.Word" "HOL-Library.Multiset"
begin

unbundle bit_operations_syntax

section \<open>Prelude: machine integers, error codes, power-of-two arithmetic\<close>

text \<open>
  What every component of the driver model shares: the C integer types as words, the
  error numbers of \<^verbatim>\<open>errno.h\<close> as the integers the driver negates and returns, and
  the arithmetic of power-of-two ring depths. A ring depth \<open>d\<close> is a power of two, so
  \<open>x AND (d - 1)\<close> is \<open>x mod d\<close> and \<open>d AND (d - 1)\<close> is zero; every ring of
  the driver (admin queues, submission and completion queues, identifier pools) rests
  on these two facts.
\<close>

named_theorems ena_consts \<open>values of the driver's numeric constants\<close>
named_theorems frame_simps \<open>fields an operation leaves alone\<close>

type_synonym u8 = "8 word"
type_synonym u16 = "16 word"
type_synonym u32 = "32 word"
type_synonym u64 = "64 word"

subsection \<open>Error numbers\<close>

text \<open>
  The driver returns \<open>0\<close> or a count on success and a negated error number on failure,
  all in a C \<open>int\<close>. The model keeps the integers (and not a datatype of errors),
  because \<^verbatim>\<open>ena_admin_exec_locked\<close> also returns the negated status byte of the
  device through the same \<open>int\<close>, and the two ranges overlap.
\<close>

definition EIO :: int where [ena_consts]: "EIO = 5"
definition EAGAIN :: int where [ena_consts]: "EAGAIN = 11"
definition ENOMEM :: int where [ena_consts]: "ENOMEM = 12"
definition EBUSY :: int where [ena_consts]: "EBUSY = 16"
definition ENODEV :: int where [ena_consts]: "ENODEV = 19"
definition EINVAL :: int where [ena_consts]: "EINVAL = 22"
definition ENOSPC :: int where [ena_consts]: "ENOSPC = 28"
definition ENOTSUP :: int where [ena_consts]: "ENOTSUP = 95"
definition ETIMEDOUT :: int where [ena_consts]: "ETIMEDOUT = 110"

subsection \<open>Powers of two on the naturals\<close>

definition pow2 :: "nat \<Rightarrow> bool" where
  "pow2 n \<longleftrightarrow> (\<exists>k. n = 2 ^ k)"

lemma pow2_pos: "pow2 n \<Longrightarrow> 0 < n"
  by (auto simp: pow2_def)

lemma pow2_1 [simp]: "pow2 (Suc 0)"
  unfolding pow2_def by (rule exI [of _ 0]) simp

lemma pow2_double [simp]: "pow2 (2 * n) \<longleftrightarrow> pow2 n"
proof
  assume "pow2 (2 * n)"
  then obtain k where k: "2 * n = 2 ^ k" by (auto simp: pow2_def)
  then have "k \<noteq> 0" by (cases k) (auto dest: arg_cong [where f = even])
  then obtain j where "k = Suc j" by (cases k) auto
  with k have "n = 2 ^ j" by simp
  then show "pow2 n" by (auto simp: pow2_def)
next
  assume "pow2 n"
  then obtain k where "n = 2 ^ k" by (auto simp: pow2_def)
  then have "2 * n = 2 ^ Suc k" by simp
  then show "pow2 (2 * n)" unfolding pow2_def by blast
qed

lemma pow2_odd [simp]: "pow2 (Suc (2 * n)) \<longleftrightarrow> n = 0"
proof
  assume "pow2 (Suc (2 * n))"
  then obtain k where k: "Suc (2 * n) = 2 ^ k" by (auto simp: pow2_def)
  then have "k = 0" by (cases k) (auto dest: arg_cong [where f = even])
  with k show "n = 0" by simp
qed simp

lemma pow2_dvd: "pow2 a \<Longrightarrow> pow2 b \<Longrightarrow> a \<le> b \<Longrightarrow> a dvd b"
  by (auto simp: pow2_def le_imp_power_dvd)

lemma and_even_odd: "(2 * a) AND (1 + 2 * b) = 2 * (a AND b)" for a b :: nat
proof (rule bit_eqI)
  fix n
  show "bit ((2 * a) AND (1 + 2 * b)) n = bit (2 * (a AND b)) n"
    unfolding bit_and_iff by (cases n) (simp_all add: bit_and_iff bit_0 bit_Suc)
qed

text \<open>
  The loop step \<open>d AND (d - 1)\<close> of \<^verbatim>\<open>clamp_queue_depth\<close> and the test of
  \<^verbatim>\<open>ena_is_power_of_two\<close>: it clears the lowest set bit, so it is zero exactly on
  powers of two and otherwise keeps every power of two below \<open>d\<close> below it.
\<close>

lemma and_pred_even: "0 < m \<Longrightarrow> (2 * m) AND (2 * m - Suc 0) = 2 * (m AND (m - Suc 0))"
  for m :: nat
  using and_even_odd [of m "m - 1"] by (cases m) (simp_all add: algebra_simps)

lemma and_pred_odd: "Suc (2 * m) AND (2 * m) = 2 * m" for m :: nat
  using and_even_odd [of m m] by (simp add: and.commute)

lemma and_pred_eq_0: "0 < n \<Longrightarrow> n AND (n - Suc 0) = 0 \<longleftrightarrow> pow2 n" for n :: nat
proof (induction n rule: less_induct)
  case (less n)
  show ?case
  proof (cases "even n")
    case True
    with less.prems obtain m where n: "n = 2 * m" and m: "0 < m" "m < n"
      by (auto elim!: evenE)
    from less.IH [OF m(2,1)] m show ?thesis by (simp add: n and_pred_even)
  next
    case False
    then obtain m where n: "n = Suc (2 * m)" by (auto elim!: oddE)
    then show ?thesis by (simp add: and_pred_odd)
  qed
qed

lemma and_pred_less: "0 < n \<Longrightarrow> n AND (n - Suc 0) < n" for n :: nat
proof -
  assume "0 < n"
  have "n AND (n - Suc 0) \<le> n - Suc 0" by (simp add: and_nat_def) (metis AND_upper2 nat_int nat_mono of_nat_0_le_iff)
  with \<open>0 < n\<close> show ?thesis by linarith
qed

lemma pow2_le_and_pred: "pow2 p \<Longrightarrow> p \<le> n \<Longrightarrow> \<not> pow2 n \<Longrightarrow> p \<le> n AND (n - Suc 0)"
  for n :: nat
proof (induction n arbitrary: p rule: less_induct)
  case (less n)
  from less.prems pow2_pos have n0: "0 < n" by fastforce
  show ?case
  proof (cases "even n")
    case False
    then obtain m where n: "n = Suc (2 * m)" by (auto elim!: oddE)
    from less.prems n have "p \<noteq> n" by auto
    with less.prems n show ?thesis by (simp add: and_pred_odd)
  next
    case True
    with n0 obtain m where n: "n = 2 * m" and m: "0 < m" "m < n"
      by (auto elim!: evenE)
    from less.prems(1) show ?thesis
    proof (cases "p = 1")
      case True
      from less.prems n m and_pred_eq_0 [of m] have "0 < m AND (m - Suc 0)" by simp
      with True n m show ?thesis by (simp add: and_pred_even)
    next
      case False
      with less.prems(1) obtain q where q: "p = 2 * q" "pow2 q"
        by (metis One_nat_def Suc_1 pow2_def power.simps(2) power_0 not0_implies_Suc)
      from less.IH [OF m(2) q(2)] less.prems n q have "q \<le> m AND (m - Suc 0)" by simp
      with n m q show ?thesis by (simp add: and_pred_even)
    qed
  qed
qed

lemma and_mask_mod: "pow2 d \<Longrightarrow> x AND (d - Suc 0) = x mod d" for x d :: nat
  by (auto simp: pow2_def) (metis One_nat_def mask_eq_exp_minus_1 take_bit_eq_mask take_bit_eq_mod)

subsection \<open>Powers of two on words\<close>

lemma unat_inj [simp]: "unat x = unat y \<longleftrightarrow> x = y" for x y :: "'a::len word"
  by (simp add: word_unat_eq_iff)

lemma unat_and: "unat (x AND y) = unat x AND unat y" for x y :: "'a::len word"
  by (simp add: unsigned_and_eq)

lemma unat_and_pred: "unat (x AND (d - 1)) = unat x mod unat d"
  if "pow2 (unat d)" for x d :: "'a::len word"
proof -
  from that have "d \<noteq> 0" by (auto simp: pow2_def)
  then have "unat (d - 1) = unat d - 1" by (rule unat_minus_one)
  with that show ?thesis by (simp add: unat_and and_mask_mod)
qed

lemma and_pred_eq_0_word: "d \<noteq> 0 \<Longrightarrow> d AND (d - 1) = 0 \<longleftrightarrow> pow2 (unat d)"
  for d :: "'a::len word"
proof -
  assume d: "d \<noteq> 0"
  have "d AND (d - 1) = 0 \<longleftrightarrow> unat (d AND (d - 1)) = 0" by (simp add: unat_eq_0)
  also have "\<dots> \<longleftrightarrow> unat d AND (unat d - 1) = 0"
    using d by (simp add: unat_and unat_minus_one)
  also have "\<dots> \<longleftrightarrow> pow2 (unat d)"
    using d by (simp add: and_pred_eq_0 unat_gt_0)
  finally show ?thesis .
qed

text \<open>A ring depth: a power of two of at least four, in a 16-bit field.\<close>

definition ring_depth :: "u16 \<Rightarrow> bool" where
  "ring_depth d \<longleftrightarrow> 4 \<le> unat d \<and> pow2 (unat d)"

lemma ring_depth_pow2: "ring_depth d \<Longrightarrow> pow2 (unat d)"
  and ring_depth_ge4: "ring_depth d \<Longrightarrow> 4 \<le> unat d"
  and ring_depth_pos [simp]: "ring_depth d \<Longrightarrow> 0 < unat d"
  by (auto simp: ring_depth_def)

lemma ring_depth_neq_0 [simp]: "ring_depth d \<Longrightarrow> unat d \<noteq> 0" "ring_depth d \<Longrightarrow> d \<noteq> 0"
  by (auto simp: ring_depth_def)

lemma ring_depth_le: "ring_depth d \<Longrightarrow> unat d \<le> 2 ^ 15"
proof -
  assume "ring_depth d"
  then obtain k where k: "unat d = 2 ^ k" by (auto simp: ring_depth_def pow2_def)
  have "unat d < 2 ^ 16" using unsigned_less [of d] by simp
  then have "k < 16" using k by (metis one_less_numeral_iff power_less_imp_less_exp semiring_norm(76))
  then have "(2::nat) ^ k \<le> 2 ^ 15" by (intro power_increasing) auto
  with k show ?thesis by simp
qed

lemma ring_depth_dvd: "ring_depth d \<Longrightarrow> 2 * unat d dvd 2 ^ 16"
proof -
  assume d: "ring_depth d"
  then have "pow2 (2 * unat d)" by (simp add: ring_depth_def)
  moreover have "pow2 (2 ^ 16)" unfolding pow2_def by blast
  moreover have "2 * unat d \<le> 2 ^ 16" using ring_depth_le [OF d] by simp
  ultimately show ?thesis by (rule pow2_dvd)
qed

lemma unat_slot: "ring_depth d \<Longrightarrow> unat (c AND (d - 1)) = unat c mod unat d"
  by (simp add: unat_and_pred ring_depth_pow2)

lemma unat_slot_less [simp]: "ring_depth d \<Longrightarrow> unat (c AND (d - 1)) < unat d"
  by (simp add: unat_slot)

lemma slot_add_lap: "ring_depth d \<Longrightarrow> (c + d) AND (d - 1) = c AND (d - 1)" for c :: u16
proof -
  assume d: "ring_depth d"
  have "unat d dvd 2 ^ 16" using ring_depth_dvd [OF d] by (rule dvd_mult_right)
  then have "unat (c + d) mod unat d = unat c mod unat d"
    by (simp add: unat_word_ariths mod_mod_cancel)
  then have "unat ((c + d) AND (d - 1)) = unat (c AND (d - 1))" using d by (simp add: unat_slot)
  then show ?thesis by (simp only: unat_inj)
qed

lemma unat_Suc_u16: "unat (c + 1) = (unat c + 1) mod 2 ^ 16" for c :: u16
  by (simp add: unat_word_ariths)

lemma unat_slot_Suc:
  "ring_depth d \<Longrightarrow> unat ((c + 1) AND (d - 1)) = (unat c + 1) mod unat d" for c :: u16
proof -
  assume d: "ring_depth d"
  have "unat d dvd 2 ^ 16" using ring_depth_dvd [OF d] by (rule dvd_mult_right)
  then show ?thesis using d by (simp add: unat_slot unat_Suc_u16 mod_mod_cancel)
qed

lemma slot_Suc_eq_0:
  "ring_depth d \<Longrightarrow> (c + 1) AND (d - 1) = 0 \<longleftrightarrow> (unat c + 1) mod unat d = 0"
  for c :: u16
  by (metis unat_slot_Suc unat_eq_0)

lemma unat_pred_u16: "c \<noteq> 0 \<Longrightarrow> unat (c - 1) = unat c - 1" for c :: u16
  by (rule unat_minus_one)

lemma unat_succ_less: "unat c < unat (d :: u16) \<Longrightarrow> unat (c + 1) = unat c + 1" for c :: u16
  using unsigned_less [of d, where ?'a = nat] by (simp add: unat_Suc_u16)

lemma u32_less_Suc: "a < b \<Longrightarrow> unat (a + 1) = unat a + 1 \<and> a + 1 \<le> b" for a b :: u32
  by unat_arith

end
