(* ===== verification/Ena_Wire.thy ===== *)
theory Ena_Wire
  imports Ena_Prelude
begin

text \<open>
  Little-endian byte layout of the integers the driver shares with the device, and the layout
  of the I/O descriptors of \<^verbatim>\<open>src/include/ena_datapath.h\<close> as byte sequences.  The structures
  are packed by their field sizes, so the byte image of a structure is the concatenation of
  the images of its fields.
\<close>

definition le16 :: "u16 \<Rightarrow> u8 list" where
  "le16 x = [ucast x, ucast (drop_bit 8 x)]"

definition le32 :: "u32 \<Rightarrow> u8 list" where
  "le32 x = [ucast x, ucast (drop_bit 8 x), ucast (drop_bit 16 x), ucast (drop_bit 24 x)]"

definition le64 :: "u64 \<Rightarrow> u8 list" where
  "le64 x = le32 (ucast x) @ le32 (ucast (drop_bit 32 x))"

definition get8 :: "u8 list \<Rightarrow> nat \<Rightarrow> u8" where
  "get8 bs i = bs ! i"

definition get16 :: "u8 list \<Rightarrow> nat \<Rightarrow> u16" where
  "get16 bs i = ucast (bs ! i) OR push_bit 8 (ucast (bs ! (i + 1)))"

definition get32 :: "u8 list \<Rightarrow> nat \<Rightarrow> u32" where
  "get32 bs i = ucast (bs ! i) OR push_bit 8 (ucast (bs ! (i + 1))) OR
    push_bit 16 (ucast (bs ! (i + 2))) OR push_bit 24 (ucast (bs ! (i + 3)))"

definition get64 :: "u8 list \<Rightarrow> nat \<Rightarrow> u64" where
  "get64 bs i = ucast (get32 bs i) OR push_bit 32 (ucast (get32 bs (i + 4)))"

subsection \<open>I/O descriptors\<close>

record ena_eth_io_tx_desc =
  len_ctrl :: u32
  meta_ctrl :: u32
  txd_buff_addr_lo :: u32
  buff_addr_hi_hdr_sz :: u32

record ena_eth_io_tx_cdesc =
  txc_req_id :: u16
  txc_status :: u8
  txc_flags :: u8
  txc_sub_qid :: u16
  sq_head_idx :: u16

record ena_eth_io_rx_desc =
  rxd_length :: u16
  rxd_reserved2 :: u8
  rxd_ctrl :: u8
  rxd_req_id :: u16
  rxd_reserved6 :: u16
  rxd_buff_addr_lo :: u32
  rxd_buff_addr_hi :: u16
  rxd_reserved16_w3 :: u16

record ena_eth_io_rx_cdesc_base =
  rxc_status :: u32
  rxc_length :: u16
  rxc_req_id :: u16
  rxc_hash :: u32
  rxc_sub_qid :: u16
  rxc_offset :: u8
  rxc_reserved :: u8

text \<open>The all-zero descriptors that \<^verbatim>\<open>memset\<close> leaves in a ring.\<close>

definition tx_desc_zero :: ena_eth_io_tx_desc where
  "tx_desc_zero = \<lparr> len_ctrl = 0, meta_ctrl = 0, txd_buff_addr_lo = 0, buff_addr_hi_hdr_sz = 0 \<rparr>"

definition tx_cdesc_zero :: ena_eth_io_tx_cdesc where
  "tx_cdesc_zero = \<lparr> txc_req_id = 0, txc_status = 0, txc_flags = 0, txc_sub_qid = 0,
     sq_head_idx = 0 \<rparr>"

definition rx_desc_zero :: ena_eth_io_rx_desc where
  "rx_desc_zero = \<lparr> rxd_length = 0, rxd_reserved2 = 0, rxd_ctrl = 0, rxd_req_id = 0,
     rxd_reserved6 = 0, rxd_buff_addr_lo = 0, rxd_buff_addr_hi = 0, rxd_reserved16_w3 = 0 \<rparr>"

definition rx_cdesc_zero :: ena_eth_io_rx_cdesc_base where
  "rx_cdesc_zero = \<lparr> rxc_status = 0, rxc_length = 0, rxc_req_id = 0, rxc_hash = 0,
     rxc_sub_qid = 0, rxc_offset = 0, rxc_reserved = 0 \<rparr>"

text \<open>Bit masks and shifts of the descriptor words.\<close>

definition ENA_ETH_IO_TX_DESC_LENGTH_MASK :: u32 where
  [ena_consts]: "ENA_ETH_IO_TX_DESC_LENGTH_MASK = 0x0000FFFF"
definition ENA_ETH_IO_TX_DESC_REQ_ID_HI_SHIFT :: nat where
  [ena_consts]: "ENA_ETH_IO_TX_DESC_REQ_ID_HI_SHIFT = 16"
definition ENA_ETH_IO_TX_DESC_PHASE_MASK :: u32 where
  [ena_consts]: "ENA_ETH_IO_TX_DESC_PHASE_MASK = 0x01000000"
definition ENA_ETH_IO_TX_DESC_FIRST_MASK :: u32 where
  [ena_consts]: "ENA_ETH_IO_TX_DESC_FIRST_MASK = 0x04000000"
definition ENA_ETH_IO_TX_DESC_LAST_MASK :: u32 where
  [ena_consts]: "ENA_ETH_IO_TX_DESC_LAST_MASK = 0x08000000"
definition ENA_ETH_IO_TX_DESC_COMP_REQ_MASK :: u32 where
  [ena_consts]: "ENA_ETH_IO_TX_DESC_COMP_REQ_MASK = 0x10000000"
definition ENA_ETH_IO_TX_DESC_L3_PROTO_IDX_MASK :: u32 where
  [ena_consts]: "ENA_ETH_IO_TX_DESC_L3_PROTO_IDX_MASK = 0x0000000F"
definition ENA_ETH_IO_TX_DESC_DF_MASK :: u32 where
  [ena_consts]: "ENA_ETH_IO_TX_DESC_DF_MASK = 0x00000010"
definition ENA_ETH_IO_TX_DESC_TSO_EN_MASK :: u32 where
  [ena_consts]: "ENA_ETH_IO_TX_DESC_TSO_EN_MASK = 0x00000080"
definition ENA_ETH_IO_TX_DESC_L4_PROTO_IDX_SHIFT :: nat where
  [ena_consts]: "ENA_ETH_IO_TX_DESC_L4_PROTO_IDX_SHIFT = 8"
definition ENA_ETH_IO_TX_DESC_L3_CSUM_EN_MASK :: u32 where
  [ena_consts]: "ENA_ETH_IO_TX_DESC_L3_CSUM_EN_MASK = 0x00002000"
definition ENA_ETH_IO_TX_DESC_L4_CSUM_EN_MASK :: u32 where
  [ena_consts]: "ENA_ETH_IO_TX_DESC_L4_CSUM_EN_MASK = 0x00004000"
definition ENA_ETH_IO_TX_DESC_REQ_ID_LO_SHIFT :: nat where
  [ena_consts]: "ENA_ETH_IO_TX_DESC_REQ_ID_LO_SHIFT = 22"
definition ENA_ETH_IO_TX_CDESC_PHASE_MASK :: u8 where
  [ena_consts]: "ENA_ETH_IO_TX_CDESC_PHASE_MASK = 0x01"
definition ENA_ETH_IO_RX_DESC_PHASE_MASK :: u8 where
  [ena_consts]: "ENA_ETH_IO_RX_DESC_PHASE_MASK = 0x01"
definition ENA_ETH_IO_RX_DESC_FIRST_MASK :: u8 where
  [ena_consts]: "ENA_ETH_IO_RX_DESC_FIRST_MASK = 0x04"
definition ENA_ETH_IO_RX_DESC_LAST_MASK :: u8 where
  [ena_consts]: "ENA_ETH_IO_RX_DESC_LAST_MASK = 0x08"
definition ENA_ETH_IO_RX_DESC_COMP_REQ_MASK :: u8 where
  [ena_consts]: "ENA_ETH_IO_RX_DESC_COMP_REQ_MASK = 0x10"
definition ENA_ETH_IO_RX_CDESC_BASE_L3_CSUM_ERR_MASK :: u32 where
  [ena_consts]: "ENA_ETH_IO_RX_CDESC_BASE_L3_CSUM_ERR_MASK = 0x00002000"
definition ENA_ETH_IO_RX_CDESC_BASE_L4_CSUM_ERR_MASK :: u32 where
  [ena_consts]: "ENA_ETH_IO_RX_CDESC_BASE_L4_CSUM_ERR_MASK = 0x00004000"
definition ENA_ETH_IO_RX_CDESC_BASE_IPV4_FRAG_MASK :: u32 where
  [ena_consts]: "ENA_ETH_IO_RX_CDESC_BASE_IPV4_FRAG_MASK = 0x00008000"
definition ENA_ETH_IO_RX_CDESC_BASE_L4_CSUM_CHECKED_MASK :: u32 where
  [ena_consts]: "ENA_ETH_IO_RX_CDESC_BASE_L4_CSUM_CHECKED_MASK = 0x00010000"
definition ENA_ETH_IO_RX_CDESC_BASE_PHASE_SHIFT :: nat where
  [ena_consts]: "ENA_ETH_IO_RX_CDESC_BASE_PHASE_SHIFT = 24"
definition ENA_ETH_IO_RX_CDESC_BASE_PHASE_MASK :: u32 where
  [ena_consts]: "ENA_ETH_IO_RX_CDESC_BASE_PHASE_MASK = 0x01000000"
definition ENA_ETH_IO_RX_CDESC_BASE_FIRST_MASK :: u32 where
  [ena_consts]: "ENA_ETH_IO_RX_CDESC_BASE_FIRST_MASK = 0x04000000"
definition ENA_ETH_IO_RX_CDESC_BASE_LAST_MASK :: u32 where
  [ena_consts]: "ENA_ETH_IO_RX_CDESC_BASE_LAST_MASK = 0x08000000"

subsection \<open>Byte images\<close>

definition tx_desc_bytes :: "ena_eth_io_tx_desc \<Rightarrow> u8 list" where
  "tx_desc_bytes d = le32 (len_ctrl d) @ le32 (meta_ctrl d) @ le32 (txd_buff_addr_lo d) @
     le32 (buff_addr_hi_hdr_sz d)"

definition tx_desc_of_bytes :: "u8 list \<Rightarrow> ena_eth_io_tx_desc" where
  "tx_desc_of_bytes bs = \<lparr> len_ctrl = get32 bs 0, meta_ctrl = get32 bs 4,
     txd_buff_addr_lo = get32 bs 8, buff_addr_hi_hdr_sz = get32 bs 12 \<rparr>"

definition rx_desc_bytes :: "ena_eth_io_rx_desc \<Rightarrow> u8 list" where
  "rx_desc_bytes d = le16 (rxd_length d) @ [rxd_reserved2 d, rxd_ctrl d] @ le16 (rxd_req_id d) @
     le16 (rxd_reserved6 d) @ le32 (rxd_buff_addr_lo d) @ le16 (rxd_buff_addr_hi d) @
     le16 (rxd_reserved16_w3 d)"

definition rx_desc_of_bytes :: "u8 list \<Rightarrow> ena_eth_io_rx_desc" where
  "rx_desc_of_bytes bs = \<lparr> rxd_length = get16 bs 0, rxd_reserved2 = get8 bs 2, rxd_ctrl = get8 bs 3,
     rxd_req_id = get16 bs 4, rxd_reserved6 = get16 bs 6, rxd_buff_addr_lo = get32 bs 8,
     rxd_buff_addr_hi = get16 bs 12, rxd_reserved16_w3 = get16 bs 14 \<rparr>"

text \<open>Bits of the masks, for the proofs on descriptor words.\<close>

lemma mask_bits:
  "bit (0xFFFF :: u32) n \<longleftrightarrow> n < 16" "bit (0x3F :: u32) n \<longleftrightarrow> n < 6" "bit (0x3FF :: u32) n \<longleftrightarrow> n < 10"
  "bit (0xFFFF :: u64) n \<longleftrightarrow> n < 16" "bit (0x1F :: u32) n \<longleftrightarrow> n < 5" "bit (0xF :: u32) n \<longleftrightarrow> n < 4"
proof -
  have "(0xFFFF :: u32) = mask 16" "(0x3F :: u32) = mask 6" "(0x3FF :: u32) = mask 10"
    "(0xFFFF :: u64) = mask 16" "(0x1F :: u32) = mask 5" "(0xF :: u32) = mask 4"
    by (simp_all add: mask_eq_exp_minus_1)
  then show "bit (0xFFFF :: u32) n \<longleftrightarrow> n < 16" "bit (0x3F :: u32) n \<longleftrightarrow> n < 6"
    "bit (0x3FF :: u32) n \<longleftrightarrow> n < 10" "bit (0xFFFF :: u64) n \<longleftrightarrow> n < 16"
    "bit (0x1F :: u32) n \<longleftrightarrow> n < 5" "bit (0xF :: u32) n \<longleftrightarrow> n < 4"
    by (simp_all only: bit_mask_iff possible_bit_word) auto
qed

lemma one_bit_masks:
  "bit (0x01000000 :: u32) n \<longleftrightarrow> n = 24" "bit (0x04000000 :: u32) n \<longleftrightarrow> n = 26"
  "bit (0x08000000 :: u32) n \<longleftrightarrow> n = 27" "bit (0x10000000 :: u32) n \<longleftrightarrow> n = 28"
  "bit (0x00002000 :: u32) n \<longleftrightarrow> n = 13" "bit (0x00004000 :: u32) n \<longleftrightarrow> n = 14"
  "bit (0x00000010 :: u32) n \<longleftrightarrow> n = 4" "bit (0x00000080 :: u32) n \<longleftrightarrow> n = 7"
proof -
  have "(0x01000000 :: u32) = 2 ^ 24" "(0x04000000 :: u32) = 2 ^ 26" "(0x08000000 :: u32) = 2 ^ 27"
    "(0x10000000 :: u32) = 2 ^ 28" "(0x00002000 :: u32) = 2 ^ 13" "(0x00004000 :: u32) = 2 ^ 14"
    "(0x00000010 :: u32) = 2 ^ 4" "(0x00000080 :: u32) = 2 ^ 7" by simp_all
  then show "bit (0x01000000 :: u32) n \<longleftrightarrow> n = 24" "bit (0x04000000 :: u32) n \<longleftrightarrow> n = 26"
  "bit (0x08000000 :: u32) n \<longleftrightarrow> n = 27" "bit (0x10000000 :: u32) n \<longleftrightarrow> n = 28"
  "bit (0x00002000 :: u32) n \<longleftrightarrow> n = 13" "bit (0x00004000 :: u32) n \<longleftrightarrow> n = 14"
  "bit (0x00000010 :: u32) n \<longleftrightarrow> n = 4" "bit (0x00000080 :: u32) n \<longleftrightarrow> n = 7"
    by (simp_all only: bit_exp_iff possible_bit_word) auto
qed

lemmas word_bit_iffs = bit_or_iff bit_and_iff bit_push_bit_iff bit_unsigned_iff bit_drop_bit_eq
  bit_take_bit_iff comp_def possible_bit_word mask_bits one_bit_masks if_True if_False

lemma length_le [simp]: "length (le16 a) = 2" "length (le32 b) = 4" "length (le64 c) = 8"
  by (simp_all add: le16_def le32_def le64_def)

lemma un16_le16: "ucast (ucast x :: u8) OR push_bit 8 (ucast (ucast (drop_bit 8 x) :: u8)) = x"
  for x :: u16
  by (rule bit_word_eqI) (auto simp: bit_simps)

lemma un32_le32:
  "ucast (ucast x :: u8) OR push_bit 8 (ucast (ucast (drop_bit 8 x) :: u8)) OR
   push_bit 16 (ucast (ucast (drop_bit 16 x) :: u8)) OR
   push_bit 24 (ucast (ucast (drop_bit 24 x) :: u8)) = x"
  (is "?l = x") for x :: u32
proof (rule bit_word_eqI)
  fix n :: nat
  assume "n < LENGTH(32)"
  then show "bit ?l n \<longleftrightarrow> bit x n" 
    by (cases "24 \<le> n"; cases "16 \<le> n") (auto simp: bit_simps)
qed

lemma get16_le16: "get16 (xs @ le16 x @ ys) (length xs) = x"
  by (simp add: get16_def le16_def nth_append un16_le16)

lemma get32_le32: "get32 (xs @ le32 x @ ys) (length xs) = x"
  by (simp add: get32_def le32_def nth_append un32_le32)

lemma get_le_at [simp]:
  "length xs = n \<Longrightarrow> get16 (xs @ le16 x @ ys) n = x"
  "length xs = n \<Longrightarrow> get32 (xs @ le32 y @ ys) n = y"
  by (auto simp: get16_le16 get32_le32)

lemma tx_desc_roundtrip: "tx_desc_of_bytes (tx_desc_bytes d) = d"
  by (cases d) (simp add: tx_desc_of_bytes_def tx_desc_bytes_def get32_def le32_def un32_le32)

lemma rx_desc_roundtrip: "rx_desc_of_bytes (rx_desc_bytes d) = d"
  by (cases d) (simp add: rx_desc_of_bytes_def rx_desc_bytes_def get32_def get16_def get8_def
      le16_def le32_def un32_le32 un16_le16)

end
