(* ===== verification/Ena_Cursor.thy ===== *)
theory Ena_Cursor
  imports Ena_Prelude
begin

text \<open>
  The phase-bit cursor shared by every queue of the device: a free-running 16-bit counter
  whose low bits select the slot, and a phase bit that is inverted each time the counter
  starts a new lap.  The driver has five of them: the admin submission and completion
  queues and the event queue of \<^verbatim>\<open>src/src/ena_admin.c\<close>, and the submission and completion
  side of each I/O ring (\<^verbatim>\<open>src/src/ena_tx.c\<close>, \<^verbatim>\<open>src/src/ena_rx.c\<close>).  The locale states what
  one advance of such a cursor does; the theories of the queues interpret it.
\<close>

text \<open>
  The phase a cursor at counter \<open>c\<close> must have when it starts at counter 0 with phase \<open>p0\<close>:
  it is inverted on every odd lap.
\<close>

definition phase_at :: "u8 \<Rightarrow> u16 \<Rightarrow> u16 \<Rightarrow> u8" where
  "phase_at p0 d c = (if even (unat c div unat d) then p0 else p0 XOR 1)"

lemma xor_1_twice [simp]: "(p XOR 1) XOR 1 = p" for p :: "'a::len word"
  by (simp add: xor.assoc)

lemma xor_1_neq [simp]: "p XOR 1 \<noteq> p" for p :: u8
proof
  assume "p XOR 1 = p"
  then have "p XOR (p XOR 1) = p XOR p" by simp
  then show False by (simp add: xor.assoc [symmetric])
qed

lemma phase_at_0 [simp]: "phase_at p0 d 0 = p0"
  by (simp add: phase_at_def)

lemma phase_at_bit: "p0 \<le> 1 \<Longrightarrow> phase_at p0 d c \<le> 1"
proof -
  assume "p0 \<le> 1"
  then have "p0 = 0 \<or> p0 = 1" by (simp add: word_le_nat_alt unat_eq_0) unat_arith
  then show ?thesis by (auto simp: phase_at_def)
qed

lemma Suc_div_lap:
  "0 < d \<Longrightarrow> Suc n div d = (if Suc n mod d = 0 then Suc (n div d) else n div d)"
  for d n :: nat
  by (simp add: div_Suc)

lemma lap_wrap:
  assumes "ring_depth d" and "unat (c :: u16) + 1 = 2 ^ 16"
  shows "odd (unat c div unat d)" "(unat c + 1) mod unat d = 0"
proof -
  obtain k where k: "(2::nat) ^ 16 = 2 * unat d * k"
    using ring_depth_dvd [OF assms(1)] by (rule dvdE)
  have d0: "0 < unat d" using assms(1) by simp
  have c: "Suc (unat c) = unat d * (2 * k)" using assms(2) k by (simp add: ac_simps)
  then show m: "(unat c + 1) mod unat d = 0" by simp
  have "Suc (unat c) div unat d = 2 * k" using c d0 by simp
  with m d0 have "Suc (unat c div unat d) = 2 * k" by (simp add: Suc_div_lap)
  then show "odd (unat c div unat d)" by (metis dvd_triv_left even_Suc)
qed

lemma phase_at_Suc:
  assumes d: "ring_depth d"
  shows "phase_at p0 d (c + 1) =
    (if (c + 1) AND (d - 1) = 0 then phase_at p0 d c XOR 1 else phase_at p0 d c)"
proof (cases "unat c + 1 = 2 ^ 16")
  case True
  then have "c + 1 = 0" by (simp add: unat_Suc_u16 unat_eq_0 [symmetric])
  with lap_wrap [OF d True] show ?thesis by (simp add: phase_at_def)
next
  case False
  then have "unat c + 1 < 2 ^ 16" using unsigned_less [of c, where ?'a = nat] by simp
  then have c: "unat (c + 1) = Suc (unat c)" by (simp add: unat_Suc_u16)
  have "0 < unat d" using d by simp
  then have "unat (c + 1) div unat d =
      (if (c + 1) AND (d - 1) = 0 then Suc (unat c div unat d) else unat c div unat d)"
    using slot_Suc_eq_0 [OF d, of c] by (simp add: c Suc_div_lap)
  then show ?thesis by (simp add: phase_at_def)
qed

lemma phase_at_lap:
  assumes d: "ring_depth d"
  shows "phase_at p0 d (c + d) = phase_at p0 d c XOR 1"
proof -
  obtain k where k: "(2::nat) ^ 16 = 2 * unat d * k"
    using ring_depth_dvd [OF d] by (rule dvdE)
  have d0: "0 < unat d" using d by simp
  have s: "unat (c + d) = (unat c + unat d) mod 2 ^ 16" by (simp add: unat_word_ariths)
  have l: "(unat c + unat d) div unat d = Suc (unat c div unat d)"
    using d0 by (metis Suc_eq_plus1 div_add_self2 less_numeral_extra(3))
  show ?thesis
  proof (cases "unat c + unat d < 2 ^ 16")
    case True
    with l show ?thesis using s by (simp add: phase_at_def del: div_add_self2)
  next
    case False
    have "unat c < 2 ^ 16" using unsigned_less [of c, where ?'a = nat] by simp
    moreover have "unat d < 2 ^ 16" using unsigned_less [of d, where ?'a = nat] by simp
    ultimately have "unat (c + d) + 2 ^ 16 = unat c + unat d"
      using False s by (simp add: le_mod_geq)
    then have "unat (c + d) + unat d * (2 * k) = unat c + unat d"
      using k by (simp add: ac_simps)
    then have "(unat (c + d) + unat d * (2 * k)) div unat d = (unat c + unat d) div unat d"
      by simp
    with d0 l have "unat (c + d) div unat d + 2 * k = Suc (unat c div unat d)" by simp
    then have "even (unat (c + d) div unat d) \<longleftrightarrow> odd (unat c div unat d)"
      by (metis dvd_triv_left even_Suc even_add)
    then show ?thesis by (simp add: phase_at_def)
  qed
qed

subsection \<open>The interface\<close>

locale phase_cursor =
  fixes depth :: "'s \<Rightarrow> u16"
    and cursor :: "'s \<Rightarrow> u16"
    and phase :: "'s \<Rightarrow> u8"
    and advance :: "'s \<Rightarrow> 's"
    and p0 :: u8
  assumes depth_advance: "depth (advance s) = depth s"
    and cursor_advance: "cursor (advance s) = cursor s + 1"
    and phase_advance: "phase (advance s) =
      (if (cursor s + 1) AND (depth s - 1) = 0 then phase s XOR 1 else phase s)"
begin

definition coherent :: "'s \<Rightarrow> bool" where
  "coherent s \<longleftrightarrow> ring_depth (depth s) \<and> phase s = phase_at p0 (depth s) (cursor s)"

lemma coherent_advance: "coherent s \<Longrightarrow> coherent (advance s)"
  by (simp add: coherent_def depth_advance cursor_advance phase_advance phase_at_Suc)

lemma depth_iterate: "depth ((advance ^^ n) s) = depth s"
  by (induction n) (simp_all add: depth_advance)

lemma cursor_iterate: "cursor ((advance ^^ n) s) = cursor s + of_nat n"
  by (induction n) (simp_all add: cursor_advance algebra_simps)

lemma coherent_iterate: "coherent s \<Longrightarrow> coherent ((advance ^^ n) s)"
  by (induction n) (simp_all add: coherent_advance)

text \<open>One lap later the same slot carries the opposite phase: a stale entry is never current.\<close>

lemma lap_inverts_phase:
  assumes "coherent s"
  shows "phase ((advance ^^ unat (depth s)) s) = phase s XOR 1"
proof -
  let ?t = "(advance ^^ unat (depth s)) s"
  have "coherent ?t" by (rule coherent_iterate [OF assms])
  then have "phase ?t = phase_at p0 (depth s) (cursor s + depth s)"
    by (simp add: coherent_def depth_iterate cursor_iterate)
  with assms show ?thesis by (simp add: coherent_def phase_at_lap)
qed

end

end
