(* ===== verification/Ena_Pool.thy ===== *)
theory Ena_Pool
  imports Ena_Prelude
begin

text \<open>
  The FIFO pool of free 16-bit identifiers: an array used as a circular buffer with a head, a
  tail and a count.  The driver has three: the request ids of a ring
  (\<^verbatim>\<open>src/src/ena_datapath.c\<close>) and the bounce-buffer slots of a receive and of a transmit queue
  (\<^verbatim>\<open>src/src/ena_netdev.c\<close>).  The locale states what taking and returning an id do to the
  four fields and shows that the pool is a first-in first-out list.
\<close>

locale fifo_pool =
  fixes depth :: "'s \<Rightarrow> u16"
    and ids :: "'s \<Rightarrow> u16 list"
    and head :: "'s \<Rightarrow> u16"
    and tail :: "'s \<Rightarrow> u16"
    and count :: "'s \<Rightarrow> u16"
    and pop :: "'s \<Rightarrow> 's"
    and push :: "'s \<Rightarrow> u16 \<Rightarrow> 's"
  assumes pop_fields: "count s \<noteq> 0 \<Longrightarrow>
      depth (pop s) = depth s \<and> ids (pop s) = ids s \<and>
      head (pop s) = (head s + 1) AND (depth s - 1) \<and>
      tail (pop s) = tail s \<and> count (pop s) = count s - 1"
    and push_fields:
      "depth (push s x) = depth s \<and> ids (push s x) = (ids s)[unat (tail s) := x] \<and>
      head (push s x) = head s \<and>
      tail (push s x) = (tail s + 1) AND (depth s - 1) \<and> count (push s x) = count s + 1"
begin

definition pool_ok :: "'s \<Rightarrow> bool" where
  "pool_ok s \<longleftrightarrow> ring_depth (depth s) \<and> length (ids s) = unat (depth s) \<and>
    unat (head s) < unat (depth s) \<and> unat (count s) \<le> unat (depth s) \<and>
    unat (tail s) = (unat (head s) + unat (count s)) mod unat (depth s)"

definition free_ids :: "'s \<Rightarrow> u16 list" where
  "free_ids s = map (\<lambda>i. ids s ! ((unat (head s) + i) mod unat (depth s))) [0..<unat (count s)]"

lemma length_free_ids [simp]: "length (free_ids s) = unat (count s)"
  by (simp add: free_ids_def)

lemma pop_head: "count s \<noteq> 0 \<Longrightarrow> pool_ok s \<Longrightarrow> hd (free_ids s) = ids s ! unat (head s)"
  by (simp add: free_ids_def pool_ok_def upt_conv_Cons unat_gt_0)

lemma pop_free_ids:
  assumes c: "count s \<noteq> 0" and ok: "pool_ok s"
  shows "free_ids s = ids s ! unat (head s) # free_ids (pop s)"
proof -
  let ?d = "unat (depth s)" and ?h = "unat (head s)"
  have d: "ring_depth (depth s)" and h: "?h < ?d" using ok by (auto simp: pool_ok_def)
  have n: "unat (count s) = Suc (unat (count s - 1))"
    using c by (simp add: unat_pred_u16) (metis Suc_pred unat_gt_0)
  have "free_ids s = map (\<lambda>i. ids s ! ((?h + i) mod ?d)) (0 # map Suc [0..<unat (count s - 1)])"
    unfolding free_ids_def n by (simp add: map_Suc_upt upt_conv_Cons del: upt_Suc)
  also have "\<dots> = ids s ! ?h # map (\<lambda>i. ids s ! ((?h + 1 + i) mod ?d)) [0..<unat (count s - 1)]"
    using h by simp
  also have "\<dots> = ids s ! ?h # free_ids (pop s)"
    using pop_fields [OF c] d by (simp add: free_ids_def unat_slot_Suc mod_add_left_eq)
  finally show ?thesis .
qed

lemma pop_ok:
  assumes c: "count s \<noteq> 0" and ok: "pool_ok s"
  shows "pool_ok (pop s)"
proof -
  have d: "ring_depth (depth s)" using ok by (simp add: pool_ok_def)
  have n: "unat (count s) = Suc (unat (count s - 1))"
    using c by (simp add: unat_pred_u16) (metis Suc_pred unat_gt_0)
  show ?thesis
    using pop_fields [OF c] ok d n
    by (simp add: pool_ok_def unat_slot_Suc mod_add_left_eq del: unat_minus_one)
qed

lemma push_ok:
  assumes "pool_ok s" and "unat (count s) < unat (depth s)"
  shows "pool_ok (push s x)"
proof -
  have d: "ring_depth (depth s)" using assms by (simp add: pool_ok_def)
  have "unat (count s + 1) = unat (count s) + 1" by (rule unat_succ_less [OF assms(2)])
  with assms d push_fields [of s x] show ?thesis
    by (simp add: pool_ok_def unat_slot_Suc mod_Suc_eq)
qed

lemma tail_free:
  assumes "h < d" "n < d" "i < n"
  shows "(h + i) mod d \<noteq> (h + n) mod (d::nat)"
proof
  assume "(h + i) mod d = (h + n) mod d"
  then have "d dvd (h + n) - (h + i)" using assms by (metis add_le_cancel_left less_imp_le_nat mod_eq_dvd_iff_nat)
  then have "d dvd n - i" by simp
  with assms show False by (auto dest!: dvd_imp_le)
qed

lemma push_free_ids:
  assumes ok: "pool_ok s" and c: "unat (count s) < unat (depth s)"
  shows "free_ids (push s x) = free_ids s @ [x]"
proof -
  let ?d = "unat (depth s)" and ?h = "unat (head s)" and ?c = "unat (count s)"
  have h: "?h < ?d" and l: "length (ids s) = ?d" and t: "unat (tail s) = (?h + ?c) mod ?d"
    using ok by (auto simp: pool_ok_def)
  have c1: "unat (count s + 1) = Suc ?c" using unat_succ_less [OF c] by simp
  have "free_ids (push s x) =
      map (\<lambda>i. (ids s)[(?h + ?c) mod ?d := x] ! ((?h + i) mod ?d)) [0..<Suc ?c]"
    using push_fields [of s x] by (simp add: free_ids_def c1 t del: upt_Suc)
  also have "\<dots> = map (\<lambda>i. ids s ! ((?h + i) mod ?d)) [0..<?c] @ [x]"
    using h l tail_free [OF h c] by (auto simp: nth_list_update_neq [OF not_sym])
  finally show ?thesis by (simp add: free_ids_def)
qed

end

end
