(* ===== verification/Ena_Ring.thy ===== *)
theory Ena_Ring
  imports Ena_Wire Ena_Cursor Ena_Pool
begin

text \<open>
  The I/O ring of \<^verbatim>\<open>src/include/ena_datapath.h\<close> (\<^verbatim>\<open>struct ena_ring\<close>) and the part of
  \<^verbatim>\<open>src/src/ena_datapath.c\<close> that works on host memory only: allocation and release of a ring and
  its request-id pool.

  Conventions.  A heap or DMA array is a list and the empty list is the null pointer; a ring
  that was allocated has arrays of at least four elements.  The untyped memory of the two
  queues is kept as one list per descriptor type (\<open>tx_sq\<close>, \<open>rx_sq\<close>, \<open>tx_cq\<close>, \<open>rx_cq\<close>); the
  list of the other direction stays empty.  A packet buffer is an opaque handle, null being
  \<open>None\<close>.  A mapped doorbell is its offset in BAR 0.  The three callback fields record whether
  the callback is installed; the function itself is an argument of the operations that call
  it.  The ring lock is not a field: each operation is one atomic step.
\<close>

type_synonym netbuf = nat

datatype ena_ring_type = ENA_RING_TYPE_TX | ENA_RING_TYPE_RX | ENA_RING_TYPE_OTHER int

record ena_tx_buffer =
  tb_netbuf :: "netbuf option"
  tb_phys_addr :: u64
  tb_data_len :: u32
  tb_num_descs :: u16
  tb_req_id :: u16

record ena_rx_buffer =
  rb_netbuf :: "netbuf option"
  rb_phys_addr :: u64
  rb_data_len :: u32
  rb_req_id :: u16

record ena_tx_foreign_free =
  ff_req_id :: u16
  ff_owner_cpu :: u32

record ena_ring =
  qid :: u16
  ring_type :: ena_ring_type
  hw_valid :: bool
  tx_sq :: "ena_eth_io_tx_desc list"
  rx_sq :: "ena_eth_io_rx_desc list"
  sq_phys :: u64
  sq_head_wb_virt :: "u8 list"
  sq_head_wb_phys :: u64
  sq_depth :: u16
  sq_tail :: u16
  sq_head :: u16
  sq_phase :: u8
  sq_idx :: u16
  sq_db_offset :: u32
  sq_db :: "u32 option"
  tx_cq :: "ena_eth_io_tx_cdesc list"
  rx_cq :: "ena_eth_io_rx_cdesc_base list"
  cq_phys :: u64
  cq_depth :: u16
  cq_head :: u16
  cq_phase :: u8
  cq_elem_size :: u32
  cq_idx :: u16
  cq_db_offset :: u32
  cq_db :: "u32 option"
  cq_unmask_db_offset :: u32
  free_req_ids :: "u16 list"
  free_req_head :: u16
  free_req_tail :: u16
  free_req_count :: u16
  req_in_flight :: "u8 list"
  req_allocated :: "u8 list"
  tx_owner_cpu :: u32
  tx_owner_warned :: bool
  tx_foreign :: "ena_tx_foreign_free list"
  tx_foreign_count :: u16
  drop_netbuf_cb :: bool
  tx_complete_cb :: bool
  refill_netbuf :: bool
  tx_bufs :: "ena_tx_buffer list"
  rx_bufs :: "ena_rx_buffer list"
  tx_packets :: u64
  tx_bytes :: u64
  rx_packets :: u64
  rx_bytes :: u64
  rx_dropped :: u64
  tx_dropped :: u64
  rx_refill_err :: u64
  stats_print_acc :: u64
  is_llq :: bool
  push_buf_virt :: "u32 option"
  push_buf_phys :: u64
  push_buf_size :: u32
  llq_header_len :: u32
  llq_entry_size :: u32

definition ENA_CPU_ID_NONE :: u32 where
  [ena_consts]: "ENA_CPU_ID_NONE = 0xFFFFFFFF"

definition tx_buffer_zero :: ena_tx_buffer where
  "tx_buffer_zero = \<lparr> tb_netbuf = None, tb_phys_addr = 0, tb_data_len = 0, tb_num_descs = 0,
     tb_req_id = 0 \<rparr>"

definition rx_buffer_zero :: ena_rx_buffer where
  "rx_buffer_zero = \<lparr> rb_netbuf = None, rb_phys_addr = 0, rb_data_len = 0, rb_req_id = 0 \<rparr>"

text \<open>The ring context as \<^verbatim>\<open>calloc\<close> returns it.\<close>

definition ring_zero :: ena_ring where
  "ring_zero = \<lparr> qid = 0, ring_type = ENA_RING_TYPE_OTHER 0, hw_valid = False,
     tx_sq = [], rx_sq = [], sq_phys = 0, sq_head_wb_virt = [], sq_head_wb_phys = 0,
     sq_depth = 0, sq_tail = 0, sq_head = 0, sq_phase = 0, sq_idx = 0, sq_db_offset = 0,
     sq_db = None, tx_cq = [], rx_cq = [], cq_phys = 0, cq_depth = 0, cq_head = 0,
     cq_phase = 0, cq_elem_size = 0, cq_idx = 0, cq_db_offset = 0, cq_db = None,
     cq_unmask_db_offset = 0, free_req_ids = [], free_req_head = 0, free_req_tail = 0,
     free_req_count = 0, req_in_flight = [], req_allocated = [], tx_owner_cpu = 0,
     tx_owner_warned = False, tx_foreign = [], tx_foreign_count = 0,
     drop_netbuf_cb = False, tx_complete_cb = False, refill_netbuf = False,
     tx_bufs = [], rx_bufs = [], tx_packets = 0, tx_bytes = 0, rx_packets = 0, rx_bytes = 0,
     rx_dropped = 0, tx_dropped = 0, rx_refill_err = 0, stats_print_acc = 0, is_llq = False,
     push_buf_virt = None, push_buf_phys = 0, push_buf_size = 0, llq_header_len = 0,
     llq_entry_size = 0 \<rparr>"

subsection \<open>Ring allocation and release\<close>

definition ena_is_power_of_two :: "u16 \<Rightarrow> bool" where
  "ena_is_power_of_two val \<longleftrightarrow> 4 \<le> val \<and> val AND (val - 1) = 0"

text \<open>
  The blocks one ring owns.  The allocator is an argument: \<open>mem b\<close> is \<open>None\<close> when the
  allocation of block \<open>b\<close> fails and otherwise its physical address (used for DMA blocks).
  Allocation and release thread the list of the blocks that are live.
\<close>

datatype ring_block = B_ring | B_sq | B_cq | B_free_req_ids | B_bufs | B_in_flight
  | B_allocated | B_head_wb | B_foreign

fun release_blocks :: "ring_block list \<Rightarrow> ring_block list \<Rightarrow> ring_block list" where
  "release_blocks [] live = live"
| "release_blocks (b # bs) live = release_blocks bs (remove1 b live)"

definition ena_ring_init_fields :: "u16 \<Rightarrow> ena_ring_type \<Rightarrow> u16 \<Rightarrow> u16 \<Rightarrow> u32 \<Rightarrow> ena_ring" where
  "ena_ring_init_fields q ty sqd cqd elem = ring_zero
     \<lparr> qid := q, ring_type := ty, hw_valid := True, tx_owner_cpu := ENA_CPU_ID_NONE,
       sq_depth := sqd, cq_depth := cqd, cq_elem_size := elem, sq_phase := 1, cq_phase := 1,
       sq_tail := 0, sq_head := 0, cq_head := 0 \<rparr>"

definition ena_ring_alloc_tx_extra ::
  "(ring_block \<Rightarrow> u64 option) \<Rightarrow> ena_ring \<Rightarrow> ring_block list \<Rightarrow>
   int \<times> ena_ring option \<times> ring_block list" where
  "ena_ring_alloc_tx_extra mem r live =
    (case mem B_head_wb of
       None \<Rightarrow> (- ENOMEM, None, release_blocks
         [B_in_flight, B_allocated, B_bufs, B_free_req_ids, B_cq, B_sq, B_ring] live)
     | Some pa \<Rightarrow>
         let r = r\<lparr> sq_head_wb_virt := replicate 64 0, sq_head_wb_phys := pa \<rparr>;
             live = B_head_wb # live in
         (case mem B_foreign of
            None \<Rightarrow> (- ENOMEM, None, release_blocks
              [B_head_wb, B_allocated, B_in_flight, B_bufs, B_free_req_ids, B_cq, B_sq, B_ring] live)
          | Some _ \<Rightarrow>
              (0, Some (r\<lparr> tx_foreign := replicate (unat (sq_depth r))
                 \<lparr> ff_req_id = 0, ff_owner_cpu = 0 \<rparr> \<rparr>), B_foreign # live)))"

definition ena_ring_alloc ::
  "(ring_block \<Rightarrow> u64 option) \<Rightarrow> u16 \<Rightarrow> ena_ring_type \<Rightarrow> u16 \<Rightarrow> u16 \<Rightarrow> ring_block list \<Rightarrow>
   int \<times> ena_ring option \<times> ring_block list" where
  "ena_ring_alloc mem q ty sqd cqd live =
    (if \<not> ena_is_power_of_two sqd \<or> \<not> ena_is_power_of_two cqd then (- EINVAL, None, live)
     else if ty \<noteq> ENA_RING_TYPE_TX \<and> ty \<noteq> ENA_RING_TYPE_RX then (- EINVAL, None, live)
     else case mem B_ring of None \<Rightarrow> (- ENOMEM, None, live)
     | Some _ \<Rightarrow>
     let elem = (if ty = ENA_RING_TYPE_TX then 8 else 16);
         r = ena_ring_init_fields q ty sqd cqd elem;
         live = B_ring # live in
     case mem B_sq of None \<Rightarrow> (- ENOMEM, None, release_blocks [B_ring] live)
     | Some spa \<Rightarrow>
     let r = (if ty = ENA_RING_TYPE_TX then r\<lparr> tx_sq := replicate (unat sqd) tx_desc_zero \<rparr>
              else r\<lparr> rx_sq := replicate (unat sqd) rx_desc_zero \<rparr>)\<lparr> sq_phys := spa \<rparr>;
         live = B_sq # live in
     case mem B_cq of None \<Rightarrow> (- ENOMEM, None, release_blocks [B_sq, B_ring] live)
     | Some cpa \<Rightarrow>
     let r = (if ty = ENA_RING_TYPE_TX then r\<lparr> tx_cq := replicate (unat cqd) tx_cdesc_zero \<rparr>
              else r\<lparr> rx_cq := replicate (unat cqd) rx_cdesc_zero \<rparr>)\<lparr> cq_phys := cpa \<rparr>;
         live = B_cq # live in
     case mem B_free_req_ids of None \<Rightarrow> (- ENOMEM, None, release_blocks [B_cq, B_sq, B_ring] live)
     | Some _ \<Rightarrow>
     let r = r\<lparr> free_req_ids := map of_nat [0..<unat sqd], free_req_head := 0,
                free_req_tail := 0, free_req_count := sqd \<rparr>;
         live = B_free_req_ids # live in
     case mem B_bufs of
       None \<Rightarrow> (- ENOMEM, None, release_blocks [B_free_req_ids, B_cq, B_sq, B_ring] live)
     | Some _ \<Rightarrow>
     let r = (if ty = ENA_RING_TYPE_TX then r\<lparr> tx_bufs := replicate (unat sqd) tx_buffer_zero \<rparr>
              else r\<lparr> rx_bufs := replicate (unat sqd) rx_buffer_zero \<rparr>);
         live = B_bufs # live in
     case mem B_in_flight of
       None \<Rightarrow> (- ENOMEM, None, release_blocks [B_bufs, B_free_req_ids, B_cq, B_sq, B_ring] live)
     | Some _ \<Rightarrow>
     let r = r\<lparr> req_in_flight := replicate (unat sqd) 0 \<rparr>; live = B_in_flight # live in
     case mem B_allocated of
       None \<Rightarrow> (- ENOMEM, None,
         release_blocks [B_in_flight, B_bufs, B_free_req_ids, B_cq, B_sq, B_ring] live)
     | Some _ \<Rightarrow>
     let r = r\<lparr> req_allocated := replicate (unat sqd) 0 \<rparr>; live = B_allocated # live in
     if ty = ENA_RING_TYPE_TX then ena_ring_alloc_tx_extra mem r live
     else (0, Some r, live))"

definition release_if :: "bool \<Rightarrow> ring_block \<Rightarrow> ring_block list \<Rightarrow> ring_block list" where
  "release_if c b live = (if c then remove1 b live else live)"

definition ena_ring_free :: "ena_ring \<Rightarrow> ring_block list \<Rightarrow> ring_block list" where
  "ena_ring_free r live =
    (let live = release_if (sq_head_wb_virt r \<noteq> []) B_head_wb live;
         live = release_if (req_in_flight r \<noteq> []) B_in_flight live;
         live = release_if (req_allocated r \<noteq> []) B_allocated live;
         live = release_if (tx_foreign r \<noteq> []) B_foreign live;
         live = release_if (tx_bufs r \<noteq> [] \<or> rx_bufs r \<noteq> []) B_bufs live;
         live = release_if (free_req_ids r \<noteq> []) B_free_req_ids live;
         live = release_if (tx_cq r \<noteq> [] \<or> rx_cq r \<noteq> []) B_cq live;
         live = release_if (tx_sq r \<noteq> [] \<or> rx_sq r \<noteq> []) B_sq live
     in remove1 B_ring live)"

subsection \<open>The request-id pool\<close>

definition ena_ring_slot_clear :: "ena_ring \<Rightarrow> u16 \<Rightarrow> ena_ring" where
  "ena_ring_slot_clear r req_id =
    (if ring_type r = ENA_RING_TYPE_TX
     then r\<lparr> tx_bufs := (tx_bufs r)[unat req_id := tx_buffer_zero] \<rparr>
     else r\<lparr> rx_bufs := (rx_bufs r)[unat req_id := rx_buffer_zero] \<rparr>)"

text \<open>Taking the head entry: the state change of \<^verbatim>\<open>ena_ring_req_id_alloc\<close>.\<close>

definition req_id_pop :: "ena_ring \<Rightarrow> ena_ring" where
  "req_id_pop r =
    (let id = free_req_ids r ! unat (free_req_head r);
         r = r\<lparr> free_req_head := (free_req_head r + 1) AND (sq_depth r - 1),
                free_req_count := free_req_count r - 1 \<rparr>
     in if req_allocated r \<noteq> [] then r\<lparr> req_allocated := (req_allocated r)[unat id := 1] \<rparr> else r)"

definition ena_ring_req_id_alloc :: "ena_ring \<Rightarrow> int \<times> u16 \<times> ena_ring" where
  "ena_ring_req_id_alloc r =
    (if free_req_count r = 0 then (- EBUSY, 0, r)
     else (0, free_req_ids r ! unat (free_req_head r), req_id_pop r))"

text \<open>Appending an id and clearing its slot: the state change of \<^verbatim>\<open>ena_ring_req_id_free\<close>.\<close>

definition req_id_push :: "ena_ring \<Rightarrow> u16 \<Rightarrow> ena_ring" where
  "req_id_push r req_id =
    (let r = (if req_allocated r \<noteq> [] then r\<lparr> req_allocated := (req_allocated r)[unat req_id := 0] \<rparr>
              else r);
         r = r\<lparr> free_req_ids := (free_req_ids r)[unat (free_req_tail r) := req_id],
                free_req_tail := (free_req_tail r + 1) AND (sq_depth r - 1),
                free_req_count := free_req_count r + 1 \<rparr>
     in ena_ring_slot_clear r req_id)"

definition ena_ring_req_id_free :: "ena_ring \<Rightarrow> u16 \<Rightarrow> int \<times> ena_ring" where
  "ena_ring_req_id_free r req_id =
    (if sq_depth r \<le> req_id then (- EINVAL, r)
     else if req_allocated r \<noteq> [] \<and> req_allocated r ! unat req_id = 0 then (0, r)
     else if sq_depth r \<le> free_req_count r then (- EINVAL, r)
     else (0, req_id_push r req_id))"

text \<open>The producer step of the submission queue and the consumer step of the completion queue.\<close>

definition sq_advance :: "ena_ring \<Rightarrow> ena_ring" where
  "sq_advance r =
    (let r = r\<lparr> sq_tail := sq_tail r + 1 \<rparr>
     in if sq_tail r AND (sq_depth r - 1) = 0 then r\<lparr> sq_phase := sq_phase r XOR 1 \<rparr> else r)"

definition cq_advance :: "ena_ring \<Rightarrow> ena_ring" where
  "cq_advance r =
    (let r = r\<lparr> cq_head := cq_head r + 1 \<rparr>
     in if cq_head r AND (cq_depth r - 1) = 0 then r\<lparr> cq_phase := cq_phase r XOR 1 \<rparr> else r)"

interpretation sq: phase_cursor sq_depth sq_tail sq_phase sq_advance 1
  by unfold_locales (simp_all add: sq_advance_def Let_def)

interpretation cq: phase_cursor cq_depth cq_head cq_phase cq_advance 1
  by unfold_locales (simp_all add: cq_advance_def Let_def)

interpretation rp: fifo_pool sq_depth free_req_ids free_req_head free_req_tail free_req_count
  req_id_pop req_id_push
  by unfold_locales (simp_all add: req_id_pop_def req_id_push_def ena_ring_slot_clear_def Let_def)

end
