(* ===== verification/Ena_Ring_Facts.thy ===== *)
theory Ena_Ring_Facts
  imports Ena_Ring
begin

text \<open>
  Facts on ring allocation, release and the request-id pool of \<^verbatim>\<open>Ena_Ring\<close>: allocation either
  returns a fresh ring or releases everything it took, and the free list and the ownership
  flags of the request ids always partition the ids.
\<close>

subsection \<open>Allocation: results and blocks\<close>

lemma ena_is_power_of_two_iff: "ena_is_power_of_two val \<longleftrightarrow> ring_depth val"
proof (cases "val = 0")
  case False
  then show ?thesis
    by (simp add: ena_is_power_of_two_def ring_depth_def and_pred_eq_0_word word_le_nat_alt)
qed (simp add: ena_is_power_of_two_def ring_depth_def)

lemma remove1_hd [simp]: "remove1 x (x # xs) = xs"
  by simp

lemmas ring_alloc_defs = ena_ring_alloc_def ena_ring_alloc_tx_extra_def ena_ring_init_fields_def

lemma ena_ring_alloc_depths:
  "ena_ring_alloc mem q ty sqd cqd live = (0, Some r, live') \<Longrightarrow> ring_depth sqd \<and> ring_depth cqd"
  by (auto simp: ena_ring_alloc_def ena_is_power_of_two_iff EINVAL_def split: if_splits)

lemma ena_ring_alloc_fails_clean:
  assumes "ena_ring_alloc mem q ty sqd cqd live = (rc, res, live')" and "rc \<noteq> 0"
  shows "res = None \<and> live' = live"
  using assms
  by (simp add: ring_alloc_defs Let_def split: if_splits option.splits)

lemma ena_ring_alloc_rc:
  assumes "ena_ring_alloc mem q ty sqd cqd live = (rc, res, live')"
  shows "rc \<in> {0, - EINVAL, - ENOMEM} \<and> (rc = 0 \<longleftrightarrow> res \<noteq> None)"
  using assms
  by (simp add: ring_alloc_defs Let_def EINVAL_def ENOMEM_def split: if_splits option.splits) auto

text \<open>A fresh ring, field by field.\<close>

definition fresh_ring :: "ena_ring \<Rightarrow> bool" where
  "fresh_ring r \<longleftrightarrow> ring_depth (sq_depth r) \<and> ring_depth (cq_depth r) \<and>
     hw_valid r \<and> sq_phase r = 1 \<and> cq_phase r = 1 \<and> sq_tail r = 0 \<and> sq_head r = 0 \<and> cq_head r = 0 \<and>
     free_req_ids r = map of_nat [0..<unat (sq_depth r)] \<and> free_req_head r = 0 \<and>
     free_req_tail r = 0 \<and> free_req_count r = sq_depth r \<and>
     req_in_flight r = replicate (unat (sq_depth r)) 0 \<and>
     req_allocated r = replicate (unat (sq_depth r)) 0 \<and> tx_foreign_count r = 0"

lemma ena_ring_alloc_fresh:
  assumes "ena_ring_alloc mem q ty sqd cqd live = (0, Some r, live')"
  shows "fresh_ring r \<and> ring_type r = ty \<and> qid r = q \<and> sq_depth r = sqd \<and> cq_depth r = cqd"
  using assms ena_ring_alloc_depths [OF assms]
  by (auto simp: ring_alloc_defs Let_def fresh_ring_def ring_zero_def EINVAL_def ENOMEM_def
      split: if_splits option.splits)

lemma ena_ring_alloc_tx_arrays:
  assumes "ena_ring_alloc mem q ENA_RING_TYPE_TX sqd cqd live = (0, Some r, live')"
  shows "tx_sq r = replicate (unat sqd) tx_desc_zero \<and> tx_cq r = replicate (unat cqd) tx_cdesc_zero \<and>
    tx_bufs r = replicate (unat sqd) tx_buffer_zero \<and> length (tx_foreign r) = unat sqd \<and>
    length (sq_head_wb_virt r) = 64 \<and> rx_sq r = [] \<and> rx_cq r = [] \<and> rx_bufs r = []"
  using assms
  by (auto simp: ring_alloc_defs Let_def ring_zero_def EINVAL_def ENOMEM_def
      split: if_splits option.splits)

lemma ena_ring_alloc_rx_arrays:
  assumes "ena_ring_alloc mem q ENA_RING_TYPE_RX sqd cqd live = (0, Some r, live')"
  shows "rx_sq r = replicate (unat sqd) rx_desc_zero \<and> rx_cq r = replicate (unat cqd) rx_cdesc_zero \<and>
    rx_bufs r = replicate (unat sqd) rx_buffer_zero \<and> tx_foreign r = [] \<and>
    sq_head_wb_virt r = [] \<and> tx_sq r = [] \<and> tx_cq r = [] \<and> tx_bufs r = []"
  using assms
  by (auto simp: ring_alloc_defs Let_def ring_zero_def EINVAL_def ENOMEM_def
      split: if_splits option.splits)

lemma ena_ring_alloc_live:
  assumes "ena_ring_alloc mem q ty sqd cqd live = (0, Some r, live')"
  shows "live' = (if ty = ENA_RING_TYPE_TX then [B_foreign, B_head_wb] else []) @
    [B_allocated, B_in_flight, B_bufs, B_free_req_ids, B_cq, B_sq, B_ring] @ live"
  using assms
  by (auto simp: ring_alloc_defs Let_def EINVAL_def ENOMEM_def split: if_splits option.splits)

lemma ena_ring_alloc_type:
  "ena_ring_alloc mem q ty sqd cqd live = (0, Some r, live') \<Longrightarrow>
    ty = ENA_RING_TYPE_TX \<or> ty = ENA_RING_TYPE_RX"
  by (auto simp: ena_ring_alloc_def EINVAL_def split: if_splits)

lemma ena_ring_alloc_free:
  assumes a: "ena_ring_alloc mem q ty sqd cqd live = (0, Some r, live')"
  shows "ena_ring_free r live' = live"
proof -
  have d: "replicate (unat sqd) x \<noteq> []" "replicate (unat cqd) y \<noteq> []" "[0..<unat sqd] \<noteq> []"
    for x y using ena_ring_alloc_depths [OF a] by simp_all
  have f: "fresh_ring r" "sq_depth r = sqd" using ena_ring_alloc_fresh [OF a] by simp_all
  from ena_ring_alloc_type [OF a] show ?thesis
  proof
    assume "ty = ENA_RING_TYPE_TX"
    with a ena_ring_alloc_tx_arrays [of mem q sqd cqd live r live'] f d ena_ring_alloc_live [OF a]
    have "sq_head_wb_virt r \<noteq> []" "tx_foreign r \<noteq> []" "tx_sq r \<noteq> []" "tx_cq r \<noteq> []" "tx_bufs r \<noteq> []"
      "req_in_flight r \<noteq> []" "req_allocated r \<noteq> []" "free_req_ids r \<noteq> []"
      by (auto simp: fresh_ring_def)
    with \<open>ty = ENA_RING_TYPE_TX\<close> ena_ring_alloc_live [OF a] show ?thesis
      by (simp add: ena_ring_free_def release_if_def fresh_ring_def Let_def)
  next
    assume "ty = ENA_RING_TYPE_RX"
    with a ena_ring_alloc_rx_arrays [of mem q sqd cqd live r live'] f d ena_ring_alloc_live [OF a]
    have "sq_head_wb_virt r = []" "tx_foreign r = []" "rx_sq r \<noteq> []" "rx_cq r \<noteq> []" "rx_bufs r \<noteq> []"
      "req_in_flight r \<noteq> []" "req_allocated r \<noteq> []" "free_req_ids r \<noteq> []"
      by (auto simp: fresh_ring_def)
    with \<open>ty = ENA_RING_TYPE_RX\<close> ena_ring_alloc_live [OF a] show ?thesis
      by (simp add: ena_ring_free_def release_if_def fresh_ring_def Let_def)
  qed
qed

subsection \<open>The request-id invariant\<close>

text \<open>
  Every request id is either in the free list, once, or checked out (its \<open>req_allocated\<close> flag
  is set), and never both.
\<close>

definition req_ids_ok :: "ena_ring \<Rightarrow> bool" where
  "req_ids_ok r \<longleftrightarrow> rp.pool_ok r \<and> length (req_allocated r) = unat (sq_depth r) \<and>
     length (req_in_flight r) = unat (sq_depth r) \<and> distinct (rp.free_ids r) \<and>
     set (rp.free_ids r) = {i. unat i < unat (sq_depth r) \<and> req_allocated r ! unat i = 0}"

lemma req_ids_ok_depth [simp]: "req_ids_ok r \<Longrightarrow> ring_depth (sq_depth r)"
  and req_ids_ok_pool: "req_ids_ok r \<Longrightarrow> rp.pool_ok r"
  by (simp_all add: req_ids_ok_def rp.pool_ok_def)

lemma image_of_nat_u16: "n \<le> 2 ^ 16 \<Longrightarrow> of_nat ` {0..<n} = {i :: u16. unat i < n}"
proof (intro equalityI subsetI)
  fix i :: u16
  assume "i \<in> {i. unat i < n}"
  then have "i = of_nat (unat i)" "unat i \<in> {0..<n}" by simp_all
  then show "i \<in> of_nat ` {0..<n}" by (rule image_eqI)
qed (auto simp: unat_of_nat take_bit_nat_eq_self)

lemma distinct_of_nat_u16: "n \<le> 2 ^ 16 \<Longrightarrow> distinct (map of_nat [0..<n] :: u16 list)"
  by (auto simp: distinct_map inj_on_def word_of_nat_eq_iff take_bit_nat_eq_self)

lemma req_ids_okD:
  assumes "req_ids_ok r"
  shows "length (req_allocated r) = unat (sq_depth r)" "length (req_in_flight r) = unat (sq_depth r)"
    "distinct (rp.free_ids r)"
    "set (rp.free_ids r) = {i. unat i < unat (sq_depth r) \<and> req_allocated r ! unat i = 0}"
  using assms by (simp_all add: req_ids_ok_def)

lemma fresh_ring_free_ids: "fresh_ring r \<Longrightarrow> rp.free_ids r = map of_nat [0..<unat (sq_depth r)]"
  by (rule nth_equalityI) (simp_all add: rp.free_ids_def fresh_ring_def)

lemma fresh_ring_ids_ok: "fresh_ring r \<Longrightarrow> req_ids_ok r"
proof -
  assume f: "fresh_ring r"
  then have d: "ring_depth (sq_depth r)" by (simp add: fresh_ring_def)
  have "unat (sq_depth r) \<le> 2 ^ 16" using ring_depth_le [OF d] by simp
  note ids = distinct_of_nat_u16 [OF this] image_of_nat_u16 [OF this]
  have "rp.pool_ok r" using f by (simp add: fresh_ring_def rp.pool_ok_def)
  moreover have "{i. unat i < unat (sq_depth r) \<and> req_allocated r ! unat i = 0} =
      {i :: u16. unat i < unat (sq_depth r)}"
    using f by (simp add: fresh_ring_def cong: conj_cong)
  moreover have "length (req_allocated r) = unat (sq_depth r)" "length (req_in_flight r) = unat (sq_depth r)"
    using f by (simp_all add: fresh_ring_def)
  ultimately show ?thesis
    unfolding req_ids_ok_def fresh_ring_free_ids [OF f] using ids by (simp only: set_map set_upt)
qed

text \<open>Conservation: the free ids and the checked-out ids make up the whole depth.\<close>

lemma card_u16_below: "card {i :: u16. unat i < n \<and> P (unat i)} = card {i. i < n \<and> P i}"
  if "n \<le> 2 ^ 16" for n :: nat
proof -
  have "bij_betw unat {i :: u16. unat i < n \<and> P (unat i)} {i. i < n \<and> P i}"
  proof (rule bij_betw_byWitness [where f' = of_nat])
    show "\<forall>a\<in>{i. i < n \<and> P i}. unat (of_nat a :: u16) = a"
      using that by (auto simp: unat_of_nat take_bit_nat_eq_self)
  qed (use that in \<open>auto simp: unat_of_nat take_bit_nat_eq_self\<close>)
  then show ?thesis by (rule bij_betw_same_card)
qed

definition allocated_ids :: "ena_ring \<Rightarrow> nat set" where
  "allocated_ids r = {i. i < unat (sq_depth r) \<and> req_allocated r ! i \<noteq> 0}"

lemma req_ids_conserved:
  assumes "req_ids_ok r"
  shows "unat (free_req_count r) + card (allocated_ids r) = unat (sq_depth r)"
proof -
  let ?d = "unat (sq_depth r)"
  have "unat (free_req_count r) = card (set (rp.free_ids r))"
    using assms by (metis req_ids_ok_def distinct_card rp.length_free_ids)
  also have "\<dots> = card {i. i < ?d \<and> req_allocated r ! i = 0}"
    using assms ring_depth_le [of "sq_depth r"]
      card_u16_below [of ?d "\<lambda>i. req_allocated r ! i = 0"] by (simp add: req_ids_ok_def)
  finally have "unat (free_req_count r) + card (allocated_ids r) =
      card ({i. i < ?d \<and> req_allocated r ! i = 0} \<union> allocated_ids r)"
    by (subst card_Un_disjoint) (auto simp: allocated_ids_def)
  also have "{i. i < ?d \<and> req_allocated r ! i = 0} \<union> allocated_ids r = {..<?d}"
    by (auto simp: allocated_ids_def)
  finally show ?thesis by simp
qed

subsection \<open>Taking and returning a request id\<close>

lemma pop_frame [frame_simps]:
  "sq_depth (req_id_pop r) = sq_depth r" "cq_depth (req_id_pop r) = cq_depth r"
  "sq_tail (req_id_pop r) = sq_tail r" "sq_phase (req_id_pop r) = sq_phase r"
  "cq_head (req_id_pop r) = cq_head r" "cq_phase (req_id_pop r) = cq_phase r"
  "ring_type (req_id_pop r) = ring_type r" "hw_valid (req_id_pop r) = hw_valid r"
  "req_in_flight (req_id_pop r) = req_in_flight r"
  "tx_bufs (req_id_pop r) = tx_bufs r" "rx_bufs (req_id_pop r) = rx_bufs r"
  "tx_foreign (req_id_pop r) = tx_foreign r" "tx_foreign_count (req_id_pop r) = tx_foreign_count r"
  "tx_sq (req_id_pop r) = tx_sq r" "rx_sq (req_id_pop r) = rx_sq r"
  "tx_cq (req_id_pop r) = tx_cq r" "rx_cq (req_id_pop r) = rx_cq r"
  "tx_owner_cpu (req_id_pop r) = tx_owner_cpu r" "sq_db (req_id_pop r) = sq_db r"
  "tx_complete_cb (req_id_pop r) = tx_complete_cb r" "drop_netbuf_cb (req_id_pop r) = drop_netbuf_cb r"
  "cq_db (req_id_pop r) = cq_db r" "rx_dropped (req_id_pop r) = rx_dropped r"
  by (simp_all add: req_id_pop_def Let_def)

lemma push_frame [frame_simps]:
  "sq_depth (req_id_push r i) = sq_depth r" "cq_depth (req_id_push r i) = cq_depth r"
  "sq_tail (req_id_push r i) = sq_tail r" "sq_phase (req_id_push r i) = sq_phase r"
  "cq_head (req_id_push r i) = cq_head r" "cq_phase (req_id_push r i) = cq_phase r"
  "ring_type (req_id_push r i) = ring_type r" "hw_valid (req_id_push r i) = hw_valid r"
  "req_in_flight (req_id_push r i) = req_in_flight r"
  "tx_bufs (req_id_push r i) = (if ring_type r = ENA_RING_TYPE_TX
     then (tx_bufs r)[unat i := tx_buffer_zero] else tx_bufs r)"
  "rx_bufs (req_id_push r i) = (if ring_type r = ENA_RING_TYPE_TX
     then rx_bufs r else (rx_bufs r)[unat i := rx_buffer_zero])"
  "tx_foreign (req_id_push r i) = tx_foreign r"
  "tx_foreign_count (req_id_push r i) = tx_foreign_count r"
  "tx_sq (req_id_push r i) = tx_sq r" "rx_sq (req_id_push r i) = rx_sq r"
  "tx_cq (req_id_push r i) = tx_cq r" "rx_cq (req_id_push r i) = rx_cq r"
  "tx_owner_cpu (req_id_push r i) = tx_owner_cpu r" "sq_db (req_id_push r i) = sq_db r"
  "tx_complete_cb (req_id_push r i) = tx_complete_cb r" "drop_netbuf_cb (req_id_push r i) = drop_netbuf_cb r"
  "cq_db (req_id_push r i) = cq_db r" "rx_dropped (req_id_push r i) = rx_dropped r"
  by (simp_all add: req_id_push_def ena_ring_slot_clear_def Let_def)

lemma req_ids_ok_allocated_ne: "req_ids_ok r \<Longrightarrow> req_allocated r \<noteq> []"
  by (metis length_0_conv req_ids_ok_def req_ids_ok_depth ring_depth_neq_0(1))

lemma pop_allocated:
  "req_ids_ok r \<Longrightarrow>
    req_allocated (req_id_pop r) = (req_allocated r)[unat (free_req_ids r ! unat (free_req_head r)) := 1]"
  using req_ids_ok_allocated_ne [of r] by (simp add: req_id_pop_def Let_def)

lemma push_allocated:
  "req_ids_ok r \<Longrightarrow> req_allocated (req_id_push r i) = (req_allocated r)[unat i := 0]"
  using req_ids_ok_allocated_ne [of r] by (simp add: req_id_push_def ena_ring_slot_clear_def Let_def)

lemma pop_id_free:
  assumes "req_ids_ok r" and "free_req_count r \<noteq> 0"
  defines "i \<equiv> free_req_ids r ! unat (free_req_head r)"
  shows "unat i < unat (sq_depth r)" "req_allocated r ! unat i = 0"
proof -
  have "i \<in> set (rp.free_ids r)"
    using rp.pop_free_ids [OF assms(2) req_ids_ok_pool [OF assms(1)]] by (simp add: i_def)
  then show "unat i < unat (sq_depth r)" "req_allocated r ! unat i = 0"
    using assms(1) by (auto simp: req_ids_ok_def)
qed

lemma pop_ids_ok:
  assumes ok: "req_ids_ok r" and c: "free_req_count r \<noteq> 0"
  shows "req_ids_ok (req_id_pop r)"
proof -
  let ?id = "free_req_ids r ! unat (free_req_head r)"
  have f: "rp.free_ids r = ?id # rp.free_ids (req_id_pop r)"
    by (rule rp.pop_free_ids [OF c req_ids_ok_pool [OF ok]])
  from req_ids_okD(3) [OF ok] have d: "?id \<notin> set (rp.free_ids (req_id_pop r))" "distinct (rp.free_ids (req_id_pop r))"
    by (simp_all add: f)
  then have "set (rp.free_ids (req_id_pop r)) = set (rp.free_ids r) - {?id}" by (simp add: f)
  also have "set (rp.free_ids r) = {i. unat i < unat (sq_depth r) \<and> req_allocated r ! unat i = 0}"
    by (rule req_ids_okD(4) [OF ok])
  also have "{i. unat i < unat (sq_depth r) \<and> req_allocated r ! unat i = 0} - {?id} =
      {i. unat i < unat (sq_depth r) \<and> (req_allocated r)[unat ?id := 1] ! unat i = 0}"
    using req_ids_okD(1) [OF ok] pop_id_free [OF ok c] by (auto simp: nth_list_update)
  finally show ?thesis
    using d rp.pop_ok [OF c req_ids_ok_pool [OF ok]] req_ids_okD(1,2) [OF ok]
    unfolding req_ids_ok_def frame_simps pop_allocated [OF ok] by simp
qed

lemma allocated_count_less:
  assumes "req_ids_ok r" and "unat i < unat (sq_depth r)" and "req_allocated r ! unat i \<noteq> 0"
  shows "unat (free_req_count r) < unat (sq_depth r)"
proof -
  have "finite (allocated_ids r)" "unat i \<in> allocated_ids r" using assms by (auto simp: allocated_ids_def)
  then have "0 < card (allocated_ids r)" by (auto simp: card_gt_0_iff)
  with req_ids_conserved [OF assms(1)] show ?thesis by linarith
qed

lemma push_ids_ok:
  assumes ok: "req_ids_ok r" and i: "unat i < unat (sq_depth r)" "req_allocated r ! unat i \<noteq> 0"
  shows "req_ids_ok (req_id_push r i)"
proof -
  note c = allocated_count_less [OF ok i] and p = req_ids_ok_pool [OF ok]
  have f: "rp.free_ids (req_id_push r i) = rp.free_ids r @ [i]" by (rule rp.push_free_ids [OF p c])
  have "i \<notin> set (rp.free_ids r)" using i unfolding req_ids_okD(4) [OF ok] by simp
  moreover have "insert i (set (rp.free_ids r)) =
      {j. unat j < unat (sq_depth r) \<and> (req_allocated r)[unat i := 0] ! unat j = 0}"
    using i req_ids_okD(1) [OF ok] unfolding req_ids_okD(4) [OF ok] by (auto simp: nth_list_update)
  ultimately show ?thesis
    using req_ids_okD(1-3) [OF ok] rp.push_ok [OF p c]
    unfolding req_ids_ok_def frame_simps push_allocated [OF ok] f by simp
qed

text \<open>Under the invariant a release succeeds for every id in range, and is the identity on a free id.\<close>

lemma req_id_free_cases:
  assumes "req_ids_ok r" and "unat i < unat (sq_depth r)"
  shows "ena_ring_req_id_free r i =
    (0, if req_allocated r ! unat i = 0 then r else req_id_push r i)"
  using assms allocated_count_less [OF assms] req_ids_ok_allocated_ne [OF assms(1)]
  by (auto simp: ena_ring_req_id_free_def word_le_nat_alt)

lemma req_id_free_ok: "req_ids_ok r \<Longrightarrow> req_ids_ok (snd (ena_ring_req_id_free r i))"
  using req_id_free_cases [of r i] push_ids_ok [of r i]
  by (cases "unat i < unat (sq_depth r)")
    (auto simp: ena_ring_req_id_free_def word_le_nat_alt not_less)

subsection \<open>Frames\<close>

lemma req_ids_ok_cong:
  assumes "sq_depth r' = sq_depth r" "free_req_ids r' = free_req_ids r"
    "free_req_head r' = free_req_head r" "free_req_tail r' = free_req_tail r"
    "free_req_count r' = free_req_count r" "req_allocated r' = req_allocated r"
    "length (req_in_flight r') = length (req_in_flight r)"
  shows "req_ids_ok r' = req_ids_ok r"
  using assms by (simp add: req_ids_ok_def rp.pool_ok_def rp.free_ids_def)

lemma coherent_cong:
  "sq_depth r' = sq_depth r \<Longrightarrow> sq_tail r' = sq_tail r \<Longrightarrow> sq_phase r' = sq_phase r \<Longrightarrow>
    sq.coherent r' = sq.coherent r"
  "cq_depth r' = cq_depth r \<Longrightarrow> cq_head r' = cq_head r \<Longrightarrow> cq_phase r' = cq_phase r \<Longrightarrow>
    cq.coherent r' = cq.coherent r"
  by (simp_all add: sq.coherent_def cq.coherent_def)

lemma advance_frame [frame_simps]:
  "ring_type (cq_advance r) = ring_type r" "sq_depth (cq_advance r) = sq_depth r"
  "cq_depth (cq_advance r) = cq_depth r" "tx_bufs (cq_advance r) = tx_bufs r"
  "rx_bufs (cq_advance r) = rx_bufs r" "tx_sq (cq_advance r) = tx_sq r" "tx_cq (cq_advance r) = tx_cq r"
  "rx_sq (cq_advance r) = rx_sq r" "rx_cq (cq_advance r) = rx_cq r"
  "tx_foreign (cq_advance r) = tx_foreign r" "tx_foreign_count (cq_advance r) = tx_foreign_count r"
  "req_in_flight (cq_advance r) = req_in_flight r" "req_allocated (cq_advance r) = req_allocated r"
  "free_req_ids (cq_advance r) = free_req_ids r" "free_req_head (cq_advance r) = free_req_head r"
  "free_req_tail (cq_advance r) = free_req_tail r" "free_req_count (cq_advance r) = free_req_count r"
  "sq_tail (cq_advance r) = sq_tail r" "sq_phase (cq_advance r) = sq_phase r"
  "hw_valid (cq_advance r) = hw_valid r" "tx_owner_cpu (cq_advance r) = tx_owner_cpu r"
  "tx_complete_cb (cq_advance r) = tx_complete_cb r" "drop_netbuf_cb (cq_advance r) = drop_netbuf_cb r"
  "cq_db (cq_advance r) = cq_db r" "sq_db (cq_advance r) = sq_db r"
  "ring_type (sq_advance r) = ring_type r" "sq_depth (sq_advance r) = sq_depth r"
  "cq_depth (sq_advance r) = cq_depth r" "tx_bufs (sq_advance r) = tx_bufs r"
  "rx_bufs (sq_advance r) = rx_bufs r" "tx_sq (sq_advance r) = tx_sq r" "tx_cq (sq_advance r) = tx_cq r"
  "rx_sq (sq_advance r) = rx_sq r" "rx_cq (sq_advance r) = rx_cq r"
  "tx_foreign (sq_advance r) = tx_foreign r" "tx_foreign_count (sq_advance r) = tx_foreign_count r"
  "req_in_flight (sq_advance r) = req_in_flight r" "req_allocated (sq_advance r) = req_allocated r"
  "free_req_ids (sq_advance r) = free_req_ids r" "free_req_head (sq_advance r) = free_req_head r"
  "free_req_tail (sq_advance r) = free_req_tail r" "free_req_count (sq_advance r) = free_req_count r"
  "cq_head (sq_advance r) = cq_head r" "cq_phase (sq_advance r) = cq_phase r"
  "hw_valid (sq_advance r) = hw_valid r" "tx_owner_cpu (sq_advance r) = tx_owner_cpu r"
  "tx_complete_cb (sq_advance r) = tx_complete_cb r" "drop_netbuf_cb (sq_advance r) = drop_netbuf_cb r"
  "cq_db (sq_advance r) = cq_db r" "sq_db (sq_advance r) = sq_db r"
  by (simp_all add: cq_advance_def sq_advance_def Let_def)

subsection \<open>Multisets of packet buffers\<close>

definition opt_mset :: "'a option \<Rightarrow> 'a multiset" where
  "opt_mset x = (case x of None \<Rightarrow> {#} | Some a \<Rightarrow> {#a#})"

lemma opt_mset_simps [simp]: "opt_mset None = {#}" "opt_mset (Some a) = {#a#}"
  by (simp_all add: opt_mset_def)

lemma sum_list_update_add:
  "i < length xs \<Longrightarrow> sum_list (xs[i := x]) + xs ! i = sum_list xs + (x :: 'a::comm_monoid_add)"
proof (induction xs arbitrary: i)
  case (Cons a xs)
  show ?case
  proof (cases i)
    case (Suc j)
    with Cons have "sum_list (xs[j := x]) + xs ! j = sum_list xs + x" by simp
    with Suc show ?thesis by (simp add: add.assoc)
  qed (simp add: ac_simps)
qed simp

end
