(* ===== verification/Ena_Ring_Props.thy ===== *)
theory Ena_Ring_Props
  imports Ena_Ring_Facts
begin

text \<open>
  The contract of a ring's memory and of its request-id pool: allocation is all or nothing
  and release returns every block; an id is handed out to one holder at a time, and freeing
  an id twice is the same as freeing it once.
\<close>

lemma ena_ring_alloc_einval:
  "fst (ena_ring_alloc mem q ty sqd cqd live) = - EINVAL \<longleftrightarrow>
    \<not> (ring_depth sqd \<and> ring_depth cqd \<and> (ty = ENA_RING_TYPE_TX \<or> ty = ENA_RING_TYPE_RX))"
  by (auto simp: ring_alloc_defs ena_is_power_of_two_iff Let_def EINVAL_def ENOMEM_def split: option.splits)

text \<open>C24: Ring allocation is all or nothing.  Arguments that are no ring depths or no direction
  are refused with \<^verbatim>\<open>-EINVAL\<close>; a failing allocator gives \<^verbatim>\<open>-ENOMEM\<close>; in
  both cases every block already taken is released again.  On success the ring is fresh, all
  its ids are free, and releasing it returns exactly the blocks it took.\<close>

theorem ring_alloc_all_or_nothing:
  "case ena_ring_alloc mem q ty sqd cqd live of (rc, res, live') \<Rightarrow>
     (rc = - EINVAL \<longleftrightarrow> \<not> (ring_depth sqd \<and> ring_depth cqd \<and> (ty = ENA_RING_TYPE_TX \<or> ty = ENA_RING_TYPE_RX))) \<and>
     (case res of
        None \<Rightarrow> (rc = - EINVAL \<or> rc = - ENOMEM) \<and> live' = live
      | Some r \<Rightarrow> rc = 0 \<and> fresh_ring r \<and> ring_type r = ty \<and> sq_depth r = sqd \<and> cq_depth r = cqd \<and>
          req_ids_ok r \<and> ena_ring_free r live' = live)"
proof -
  obtain rc res live' where a: "ena_ring_alloc mem q ty sqd cqd live = (rc, res, live')"
    using prod_cases3 by blast
  note rc = ena_ring_alloc_rc [OF a] and ein = ena_ring_alloc_einval [of mem q ty sqd cqd live, unfolded a fst_conv]
  show ?thesis
  proof (cases res)
    case None
    then have "rc \<noteq> 0" using rc by blast
    with ena_ring_alloc_fails_clean [OF a this] rc have "(rc = - EINVAL \<or> rc = - ENOMEM) \<and> live' = live" by blast
    then show ?thesis using a ein None by simp
  next
    case (Some r)
    then have "ena_ring_alloc mem q ty sqd cqd live = (0, Some r, live')" using a rc by auto
    note s = ena_ring_alloc_fresh [OF this] fresh_ring_ids_ok ena_ring_alloc_free [OF this]
    show ?thesis using a ein s Some rc by (simp add: EINVAL_def)
  qed
qed

lemma pop_id_allocated:
  assumes "req_ids_ok r" and "free_req_count r \<noteq> 0"
  defines "i \<equiv> free_req_ids r ! unat (free_req_head r)"
  shows "allocated_ids (req_id_pop r) = insert (unat i) (allocated_ids r)"
  using pop_id_free [OF assms(1,2)] pop_allocated [OF assms(1)] req_ids_okD(1) [OF assms(1)]
  by (auto simp: allocated_ids_def nth_list_update i_def frame_simps)

lemma push_id_allocated:
  assumes "req_ids_ok r" and "unat i < unat (sq_depth r)"
  shows "allocated_ids (req_id_push r i) = allocated_ids r - {unat i}"
  using assms push_allocated [OF assms(1)] req_ids_okD(1) [OF assms(1)]
  by (auto simp: allocated_ids_def nth_list_update frame_simps)


text \<open>Freeing a request id returns it to the pool; freeing it a second time changes nothing,
  so a duplicate completion cannot put one id into the pool twice; an id out of range is
  refused.\<close>

theorem req_id_free_idempotent:
  assumes "req_ids_ok r" and "ena_ring_req_id_free r i = (rc, r')"
  shows "req_ids_ok r' \<and>
    (if unat i < unat (sq_depth r)
     then rc = 0 \<and> allocated_ids r' = allocated_ids r - {unat i} \<and> ena_ring_req_id_free r' i = (0, r')
     else rc = - EINVAL \<and> r' = r)"
proof (cases "unat i < unat (sq_depth r)")
  case True
  note f = req_id_free_cases [OF assms(1) True] and ok = req_id_free_ok [OF assms(1), of i]
  have l: "unat i < length (req_allocated r)" using True req_ids_okD(1) [OF assms(1)] by simp
  have r: "rc = 0" "r' = (if req_allocated r ! unat i = 0 then r else req_id_push r i)"
    using f assms(2) by simp_all
  have "req_ids_ok r'" "sq_depth r' = sq_depth r" using ok assms(2) r by (auto simp: frame_simps)
  moreover have "req_allocated r' ! unat i = 0" using l push_allocated [OF assms(1)] r by simp
  moreover have "allocated_ids r' = allocated_ids r - {unat i}"
    using push_id_allocated [OF assms(1) True] r by (auto simp: allocated_ids_def)
  ultimately show ?thesis using True r req_id_free_cases [of r' i] by simp
next
  case False
  then show ?thesis using assms by (auto simp: ena_ring_req_id_free_def word_le_nat_alt)
qed

definition ex_ring :: ena_ring where
  "ex_ring = the (fst (snd (ena_ring_alloc (\<lambda>_. Some 0x1000) 0 ENA_RING_TYPE_TX 4 4 [])))"

lemma ex_ring_alloc: "ena_ring_alloc (\<lambda>_. Some 0x1000) 0 ENA_RING_TYPE_TX 4 4 [] =
    (0, Some ex_ring, [B_foreign, B_head_wb, B_allocated, B_in_flight, B_bufs, B_free_req_ids, B_cq, B_sq, B_ring])"
  by code_simp

lemma ex_ring_ids_ok: "req_ids_ok ex_ring"
  using ena_ring_alloc_fresh [OF ex_ring_alloc] fresh_ring_ids_ok by blast


theorem req_id_free_idempotent_witness:
  "\<exists>r. req_ids_ok ex_ring \<and> ena_ring_req_id_free ex_ring 2 = (0, r) \<and> ena_ring_req_id_free r 2 = (0, r)"
proof -
  obtain rc r where f: "ena_ring_req_id_free ex_ring 2 = (rc, r)" using prod.exhaust by blast
  have "unat (2 :: u16) < unat (sq_depth ex_ring)" by code_simp
  with req_id_free_idempotent [OF ex_ring_ids_ok f] f ex_ring_ids_ok show ?thesis by auto
qed

end
