(* ===== verification/Ena_Tx.thy ===== *)
theory Ena_Tx
  imports Ena_Ring
begin

text \<open>
  The transmit path of \<^verbatim>\<open>src/src/ena_tx.c\<close>.

  The calling core is an argument (\<^verbatim>\<open>ena_plat_cpu_id\<close>).  Releasing a packet buffer is an
  effect: the operations return the list of the buffers they hand to \<^verbatim>\<open>uk_netbuf_free\<close>, in
  order.  The completion queue is memory the device writes at any time: a poll takes one
  memory update per loop iteration, applied before the iteration reads its descriptor, and
  has no result when the updates run out before the loop ends.  Each field of a descriptor is
  read once per iteration, so arbitrary updates cover every interleaving of device writes with
  the reads.  The completion callback is a function on the state of its owner.
\<close>

record ena_tx_pkt =
  tp_netbuf :: "netbuf option"
  tp_phys_addr :: u64
  tp_len :: u32
  tp_l3_proto :: u8
  tp_l4_proto :: u8
  tp_l3_csum_en :: bool
  tp_l4_csum_en :: bool
  tp_df :: bool
  tp_tso_en :: bool

definition ena_tx_free_space :: "ena_ring \<Rightarrow> u16" where
  "ena_tx_free_space r = (if ring_type r \<noteq> ENA_RING_TYPE_TX then 0 else free_req_count r)"

subsection \<open>Submission\<close>

definition tx_len_ctrl :: "u32 \<Rightarrow> u16 \<Rightarrow> u8 \<Rightarrow> u32" where
  "tx_len_ctrl len req_id ph =
    (let lc = len AND ENA_ETH_IO_TX_DESC_LENGTH_MASK;
         lc = lc OR push_bit ENA_ETH_IO_TX_DESC_REQ_ID_HI_SHIFT (ucast (drop_bit 10 req_id) AND 0x3F);
         lc = (if ph \<noteq> 0 then lc OR ENA_ETH_IO_TX_DESC_PHASE_MASK else lc)
     in lc OR (ENA_ETH_IO_TX_DESC_FIRST_MASK OR ENA_ETH_IO_TX_DESC_LAST_MASK OR
          ENA_ETH_IO_TX_DESC_COMP_REQ_MASK))"

definition tx_meta_ctrl :: "u16 \<Rightarrow> ena_tx_pkt \<Rightarrow> u32" where
  "tx_meta_ctrl req_id pkt =
    (let mc = push_bit ENA_ETH_IO_TX_DESC_REQ_ID_LO_SHIFT (ucast req_id AND 0x03FF);
         mc = mc OR (ucast (tp_l3_proto pkt) AND ENA_ETH_IO_TX_DESC_L3_PROTO_IDX_MASK);
         mc = mc OR push_bit ENA_ETH_IO_TX_DESC_L4_PROTO_IDX_SHIFT (ucast (tp_l4_proto pkt) AND 0x1F);
         mc = (if tp_l3_csum_en pkt then mc OR ENA_ETH_IO_TX_DESC_L3_CSUM_EN_MASK else mc);
         mc = (if tp_l4_csum_en pkt then mc OR ENA_ETH_IO_TX_DESC_L4_CSUM_EN_MASK else mc);
         mc = (if tp_df pkt then mc OR ENA_ETH_IO_TX_DESC_DF_MASK else mc)
     in if tp_tso_en pkt then mc OR ENA_ETH_IO_TX_DESC_TSO_EN_MASK else mc)"

definition tx_desc_of_pkt :: "u16 \<Rightarrow> u8 \<Rightarrow> ena_tx_pkt \<Rightarrow> ena_eth_io_tx_desc" where
  "tx_desc_of_pkt req_id ph pkt =
    \<lparr> len_ctrl = tx_len_ctrl (tp_len pkt) req_id ph,
      meta_ctrl = tx_meta_ctrl req_id pkt,
      txd_buff_addr_lo = ucast (tp_phys_addr pkt),
      buff_addr_hi_hdr_sz = ucast (drop_bit 32 (tp_phys_addr pkt) AND 0xFFFF) \<rparr>"

definition tx_buffer_of_pkt :: "u16 \<Rightarrow> ena_tx_pkt \<Rightarrow> ena_tx_buffer" where
  "tx_buffer_of_pkt req_id pkt = \<lparr> tb_netbuf = tp_netbuf pkt, tb_phys_addr = tp_phys_addr pkt,
     tb_data_len = tp_len pkt, tb_num_descs = 1, tb_req_id = req_id \<rparr>"

definition ena_tx_submit :: "u32 \<Rightarrow> ena_ring \<Rightarrow> ena_tx_pkt \<Rightarrow> int \<times> u16 option \<times> ena_ring" where
  "ena_tx_submit cpu r pkt =
    (if ring_type r \<noteq> ENA_RING_TYPE_TX then (- EINVAL, None, r)
     else if \<not> hw_valid r then (- ENODEV, None, r)
     else if tp_len pkt = 0 \<or> 0xFFFF < tp_len pkt then (- EINVAL, None, r)
     else if free_req_count r = 0 then (- EBUSY, None, r)
     else case ena_ring_req_id_alloc r of (ret, req_id, r) \<Rightarrow>
       if ret \<noteq> 0 then (ret, None, r)
       else
         let r = (if req_in_flight r \<noteq> []
                  then r\<lparr> req_in_flight := (req_in_flight r)[unat req_id := 1] \<rparr> else r);
             r = r\<lparr> tx_bufs := (tx_bufs r)[unat req_id := tx_buffer_of_pkt req_id pkt] \<rparr>;
             r = r\<lparr> tx_sq := (tx_sq r)[unat (sq_tail r AND (sq_depth r - 1)) :=
                   tx_desc_of_pkt req_id (sq_phase r) pkt] \<rparr>;
             r = sq_advance r;
             r = r\<lparr> tx_packets := tx_packets r + 1, tx_bytes := tx_bytes r + ucast (tp_len pkt),
                    tx_owner_cpu := cpu \<rparr>
         in (0, Some req_id, r))"

text \<open>The doorbell: the register write, if any, as a pair of BAR 0 offset and value.\<close>

definition ena_tx_doorbell :: "ena_ring \<Rightarrow> (u32 \<times> u32) list" where
  "ena_tx_doorbell r =
    (if \<not> hw_valid r then []
     else case sq_db r of None \<Rightarrow> [] | Some db \<Rightarrow> [(db, ucast (sq_tail r))])"

subsection \<open>Deferred releases\<close>

definition ena_tx_report_foreign_reaper :: "ena_ring \<Rightarrow> u32 \<Rightarrow> ena_ring" where
  "ena_tx_report_foreign_reaper r cpu =
    (if tx_owner_cpu r = ENA_CPU_ID_NONE then r
     else if tx_owner_warned r then r
     else r\<lparr> tx_owner_warned := True \<rparr>)"

definition ena_tx_stage_foreign_free :: "ena_ring \<Rightarrow> u16 \<Rightarrow> u32 \<Rightarrow> bool \<times> ena_ring" where
  "ena_tx_stage_foreign_free r req_id owner_cpu =
    (if tx_bufs r = [] \<or> tx_foreign r = [] then (False, r)
     else if tb_netbuf (tx_bufs r ! unat req_id) = None then (False, r)
     else if sq_depth r \<le> tx_foreign_count r then
       (False, r\<lparr> tx_bufs := (tx_bufs r)[unat req_id :=
          (tx_bufs r ! unat req_id)\<lparr> tb_netbuf := None \<rparr>] \<rparr>)
     else
       (True, r\<lparr> tx_foreign := (tx_foreign r)[unat (tx_foreign_count r) :=
                   \<lparr> ff_req_id = req_id, ff_owner_cpu = owner_cpu \<rparr>],
                 tx_foreign_count := tx_foreign_count r + 1 \<rparr>))"

text \<open>
  Releasing the buffer of a slot and returning its request id: the common tail of the drain
  loop and of the completion loop.
\<close>

definition tx_release :: "ena_ring \<Rightarrow> u16 \<Rightarrow> ena_ring \<times> netbuf list" where
  "tx_release r req_id =
    (let freed = (if tx_bufs r = [] then [] else
                    case tb_netbuf (tx_bufs r ! unat req_id) of None \<Rightarrow> [] | Some nb \<Rightarrow> [nb]);
         r = r\<lparr> tx_bufs := (tx_bufs r)[unat req_id :=
                  (tx_bufs r ! unat req_id)\<lparr> tb_netbuf := None \<rparr>] \<rparr>
     in (snd (ena_ring_req_id_free r req_id), freed))"

definition drain_one :: "ena_ring \<Rightarrow> u16 \<Rightarrow> ena_ring \<times> netbuf list" where
  "drain_one r i =
    (case tx_release r (ff_req_id (tx_foreign r ! unat i)) of (r, freed) \<Rightarrow>
       let n = tx_foreign_count r - 1 in
       (r\<lparr> tx_foreign_count := n, tx_foreign := (tx_foreign r)[unat i := tx_foreign r ! unat n] \<rparr>,
        freed))"

lemma drain_one_count: "tx_foreign_count (fst (drain_one r i)) = tx_foreign_count r - 1"
  by (simp add: drain_one_def tx_release_def ena_ring_req_id_free_def req_id_push_def
      ena_ring_slot_clear_def Let_def)

function drain_loop :: "u32 \<Rightarrow> ena_ring \<Rightarrow> u16 \<Rightarrow> ena_ring \<times> netbuf list" where
  "drain_loop cpu r i =
    (if i < tx_foreign_count r then
       (if ff_owner_cpu (tx_foreign r ! unat i) \<noteq> cpu then drain_loop cpu r (i + 1)
        else
          let s = drain_one r i;
              t = drain_loop cpu (fst s) i
          in (fst t, snd s @ snd t))
     else (r, []))"
  by pat_completeness auto

termination
proof (relation "measure (\<lambda>(cpu, r, i). unat (tx_foreign_count r) - unat i)")
  fix cpu r and i :: u16
  assume "i < tx_foreign_count r"
  then have "unat (i + 1) = unat i + 1"
    by (intro unat_succ_less [of _ "tx_foreign_count r"]) (simp add: word_less_nat_alt)
  with \<open>i < tx_foreign_count r\<close>
  show "((cpu, r, i + 1), cpu, r, i) \<in> measure (\<lambda>(cpu, r, i). unat (tx_foreign_count r) - unat i)"
    by (simp add: word_less_nat_alt)
next
  fix cpu r and i :: u16 and s :: "ena_ring \<times> netbuf list"
  assume a: "i < tx_foreign_count r" and s: "s = drain_one r i"
  then have "unat (tx_foreign_count r - 1) = unat (tx_foreign_count r) - 1"
    by (intro unat_pred_u16) auto
  with a s
  show "((cpu, fst s, i), cpu, r, i) \<in> measure (\<lambda>(cpu, r, i). unat (tx_foreign_count r) - unat i)"
    by (simp add: word_less_nat_alt drain_one_count)
qed simp

definition ena_tx_drain_foreign_frees :: "ena_ring \<Rightarrow> u32 \<Rightarrow> ena_ring \<times> netbuf list" where
  "ena_tx_drain_foreign_frees r cpu =
    (if tx_foreign r = [] \<or> tx_foreign_count r = 0 then (r, []) else drain_loop cpu r 0)"

subsection \<open>Completion polling\<close>

definition tx_complete_one ::
  "u32 \<Rightarrow> ('q \<Rightarrow> u16 \<Rightarrow> 'q) \<Rightarrow> ena_eth_io_tx_cdesc \<Rightarrow> ena_ring \<Rightarrow> 'q \<Rightarrow> ena_ring \<times> 'q \<times> netbuf list" where
  "tx_complete_one cpu cb c r q =
    (let req_id = txc_req_id c;
         r = r\<lparr> req_in_flight := (req_in_flight r)[unat req_id := 0] \<rparr>;
         q = (if tx_complete_cb r then cb q req_id else q);
         r = r\<lparr> sq_head := sq_head_idx c AND (sq_depth r - 1) \<rparr>
     in if cpu \<noteq> tx_owner_cpu r then
          (case ena_tx_stage_foreign_free (ena_tx_report_foreign_reaper r cpu) req_id (tx_owner_cpu r) of
             (staged, r) \<Rightarrow>
               if staged then (cq_advance r, q, [])
               else (case tx_release r req_id of (r, freed) \<Rightarrow> (cq_advance r, q, freed)))
        else (case tx_release r req_id of (r, freed) \<Rightarrow> (cq_advance r, q, freed)))"

type_synonym tx_cq_write = "ena_eth_io_tx_cdesc list \<Rightarrow> ena_eth_io_tx_cdesc list"

fun tx_poll_loop ::
  "tx_cq_write list \<Rightarrow> u32 \<Rightarrow> ('q \<Rightarrow> u16 \<Rightarrow> 'q) \<Rightarrow> u32 \<Rightarrow> u32 \<Rightarrow> ena_ring \<Rightarrow> 'q \<Rightarrow>
   (u32 \<times> ena_ring \<times> 'q \<times> netbuf list) option" where
  "tx_poll_loop [] cpu cb budget cleaned r q = None"
| "tx_poll_loop (dev # devs) cpu cb budget cleaned r q =
    (if cleaned < budget then
       let r = r\<lparr> tx_cq := dev (tx_cq r) \<rparr>;
           c = tx_cq r ! unat (cq_head r AND (cq_depth r - 1))
       in if txc_flags c AND ENA_ETH_IO_TX_CDESC_PHASE_MASK \<noteq> cq_phase r then
            Some (cleaned, r, q, [])
          else if sq_depth r \<le> txc_req_id c then Some (cleaned, r, q, [])
          else if req_in_flight r = [] \<or> req_in_flight r ! unat (txc_req_id c) = 0 then
            tx_poll_loop devs cpu cb budget cleaned (cq_advance r) q
          else
            (case tx_complete_one cpu cb c r q of (r, q, freed) \<Rightarrow>
               map_option (\<lambda>(n, r, q, freed'). (n, r, q, freed @ freed'))
                 (tx_poll_loop devs cpu cb budget (cleaned + 1) r q))
     else Some (cleaned, r, q, []))"

definition ena_tx_poll_completions ::
  "tx_cq_write list \<Rightarrow> u32 \<Rightarrow> ('q \<Rightarrow> u16 \<Rightarrow> 'q) \<Rightarrow> u32 \<Rightarrow> ena_ring \<Rightarrow> 'q \<Rightarrow>
   (int \<times> u32 option \<times> ena_ring \<times> 'q \<times> netbuf list) option" where
  "ena_tx_poll_completions devs cpu cb budget r q =
    (if ring_type r \<noteq> ENA_RING_TYPE_TX \<or> tx_cq r = [] then Some (- EINVAL, None, r, q, [])
     else if \<not> hw_valid r then Some (0, None, r, q, [])
     else if sq_depth r \<le> free_req_count r then Some (0, Some 0, r, q, [])
     else
       let budget = (if budget = 0 then ucast (cq_depth r) else budget)
       in case ena_tx_drain_foreign_frees r cpu of (r, freed) \<Rightarrow>
         map_option (\<lambda>(cleaned, r, q, freed'). (sint cleaned, Some cleaned, r, q, freed @ freed'))
           (tx_poll_loop devs cpu cb budget 0 r q))"

end
