(* ===== verification/Ena_Rx.thy ===== *)
theory Ena_Rx
  imports Ena_Ring
begin

text \<open>
  The receive path of \<^verbatim>\<open>src/src/ena_rx.c\<close> and the receive queue of \<^verbatim>\<open>src/include/ena_netdev.h\<close> it
  reaches through its callback argument.

  As on the transmit side, a poll takes one update of the completion queue memory per loop
  iteration, and a released packet buffer is an effect in the result.  The buffer allocator
  the refill loop calls is an argument: it works on the queue and on a state of its own, and
  may decline.  The drop callback and its argument are installed together, so one flag of the
  ring stands for both; the callback releases the buffer, as does the code when it is absent.
  The periodic statistics print of \<^verbatim>\<open>CONFIG_LIBENA_VERBOSE_STATS\<close> is not modelled.
\<close>

record uk_netdev_rx_queue =
  rq_queue_id :: u16
  rq_bounce_buf :: bool
  rq_bounce_phys :: u64
  rq_nb_desc :: u16
  rq_free_head :: u16
  rq_free_tail :: u16
  rq_free_count :: u16
  rq_free_ids :: "u16 list"
  rq_bounce_map :: "int list"
  rq_pending_slot :: int
  rq_chain :: "netbuf list"

record ena_rx_pkt =
  pk_netbuf :: "netbuf option"
  pk_len :: u32
  pk_offset :: u8
  pk_hash :: u32
  pk_l3_csum_err :: bool
  pk_l4_csum_err :: bool
  pk_l4_csum_checked :: bool
  pk_frag :: bool
  pk_first :: bool
  pk_last :: bool
  pk_req_id :: u16

definition ena_rx_free_space :: "ena_ring \<Rightarrow> u16" where
  "ena_rx_free_space r = (if ring_type r \<noteq> ENA_RING_TYPE_RX then 0 else free_req_count r)"

subsection \<open>Posting a buffer\<close>

definition rx_desc_of_buf :: "u16 \<Rightarrow> u8 \<Rightarrow> u64 \<Rightarrow> u32 \<Rightarrow> ena_eth_io_rx_desc" where
  "rx_desc_of_buf req_id ph phys_addr buf_len = rx_desc_zero
    \<lparr> rxd_length := ucast buf_len,
      rxd_ctrl := (ph AND ENA_ETH_IO_RX_DESC_PHASE_MASK) OR
        (ENA_ETH_IO_RX_DESC_FIRST_MASK OR ENA_ETH_IO_RX_DESC_LAST_MASK OR
         ENA_ETH_IO_RX_DESC_COMP_REQ_MASK),
      rxd_req_id := req_id,
      rxd_buff_addr_lo := ucast phys_addr,
      rxd_buff_addr_hi := ucast (drop_bit 32 phys_addr) \<rparr>"

definition ena_rx_submit_one ::
  "ena_ring \<Rightarrow> netbuf option \<Rightarrow> u64 \<Rightarrow> u32 \<Rightarrow> int \<times> u16 option \<times> ena_ring" where
  "ena_rx_submit_one r nb phys_addr buf_len =
    (if nb = None \<or> ring_type r \<noteq> ENA_RING_TYPE_RX then (- EINVAL, None, r)
     else if \<not> hw_valid r then (- ENODEV, None, r)
     else if buf_len = 0 \<or> 0xFFFF < buf_len then (- EINVAL, None, r)
     else if free_req_count r = 0 then (- EBUSY, None, r)
     else case ena_ring_req_id_alloc r of (ret, req_id, r) \<Rightarrow>
       if ret \<noteq> 0 then (ret, None, r)
       else
         let r = (if req_in_flight r \<noteq> []
                  then r\<lparr> req_in_flight := (req_in_flight r)[unat req_id := 1] \<rparr> else r);
             r = r\<lparr> rx_bufs := (rx_bufs r)[unat req_id :=
                   \<lparr> rb_netbuf = nb, rb_phys_addr = phys_addr, rb_data_len = buf_len,
                     rb_req_id = req_id \<rparr>] \<rparr>;
             r = r\<lparr> rx_sq := (rx_sq r)[unat (sq_tail r AND (sq_depth r - 1)) :=
                   rx_desc_of_buf req_id (sq_phase r) phys_addr buf_len] \<rparr>
         in (0, Some req_id, sq_advance r))"

definition ena_rx_doorbell :: "ena_ring \<Rightarrow> (u32 \<times> u32) list" where
  "ena_rx_doorbell r =
    (if \<not> hw_valid r then []
     else case sq_db r of None \<Rightarrow> [] | Some db \<Rightarrow> [(db, ucast (sq_tail r))])"

subsection \<open>The bounce slots of a receive queue\<close>

definition rq_pop :: "uk_netdev_rx_queue \<Rightarrow> uk_netdev_rx_queue" where
  "rq_pop q = q\<lparr> rq_free_head := (rq_free_head q + 1) AND (rq_nb_desc q - 1),
     rq_free_count := rq_free_count q - 1 \<rparr>"

definition rq_push :: "uk_netdev_rx_queue \<Rightarrow> u16 \<Rightarrow> uk_netdev_rx_queue" where
  "rq_push q slot = q\<lparr> rq_free_ids := (rq_free_ids q)[unat (rq_free_tail q) := slot],
     rq_free_tail := (rq_free_tail q + 1) AND (rq_nb_desc q - 1),
     rq_free_count := rq_free_count q + 1 \<rparr>"

interpretation rqp: fifo_pool rq_nb_desc rq_free_ids rq_free_head rq_free_tail rq_free_count
  rq_pop rq_push
  by unfold_locales (simp_all add: rq_pop_def rq_push_def)

text \<open>After a failed submit the slot the allocator took for the buffer goes back to the pool.\<close>

definition rq_return_pending :: "uk_netdev_rx_queue \<Rightarrow> uk_netdev_rx_queue" where
  "rq_return_pending q =
    (let q = (if 0 \<le> rq_pending_slot q \<and> rq_free_ids q \<noteq> [] \<and> 0 < rq_nb_desc q
              then rq_push q (word_of_int (rq_pending_slot q)) else q)
     in q\<lparr> rq_pending_slot := - 1 \<rparr>)"

text \<open>After a successful submit the slot is recorded under the request id.\<close>

definition rq_bind_pending :: "uk_netdev_rx_queue \<Rightarrow> u16 \<Rightarrow> uk_netdev_rx_queue" where
  "rq_bind_pending q req_id =
    (if rq_bounce_map q \<noteq> [] \<and> req_id < rq_nb_desc q
     then q\<lparr> rq_bounce_map := (rq_bounce_map q)[unat req_id := rq_pending_slot q],
             rq_pending_slot := - 1 \<rparr>
     else q)"

text \<open>The slot of a dropped request goes back to the pool.\<close>

definition rq_reclaim :: "uk_netdev_rx_queue \<Rightarrow> u16 \<Rightarrow> uk_netdev_rx_queue" where
  "rq_reclaim q req_id =
    (if rq_bounce_map q \<noteq> [] \<and> req_id < rq_nb_desc q \<and> 0 \<le> rq_bounce_map q ! unat req_id then
       let slot = word_of_int (rq_bounce_map q ! unat req_id);
           q = q\<lparr> rq_bounce_map := (rq_bounce_map q)[unat req_id := - 1] \<rparr>
       in if rq_free_ids q \<noteq> [] \<and> 0 < rq_nb_desc q then rq_push q slot else q
     else q)"

subsection \<open>Refill\<close>

type_synonym 'a rx_alloc = "'a \<Rightarrow> uk_netdev_rx_queue \<Rightarrow>
  (netbuf \<times> u64 \<times> u32) option \<times> uk_netdev_rx_queue \<times> 'a \<times> netbuf list"

lemma rx_submit_count:
  "ena_rx_submit_one r nb pa len = (0, o_id, r') \<Longrightarrow> unat (free_req_count r') < unat (free_req_count r)"
  by (auto simp: ena_rx_submit_one_def ena_ring_req_id_alloc_def req_id_pop_def sq_advance_def Let_def
      EINVAL_def ENODEV_def EBUSY_def unat_pred_u16 unat_gt_0 split: if_splits)

function rx_refill_loop ::
  "'a rx_alloc \<Rightarrow> u32 \<Rightarrow> u32 \<Rightarrow> ena_ring \<Rightarrow> uk_netdev_rx_queue \<Rightarrow> 'a \<Rightarrow>
   u32 \<times> ena_ring \<times> uk_netdev_rx_queue \<times> 'a \<times> netbuf list" where
  "rx_refill_loop alloc cnt refilled r q a =
    (if refilled < cnt \<and> 0 < free_req_count r then
       (case alloc a q of (res, q, a, freed) \<Rightarrow>
         (case res of
            None \<Rightarrow> (refilled, r, q, a, freed)
          | Some (nb, phys, len) \<Rightarrow>
              (case ena_rx_submit_one r (Some nb) phys len of (ret, o_id, r') \<Rightarrow>
                 if ret \<noteq> 0 then (refilled, r', rq_return_pending q, a, freed @ [nb])
                 else
                   let q = rq_bind_pending q (the o_id);
                       t = rx_refill_loop alloc cnt (refilled + 1) r' q a
                   in (fst t, fst (snd t), fst (snd (snd t)), fst (snd (snd (snd t))),
                       freed @ snd (snd (snd (snd t)))))))
     else (refilled, r, q, a, []))"
  by pat_completeness auto

termination
  by (relation "measure (\<lambda>(alloc, cnt, refilled, r, q, a). unat (free_req_count r))")
    (auto dest!: rx_submit_count [OF sym])

definition ena_rx_refill ::
  "'a rx_alloc \<Rightarrow> u32 \<Rightarrow> ena_ring \<Rightarrow> uk_netdev_rx_queue \<Rightarrow> 'a \<Rightarrow>
   int \<times> ena_ring \<times> uk_netdev_rx_queue \<times> 'a \<times> netbuf list \<times> (u32 \<times> u32) list" where
  "ena_rx_refill alloc cnt r q a =
    (if ring_type r \<noteq> ENA_RING_TYPE_RX then (- EINVAL, r, q, a, [], [])
     else
       let cnt = (if cnt = 0 then ucast (free_req_count r) else cnt)
       in case rx_refill_loop alloc cnt 0 r q a of (refilled, r, q, a, freed) \<Rightarrow>
         (sint refilled, r, q, a, freed, ena_rx_doorbell r))"

subsection \<open>Polling for packets\<close>

definition rx_cdesc_phase :: "ena_eth_io_rx_cdesc_base \<Rightarrow> u8" where
  "rx_cdesc_phase c = ucast (drop_bit ENA_ETH_IO_RX_CDESC_BASE_PHASE_SHIFT
     (rxc_status c AND ENA_ETH_IO_RX_CDESC_BASE_PHASE_MASK))"

definition rx_pkt_of :: "ena_eth_io_rx_cdesc_base \<Rightarrow> ena_rx_buffer \<Rightarrow> ena_rx_pkt" where
  "rx_pkt_of c b =
    \<lparr> pk_netbuf = rb_netbuf b, pk_len = ucast (rxc_length c), pk_offset = rxc_offset c,
      pk_hash = rxc_hash c,
      pk_l3_csum_err = (rxc_status c AND ENA_ETH_IO_RX_CDESC_BASE_L3_CSUM_ERR_MASK \<noteq> 0),
      pk_l4_csum_err = (rxc_status c AND ENA_ETH_IO_RX_CDESC_BASE_L4_CSUM_ERR_MASK \<noteq> 0),
      pk_l4_csum_checked = (rxc_status c AND ENA_ETH_IO_RX_CDESC_BASE_L4_CSUM_CHECKED_MASK \<noteq> 0),
      pk_frag = (rxc_status c AND ENA_ETH_IO_RX_CDESC_BASE_IPV4_FRAG_MASK \<noteq> 0),
      pk_first = (rxc_status c AND ENA_ETH_IO_RX_CDESC_BASE_FIRST_MASK \<noteq> 0),
      pk_last = (rxc_status c AND ENA_ETH_IO_RX_CDESC_BASE_LAST_MASK \<noteq> 0),
      pk_req_id = rxc_req_id c \<rparr>"

text \<open>A completion longer than the posted buffer is dropped.\<close>

definition rx_drop_one ::
  "ena_eth_io_rx_cdesc_base \<Rightarrow> ena_ring \<Rightarrow> uk_netdev_rx_queue \<Rightarrow>
   ena_ring \<times> uk_netdev_rx_queue \<times> netbuf list" where
  "rx_drop_one c r q =
    (let req_id = rxc_req_id c;
         b = rx_bufs r ! unat req_id;
         r = r\<lparr> rx_dropped := rx_dropped r + 1 \<rparr>;
         q = (if drop_netbuf_cb r then rq_reclaim q req_id else q);
         freed = (case rb_netbuf b of None \<Rightarrow> [] | Some nb \<Rightarrow> [nb]);
         r = r\<lparr> rx_bufs := (rx_bufs r)[unat req_id := b\<lparr> rb_netbuf := None \<rparr>] \<rparr>
     in (cq_advance (snd (ena_ring_req_id_free r req_id)), q, freed))"

definition rx_deliver_one :: "ena_eth_io_rx_cdesc_base \<Rightarrow> ena_ring \<Rightarrow> ena_rx_pkt \<times> ena_ring" where
  "rx_deliver_one c r =
    (let req_id = rxc_req_id c;
         pkt = rx_pkt_of c (rx_bufs r ! unat req_id);
         r = r\<lparr> req_in_flight := (req_in_flight r)[unat req_id := 0],
                rx_packets := rx_packets r + 1, rx_bytes := rx_bytes r + ucast (pk_len pkt) \<rparr>
     in (pkt, cq_advance (snd (ena_ring_req_id_free r req_id))))"

type_synonym rx_cq_write = "ena_eth_io_rx_cdesc_base list \<Rightarrow> ena_eth_io_rx_cdesc_base list"

record rx_poll_state =
  rs_ring :: ena_ring
  rs_queue :: uk_netdev_rx_queue
  rs_pkts :: "ena_rx_pkt list"
  rs_dropped :: u32
  rs_freed :: "netbuf list"

fun rx_poll_loop :: "rx_cq_write list \<Rightarrow> nat \<Rightarrow> rx_poll_state \<Rightarrow> rx_poll_state option" where
  "rx_poll_loop [] max_pkts s = None"
| "rx_poll_loop (dev # devs) max_pkts s =
    (if length (rs_pkts s) < max_pkts then
       let r = (rs_ring s)\<lparr> rx_cq := dev (rx_cq (rs_ring s)) \<rparr>;
           c = rx_cq r ! unat (cq_head r AND (cq_depth r - 1));
           s = s\<lparr> rs_ring := r \<rparr>
       in if rx_cdesc_phase c \<noteq> cq_phase r then Some s
          else if sq_depth r \<le> rxc_req_id c then Some s
          else if req_in_flight r = [] \<or> req_in_flight r ! unat (rxc_req_id c) = 0 then
            rx_poll_loop devs max_pkts (s\<lparr> rs_ring := cq_advance r \<rparr>)
          else if rb_data_len (rx_bufs r ! unat (rxc_req_id c)) < ucast (rxc_length c) then
            (case rx_drop_one c r (rs_queue s) of (r, q, freed) \<Rightarrow>
               rx_poll_loop devs max_pkts (s\<lparr> rs_ring := r, rs_queue := q,
                 rs_dropped := rs_dropped s + 1, rs_freed := rs_freed s @ freed \<rparr>))
          else
            (case rx_deliver_one c r of (pkt, r) \<Rightarrow>
               rx_poll_loop devs max_pkts (s\<lparr> rs_ring := r, rs_pkts := rs_pkts s @ [pkt] \<rparr>))
     else Some s)"

definition ena_rx_poll ::
  "rx_cq_write list \<Rightarrow> nat \<Rightarrow> ena_ring \<Rightarrow> uk_netdev_rx_queue \<Rightarrow>
   (int \<times> rx_poll_state \<times> (u32 \<times> u32) list) option" where
  "ena_rx_poll devs max_pkts r q =
    (let s = \<lparr> rs_ring = r, rs_queue = q, rs_pkts = [], rs_dropped = 0, rs_freed = [] \<rparr> in
     if ring_type r \<noteq> ENA_RING_TYPE_RX \<or> rx_cq r = [] \<or> max_pkts = 0 then Some (- EINVAL, s, [])
     else if \<not> hw_valid r then Some (0, s, [])
     else map_option (\<lambda>s. (int (length (rs_pkts s)), s,
            if rs_pkts s \<noteq> [] then
              (case cq_db (rs_ring s) of None \<Rightarrow> [] | Some db \<Rightarrow> [(db, ucast (cq_head (rs_ring s)))])
            else [])) (rx_poll_loop devs max_pkts s))"

end
