(* ===== verification/Ena_Adapter.thy ===== *)
theory Ena_Adapter
  imports Ena_Tx Ena_Rx
begin

text \<open>
  The adapter context of \<^verbatim>\<open>src/include/ena.h\<close>, the admin descriptors of
  \<^verbatim>\<open>src/include/ena_admin.h\<close>, the state of a bound device, and the platform it runs on.

  The platform is everything outside the driver: the registers behind BAR 0, the memory the
  device writes (admin completions, events, the indirection table), the DMA, heap and packet
  buffer allocators.  It is a record of functions over a state of its own, and the driver
  functions take it as an argument, so their theorems hold for every device and allocator.
  Device writes to a queue happen between the driver's reads of it.

  The admin submission queue is the byte memory the device reads; a completion and an event
  entry are records of their fields.  A null base pointer is an empty list or \<open>None\<close>.
\<close>

datatype ena_state = ENA_STATE_UNINITIALIZED | ENA_STATE_PCI_PROBED | ENA_STATE_ADMIN_READY
  | ENA_STATE_CONFIGURED | ENA_STATE_RUNNING | ENA_STATE_STOPPED | ENA_STATE_ERROR

record ena_admin_acq_entry =
  acq_command :: u16
  acq_status :: u8
  acq_flags :: u8
  acq_extended_status :: u16
  acq_sq_head_indx :: u16
  response_specific_data :: "u8 list"

record ena_admin_aenq_entry =
  aenq_group :: u16
  aenq_syndrome :: u16
  aenq_flags :: u8
  aenq_inline_data_w4 :: "u32 list"

record ena_llq_info =
  llq_supported :: bool
  llq_enabled :: bool
  max_llq_num :: u32
  max_llq_depth :: u32
  llq_info_header_len :: u16
  llq_info_entry_size :: u16

record ena_rss_info =
  rss_supported :: bool
  rss_enabled :: bool
  ind_table_size :: u16
  host_ind_table :: "u16 list"
  ind_table :: "u16 list"
  ind_table_phys :: u64
  hash_key :: "u8 list"
  hash_key_phys :: u64
  hash_ctrl :: "u16 list"
  hash_ctrl_phys :: u64

record ena_irq_vector =
  vector_id :: u32
  queue_id :: u16
  is_admin :: bool
  iv_masked :: bool
  moderation_interval_usec :: u32
  intr_count :: u32

record ena_adapter =
  bar0_base :: bool
  bar0_size :: nat
  bar2_base :: bool
  bar2_size :: nat
  ad_state :: ena_state
  aen_keepalives :: u32
  aen_rx_drops :: u64
  aen_tx_drops :: u64
  aenq_enabled_groups :: u32
  ad_version :: u32
  controller_version :: u32
  ad_caps :: u32
  mac_addr :: "u8 list"
  max_mtu :: u16
  max_tx_queues :: u16
  max_rx_queues :: u16
  max_tx_ring_size :: u16
  max_rx_ring_size :: u16
  aq_mem :: "u8 list"
  aq_phys :: u64
  aq_depth :: u16
  aq_tail :: u16
  aq_phase :: u8
  next_command_id :: u16
  recover_active :: bool
  acq_mem :: "ena_admin_acq_entry list"
  acq_phys :: u64
  acq_depth :: u16
  acq_head :: u16
  acq_phase :: u8
  aenq_mem :: "ena_admin_aenq_entry list"
  aenq_phys :: u64
  aenq_depth :: u16
  aenq_head :: u16
  aenq_phase :: u8
  aenq_handler :: bool
  link_up :: bool
  impl_id :: u32
  device_version :: u32
  supported_features :: u32
  attr_caps :: u32
  phys_addr_width :: u32
  virt_addr_width :: u32
  max_header_size :: u32
  max_packet_tx_descs :: u16
  max_packet_rx_descs :: u16
  ad_mtu :: u32
  host_info_base :: "u8 list"
  host_info_phys :: u64
  tx_rings :: "ena_ring option list"
  rx_rings :: "ena_ring option list"
  num_tx_rings :: u16
  num_rx_rings :: u16
  irq_vectors :: "ena_irq_vector list"
  num_irq_vectors :: u32
  llq_info :: ena_llq_info
  rss_info :: ena_rss_info

definition acq_entry_zero :: ena_admin_acq_entry where
  "acq_entry_zero = \<lparr> acq_command = 0, acq_status = 0, acq_flags = 0, acq_extended_status = 0,
     acq_sq_head_indx = 0, response_specific_data = replicate 56 0 \<rparr>"

definition aenq_entry_zero :: ena_admin_aenq_entry where
  "aenq_entry_zero = \<lparr> aenq_group = 0, aenq_syndrome = 0, aenq_flags = 0,
     aenq_inline_data_w4 = replicate 12 0 \<rparr>"

definition llq_info_zero :: ena_llq_info where
  "llq_info_zero = \<lparr> llq_supported = False, llq_enabled = False, max_llq_num = 0,
     max_llq_depth = 0, llq_info_header_len = 0, llq_info_entry_size = 0 \<rparr>"

definition rss_info_zero :: ena_rss_info where
  "rss_info_zero = \<lparr> rss_supported = False, rss_enabled = False, ind_table_size = 0,
     host_ind_table = [], ind_table = [], ind_table_phys = 0, hash_key = [], hash_key_phys = 0,
     hash_ctrl = [], hash_ctrl_phys = 0 \<rparr>"

text \<open>The adapter as \<^verbatim>\<open>memset\<close> leaves it.\<close>

definition adapter_zero :: ena_adapter where
  "adapter_zero = \<lparr> bar0_base = False, bar0_size = 0, bar2_base = False, bar2_size = 0,
     ad_state = ENA_STATE_UNINITIALIZED, aen_keepalives = 0, aen_rx_drops = 0, aen_tx_drops = 0,
     aenq_enabled_groups = 0, ad_version = 0, controller_version = 0, ad_caps = 0,
     mac_addr = replicate 6 0, max_mtu = 0, max_tx_queues = 0, max_rx_queues = 0,
     max_tx_ring_size = 0, max_rx_ring_size = 0, aq_mem = [], aq_phys = 0, aq_depth = 0,
     aq_tail = 0, aq_phase = 0, next_command_id = 0, recover_active = False, acq_mem = [],
     acq_phys = 0, acq_depth = 0, acq_head = 0, acq_phase = 0, aenq_mem = [], aenq_phys = 0,
     aenq_depth = 0, aenq_head = 0, aenq_phase = 0, aenq_handler = False, link_up = False,
     impl_id = 0, device_version = 0, supported_features = 0, attr_caps = 0,
     phys_addr_width = 0, virt_addr_width = 0, max_header_size = 0, max_packet_tx_descs = 0,
     max_packet_rx_descs = 0, ad_mtu = 0, host_info_base = [], host_info_phys = 0,
     tx_rings = [], rx_rings = [], num_tx_rings = 0, num_rx_rings = 0, irq_vectors = [],
     num_irq_vectors = 0, llq_info = llq_info_zero, rss_info = rss_info_zero \<rparr>"

subsection \<open>Platform and system state\<close>

record 'd platform =
  p_read32 :: "u32 \<Rightarrow> 'd \<Rightarrow> u32 \<times> 'd"
  p_write32 :: "u32 \<Rightarrow> u32 \<Rightarrow> 'd \<Rightarrow> 'd"
  p_acq_dma :: "u8 list \<Rightarrow> ena_admin_acq_entry list \<Rightarrow> 'd \<Rightarrow> ena_admin_acq_entry list \<times> 'd"
  p_aenq_dma :: "ena_admin_aenq_entry list \<Rightarrow> 'd \<Rightarrow> ena_admin_aenq_entry list \<times> 'd"
  p_ind_dma :: "u16 list \<Rightarrow> 'd \<Rightarrow> u16 list \<times> 'd"
  p_dma_alloc :: "nat \<Rightarrow> 'd \<Rightarrow> u64 option \<times> 'd"
  p_dma_free :: "u64 \<Rightarrow> 'd \<Rightarrow> 'd"
  p_calloc :: "nat \<Rightarrow> 'd \<Rightarrow> bool \<times> 'd"
  p_rx_alloc :: "'d rx_alloc"

text \<open>
  A bound device: the adapter, the receive queues its rings refill from, the platform state,
  and the packet buffers released so far.
\<close>

record 'd sys =
  ad :: ena_adapter
  rxqs :: "uk_netdev_rx_queue list"
  dev :: 'd
  freed :: "netbuf list"

definition reg_write :: "'d platform \<Rightarrow> u32 \<Rightarrow> u32 \<Rightarrow> 'd sys \<Rightarrow> 'd sys" where
  "reg_write P off v s = s\<lparr> dev := p_write32 P off v (dev s) \<rparr>"

definition reg_read :: "'d platform \<Rightarrow> u32 \<Rightarrow> 'd sys \<Rightarrow> u32 \<times> 'd sys" where
  "reg_read P off s = (case p_read32 P off (dev s) of (v, d) \<Rightarrow> (v, s\<lparr> dev := d \<rparr>))"

definition dma_alloc :: "'d platform \<Rightarrow> nat \<Rightarrow> 'd sys \<Rightarrow> u64 option \<times> 'd sys" where
  "dma_alloc P n s = (case p_dma_alloc P n (dev s) of (r, d) \<Rightarrow> (r, s\<lparr> dev := d \<rparr>))"

definition dma_free :: "'d platform \<Rightarrow> u64 \<Rightarrow> 'd sys \<Rightarrow> 'd sys" where
  "dma_free P pa s = s\<lparr> dev := p_dma_free P pa (dev s) \<rparr>"

text \<open>The ring of a queue index; an index past the array has none.\<close>

definition ring_at :: "ena_ring option list \<Rightarrow> nat \<Rightarrow> ena_ring option" where
  "ring_at rs q = (if q < length rs then rs ! q else None)"

text \<open>Writing bytes into a memory block at an offset.\<close>

definition mem_write :: "nat \<Rightarrow> u8 list \<Rightarrow> u8 list \<Rightarrow> u8 list" where
  "mem_write off bs m = take off m @ bs @ drop (off + length bs) m"

lemma length_mem_write [simp]:
  "off + length bs \<le> length m \<Longrightarrow> length (mem_write off bs m) = length m"
  by (simp add: mem_write_def)

end
