(* ===== verification/Ena_Com.thy ===== *)
theory Ena_Com
  imports Ena_Adapter
begin

text \<open>
  Device readiness, reset and the adapter scaffold (\<^verbatim>\<open>src/src/ena_com.c\<close>) over the
  registers of \<^verbatim>\<open>src/include/ena_regs.h\<close>.  Every function reads registers through the
  platform, so a wait that polls a status register sees whatever the device does between
  two reads.
\<close>

definition ENA_REGS_VERSION_OFF :: u32 where [ena_consts]: "ENA_REGS_VERSION_OFF = 0x00"
definition ENA_REGS_CONTROLLER_VERSION_OFF :: u32 where [ena_consts]: "ENA_REGS_CONTROLLER_VERSION_OFF = 0x04"
definition ENA_REGS_CAPS_OFF :: u32 where [ena_consts]: "ENA_REGS_CAPS_OFF = 0x08"
definition ENA_REGS_AQ_BASE_LO_OFF :: u32 where [ena_consts]: "ENA_REGS_AQ_BASE_LO_OFF = 0x10"
definition ENA_REGS_AQ_BASE_HI_OFF :: u32 where [ena_consts]: "ENA_REGS_AQ_BASE_HI_OFF = 0x14"
definition ENA_REGS_AQ_CAPS_OFF :: u32 where [ena_consts]: "ENA_REGS_AQ_CAPS_OFF = 0x18"
definition ENA_REGS_ACQ_BASE_LO_OFF :: u32 where [ena_consts]: "ENA_REGS_ACQ_BASE_LO_OFF = 0x20"
definition ENA_REGS_ACQ_BASE_HI_OFF :: u32 where [ena_consts]: "ENA_REGS_ACQ_BASE_HI_OFF = 0x24"
definition ENA_REGS_ACQ_CAPS_OFF :: u32 where [ena_consts]: "ENA_REGS_ACQ_CAPS_OFF = 0x28"
definition ENA_REGS_AQ_DB_OFF :: u32 where [ena_consts]: "ENA_REGS_AQ_DB_OFF = 0x2C"
definition ENA_REGS_ACQ_TAIL_OFF :: u32 where [ena_consts]: "ENA_REGS_ACQ_TAIL_OFF = 0x30"
definition ENA_REGS_AENQ_CAPS_OFF :: u32 where [ena_consts]: "ENA_REGS_AENQ_CAPS_OFF = 0x34"
definition ENA_REGS_AENQ_BASE_LO_OFF :: u32 where [ena_consts]: "ENA_REGS_AENQ_BASE_LO_OFF = 0x38"
definition ENA_REGS_AENQ_BASE_HI_OFF :: u32 where [ena_consts]: "ENA_REGS_AENQ_BASE_HI_OFF = 0x3C"
definition ENA_REGS_AENQ_HEAD_DB_OFF :: u32 where [ena_consts]: "ENA_REGS_AENQ_HEAD_DB_OFF = 0x40"
definition ENA_REGS_INTR_MASK_OFF :: u32 where [ena_consts]: "ENA_REGS_INTR_MASK_OFF = 0x4C"
definition ENA_REGS_DEV_CTL_OFF :: u32 where [ena_consts]: "ENA_REGS_DEV_CTL_OFF = 0x54"
definition ENA_REGS_DEV_STS_OFF :: u32 where [ena_consts]: "ENA_REGS_DEV_STS_OFF = 0x58"
definition ENA_BAR0_MIN_SIZE :: nat where [ena_consts]: "ENA_BAR0_MIN_SIZE = 0x104"

definition ENA_DEV_CTL_DEV_RESET_MASK :: u32 where [ena_consts]: "ENA_DEV_CTL_DEV_RESET_MASK = 0x1"
definition ENA_DEV_CTL_RESET_REASON_MASK :: u32 where [ena_consts]: "ENA_DEV_CTL_RESET_REASON_MASK = 0xF0000000"
definition ENA_DEV_STS_READY_MASK :: u32 where [ena_consts]: "ENA_DEV_STS_READY_MASK = 0x1"
definition ENA_DEV_STS_RESET_IN_PROG_MASK :: u32 where [ena_consts]: "ENA_DEV_STS_RESET_IN_PROG_MASK = 0x8"
definition ENA_DEV_STS_RESET_FIN_MASK :: u32 where [ena_consts]: "ENA_DEV_STS_RESET_FIN_MASK = 0x10"
definition ENA_DEV_STS_FATAL_ERROR_MASK :: u32 where [ena_consts]: "ENA_DEV_STS_FATAL_ERROR_MASK = 0x20"

definition ena_device_check_ready :: "'d platform \<Rightarrow> 'd sys \<Rightarrow> int \<times> 'd sys" where
  "ena_device_check_ready P s =
    (if \<not> bar0_base (ad s) then (- EINVAL, s)
     else case reg_read P ENA_REGS_DEV_STS_OFF s of (status, s) \<Rightarrow>
       (if status AND ENA_DEV_STS_READY_MASK = 0 then - EBUSY else 0, s))"

definition ena_device_reset :: "'d platform \<Rightarrow> 'd sys \<Rightarrow> int \<times> 'd sys" where
  "ena_device_reset P s =
    (if \<not> bar0_base (ad s) then (- EINVAL, s)
     else case reg_read P ENA_REGS_DEV_CTL_OFF s of (ctl, s) \<Rightarrow>
       let ctl = ctl AND NOT ENA_DEV_CTL_RESET_REASON_MASK;
           ctl = ctl OR ENA_DEV_CTL_DEV_RESET_MASK
       in (0, reg_write P ENA_REGS_DEV_CTL_OFF ctl s))"

definition reset_complete :: "u32 \<Rightarrow> bool" where
  "reset_complete status \<longleftrightarrow> status AND ENA_DEV_STS_RESET_FIN_MASK \<noteq> 0 \<and>
     status AND ENA_DEV_STS_RESET_IN_PROG_MASK = 0"

fun wait_reset_loop :: "'d platform \<Rightarrow> nat \<Rightarrow> 'd sys \<Rightarrow> int \<times> 'd sys" where
  "wait_reset_loop P 0 s = (- ETIMEDOUT, s)"
| "wait_reset_loop P (Suc n) s =
    (case reg_read P ENA_REGS_DEV_STS_OFF s of (status, s) \<Rightarrow>
       if status AND ENA_DEV_STS_FATAL_ERROR_MASK \<noteq> 0
       then (- EIO, ad_update (ad_state_update (\<lambda>_. ENA_STATE_ERROR)) s)
       else if reset_complete status then (0, s)
       else wait_reset_loop P n s)"

definition ena_device_wait_reset_complete :: "'d platform \<Rightarrow> nat \<Rightarrow> 'd sys \<Rightarrow> int \<times> 'd sys" where
  "ena_device_wait_reset_complete P max_polls s =
    (if \<not> bar0_base (ad s) then (- EINVAL, s)
     else wait_reset_loop P (if max_polls = 0 then 1 else max_polls) s)"

text \<open>The scaffold clears the adapter, so it forgets any memory the adapter owned.\<close>

definition ena_device_init_scaffold :: "'d platform \<Rightarrow> bool \<Rightarrow> nat \<Rightarrow> 'd sys \<Rightarrow> int \<times> 'd sys" where
  "ena_device_init_scaffold P base sz s =
    (if \<not> base \<or> sz < ENA_BAR0_MIN_SIZE then (- EINVAL, s)
     else
       let s = s\<lparr> ad := adapter_zero\<lparr> bar0_base := True, bar0_size := sz,
                   ad_state := ENA_STATE_PCI_PROBED \<rparr> \<rparr>
       in case reg_read P ENA_REGS_VERSION_OFF s of (v, s) \<Rightarrow>
          case reg_read P ENA_REGS_CONTROLLER_VERSION_OFF s of (cv, s) \<Rightarrow>
          case reg_read P ENA_REGS_CAPS_OFF s of (c, s) \<Rightarrow>
            (0, ad_update (\<lambda>a. a\<lparr> ad_version := v, controller_version := cv, ad_caps := c \<rparr>) s))"

end
