(* ===== verification/Ena_Admin.thy ===== *)
theory Ena_Admin
  imports Ena_Com
begin

text \<open>
  The admin queues of \<^verbatim>\<open>src/src/ena_admin.c\<close>: set-up and release of the submission,
  completion and event queues, execution of one command with its bounded wait for the
  completion, and the event poll.  The admin lock makes a command atomic, so it is not part
  of the state.  Recovery after a time-out is in the theory \<^verbatim>\<open>Ena_Recover\<close>.
\<close>

definition ENA_ADMIN_AQ_PHASE_MASK :: u8 where [ena_consts]: "ENA_ADMIN_AQ_PHASE_MASK = 0x01"
definition ENA_ADMIN_AQ_COMMON_DESC_CTRL_DATA_INDIRECT_MASK :: u8 where
  [ena_consts]: "ENA_ADMIN_AQ_COMMON_DESC_CTRL_DATA_INDIRECT_MASK = 0x04"
definition ENA_ADMIN_ACQ_PHASE_MASK :: u8 where [ena_consts]: "ENA_ADMIN_ACQ_PHASE_MASK = 0x01"
definition ENA_ADMIN_AENQ_PHASE_MASK :: u8 where [ena_consts]: "ENA_ADMIN_AENQ_PHASE_MASK = 0x01"
definition ENA_ADMIN_COMMAND_ID_MASK :: u16 where [ena_consts]: "ENA_ADMIN_COMMAND_ID_MASK = 0x0FFF"
definition ENA_ADMIN_CREATE_SQ :: u8 where [ena_consts]: "ENA_ADMIN_CREATE_SQ = 1"
definition ENA_ADMIN_DESTROY_SQ :: u8 where [ena_consts]: "ENA_ADMIN_DESTROY_SQ = 2"
definition ENA_ADMIN_CREATE_CQ :: u8 where [ena_consts]: "ENA_ADMIN_CREATE_CQ = 3"
definition ENA_ADMIN_DESTROY_CQ :: u8 where [ena_consts]: "ENA_ADMIN_DESTROY_CQ = 4"
definition ENA_ADMIN_GET_FEATURE :: u8 where [ena_consts]: "ENA_ADMIN_GET_FEATURE = 8"
definition ENA_ADMIN_SET_FEATURE :: u8 where [ena_consts]: "ENA_ADMIN_SET_FEATURE = 9"
definition ENA_ADMIN_GET_STATS :: u8 where [ena_consts]: "ENA_ADMIN_GET_STATS = 11"

subsection \<open>Set-up and release\<close>

definition ena_depth_ok :: "u16 \<Rightarrow> bool" where
  "ena_depth_ok depth \<longleftrightarrow> 4 \<le> depth \<and> depth AND (depth - 1) = 0"

definition free_queue :: "'d platform \<Rightarrow> bool \<Rightarrow> u64 \<Rightarrow> 'd sys \<Rightarrow> 'd sys" where
  "free_queue P live pa s = (if live then dma_free P pa s else s)"

definition ena_admin_fini :: "'d platform \<Rightarrow> 'd sys \<Rightarrow> 'd sys" where
  "ena_admin_fini P s =
    (let s = free_queue P (aq_mem (ad s) \<noteq> []) (aq_phys (ad s)) s;
         s = free_queue P (acq_mem (ad s) \<noteq> []) (acq_phys (ad s)) s;
         s = free_queue P (aenq_mem (ad s) \<noteq> []) (aenq_phys (ad s)) s;
         s = free_queue P (host_info_base (ad s) \<noteq> []) (host_info_phys (ad s)) s
     in ad_update (\<lambda>a. a\<lparr> aq_mem := [], acq_mem := [], aenq_mem := [], aq_phys := 0,
          acq_phys := 0, aenq_phys := 0, aq_depth := 0, acq_depth := 0, aenq_depth := 0,
          aq_tail := 0, aq_phase := 0, next_command_id := 0, acq_head := 0, acq_phase := 0,
          aenq_head := 0, aenq_phase := 0, aenq_handler := False, host_info_base := [],
          host_info_phys := 0, ad_state := ENA_STATE_STOPPED \<rparr>) s)"

text \<open>A CAPS register: the depth in the low half, the entry size of 64 bytes in the high half.\<close>

definition queue_caps :: "u16 \<Rightarrow> u32" where
  "queue_caps d = push_bit 16 64 OR ucast d"

definition publish_queues :: "'d platform \<Rightarrow> u64 \<Rightarrow> u64 \<Rightarrow> u64 \<Rightarrow> u16 \<Rightarrow> u16 \<Rightarrow> u16 \<Rightarrow> 'd sys \<Rightarrow> 'd sys" where
  "publish_queues P aqp acqp aenqp aqd acqd aenqd s =
    fold (\<lambda>(off, v). reg_write P off v)
      [(ENA_REGS_AQ_BASE_LO_OFF, ucast aqp),
       (ENA_REGS_AQ_BASE_HI_OFF, ucast (drop_bit 32 aqp AND 0xFFFF)),
       (ENA_REGS_AQ_CAPS_OFF, queue_caps aqd),
       (ENA_REGS_ACQ_BASE_LO_OFF, ucast acqp),
       (ENA_REGS_ACQ_BASE_HI_OFF, ucast (drop_bit 32 acqp)),
       (ENA_REGS_ACQ_CAPS_OFF, queue_caps acqd),
       (ENA_REGS_ACQ_TAIL_OFF, 0),
       (ENA_REGS_AENQ_BASE_LO_OFF, ucast aenqp),
       (ENA_REGS_AENQ_BASE_HI_OFF, ucast (drop_bit 32 aenqp)),
       (ENA_REGS_AENQ_CAPS_OFF, queue_caps aenqd),
       (ENA_REGS_AENQ_HEAD_DB_OFF, ucast aenqd)] s"

definition admin_queues_fresh :: "u64 \<Rightarrow> u64 \<Rightarrow> u64 \<Rightarrow> u16 \<Rightarrow> u16 \<Rightarrow> u16 \<Rightarrow> ena_adapter \<Rightarrow> ena_adapter" where
  "admin_queues_fresh aqp acqp aenqp aqd acqd aenqd a = a
    \<lparr> aq_mem := replicate (unat aqd * 64) 0, aq_phys := aqp, aq_depth := aqd, aq_tail := 0,
      aq_phase := 1, next_command_id := 1,
      acq_mem := replicate (unat acqd) acq_entry_zero, acq_phys := acqp, acq_depth := acqd,
      acq_head := 0, acq_phase := 1,
      aenq_mem := replicate (unat aenqd) aenq_entry_zero, aenq_phys := aenqp, aenq_depth := aenqd,
      aenq_head := aenqd, aenq_phase := 1, aenq_handler := False \<rparr>"

definition ena_admin_init :: "'d platform \<Rightarrow> u16 \<Rightarrow> u16 \<Rightarrow> u16 \<Rightarrow> 'd sys \<Rightarrow> int \<times> 'd sys" where
  "ena_admin_init P aqd acqd aenqd s =
    (if \<not> bar0_base (ad s) then (- EINVAL, s)
     else
       let s = (if aq_mem (ad s) \<noteq> [] \<or> acq_mem (ad s) \<noteq> [] \<or> aenq_mem (ad s) \<noteq> []
                then ena_admin_fini P s else s)
       in if \<not> ena_depth_ok aqd \<or> \<not> ena_depth_ok acqd \<or> \<not> ena_depth_ok aenqd then (- EINVAL, s)
       else case dma_alloc P (unat aqd * 64) s of
         (None, s) \<Rightarrow> (- ENOMEM, s)
       | (Some aqp, s) \<Rightarrow>
       (case dma_alloc P (unat acqd * 64) s of
         (None, s) \<Rightarrow> (- ENOMEM, dma_free P aqp s)
       | (Some acqp, s) \<Rightarrow>
       (case dma_alloc P (unat aenqd * 64) s of
         (None, s) \<Rightarrow> (- ENOMEM, dma_free P acqp (dma_free P aqp s))
       | (Some aenqp, s) \<Rightarrow>
         let s = ad_update (admin_queues_fresh aqp acqp aenqp aqd acqd aenqd) s;
             s = publish_queues P aqp acqp aenqp aqd acqd aenqd s
         in (0, ad_update (ad_state_update (\<lambda>_. ENA_STATE_ADMIN_READY)) s))))"

subsection \<open>One command\<close>

definition aq_advance :: "ena_adapter \<Rightarrow> ena_adapter" where
  "aq_advance a =
    (let a = a\<lparr> aq_tail := aq_tail a + 1 \<rparr>
     in if aq_tail a AND (aq_depth a - 1) = 0 then a\<lparr> aq_phase := aq_phase a XOR 1 \<rparr> else a)"

definition acq_advance :: "ena_adapter \<Rightarrow> ena_adapter" where
  "acq_advance a =
    (let a = a\<lparr> acq_head := acq_head a + 1 \<rparr>
     in if acq_head a AND (acq_depth a - 1) = 0 then a\<lparr> acq_phase := acq_phase a XOR 1 \<rparr> else a)"

text \<open>The command id to use and the counter after it.\<close>

definition command_id_of :: "ena_adapter \<Rightarrow> u16" where
  "command_id_of a = (if next_command_id a = 0 then 1 else next_command_id a)"

definition command_id_after :: "u16 \<Rightarrow> u16" where
  "command_id_after c =
    (let n = (c + 1) AND ENA_ADMIN_COMMAND_ID_MASK in if n = 0 then 1 else n)"

text \<open>
  The bytes of the slot after the payload is copied and the common descriptor is stored.
  The queue is the flat memory the device sees: the payload goes behind the four bytes of
  the descriptor, whatever its length.
\<close>

definition aq_copy_request :: "nat \<Rightarrow> u8 list \<Rightarrow> u8 list \<Rightarrow> u8 list" where
  "aq_copy_request base req m =
    (let m = mem_write base (replicate 64 0) m
     in if req = [] then m
        else if 64 \<le> length req then mem_write base (take 64 req) m
        else mem_write (base + 4) req m)"

definition aq_entry_flags :: "nat \<Rightarrow> u8 list \<Rightarrow> u8 \<Rightarrow> u8 list \<Rightarrow> u8" where
  "aq_entry_flags base req phase m =
    (let flags = (if 64 \<le> length req then get8 m (base + 3) AND NOT ENA_ADMIN_AQ_PHASE_MASK else 0);
         flags = (if 0 < get32 m (base + 4)
                  then flags OR ENA_ADMIN_AQ_COMMON_DESC_CTRL_DATA_INDIRECT_MASK else flags)
     in flags OR (phase AND ENA_ADMIN_AQ_PHASE_MASK))"

definition aq_build_entry :: "u8 \<Rightarrow> u8 list \<Rightarrow> u16 \<Rightarrow> ena_adapter \<Rightarrow> ena_adapter" where
  "aq_build_entry opcode req cmd a =
    (let base = unat (aq_tail a AND (aq_depth a - 1)) * 64;
         m = aq_copy_request base req (aq_mem a)
     in a\<lparr> aq_mem := mem_write base (le16 cmd @ [opcode, aq_entry_flags base req (aq_phase a) m]) m \<rparr>)"

text \<open>
  When the command id wraps around to 1 the expected phase is recomputed from the head and
  the completion slot is cleared.
\<close>

definition acq_wrap :: "'d platform \<Rightarrow> u16 \<Rightarrow> 'd sys \<Rightarrow> 'd sys" where
  "acq_wrap P cmd s =
    (if cmd = 1 \<and> 0 < acq_head (ad s) then
       let s = (if 0 < acq_depth (ad s)
                then ad_update (\<lambda>a. a\<lparr> acq_phase := 1 XOR ucast ((acq_head a div acq_depth a) AND 1) \<rparr>) s
                else s);
           s = reg_write P ENA_REGS_ACQ_TAIL_OFF (ucast (acq_head (ad s))) s
       in ad_update (\<lambda>a. a\<lparr> acq_mem :=
            (acq_mem a)[unat (acq_head a AND (acq_depth a - 1)) := acq_entry_zero] \<rparr>) s
     else s)"

definition acq_slot :: "ena_adapter \<Rightarrow> ena_admin_acq_entry" where
  "acq_slot a = acq_mem a ! unat (acq_head a AND (acq_depth a - 1))"

definition acq_device_step :: "'d platform \<Rightarrow> 'd sys \<Rightarrow> 'd sys" where
  "acq_device_step P s =
    (case p_acq_dma P (aq_mem (ad s)) (acq_mem (ad s)) (dev s) of (m, d) \<Rightarrow>
       s\<lparr> ad := (ad s)\<lparr> acq_mem := m \<rparr>, dev := d \<rparr>)"

fun acq_wait :: "'d platform \<Rightarrow> nat \<Rightarrow> 'd sys \<Rightarrow> bool \<times> 'd sys" where
  "acq_wait P 0 s = (False, s)"
| "acq_wait P (Suc n) s =
    (let s = acq_device_step P s
     in if acq_flags (acq_slot (ad s)) AND ENA_ADMIN_ACQ_PHASE_MASK = acq_phase (ad s) then (True, s)
        else acq_wait P n s)"

text \<open>
  The result of a command: the return code, the response bytes stored at the caller (none
  when the response buffer is left untouched), the command id reported, and the state.
\<close>

type_synonym 'd exec_fn =
  "u8 \<Rightarrow> u8 list \<Rightarrow> nat \<Rightarrow> nat \<Rightarrow> 'd sys \<Rightarrow> int \<times> u8 list \<times> u16 option \<times> 'd sys"

definition acq_consume :: "'d platform \<Rightarrow> u16 \<Rightarrow> nat \<Rightarrow> 'd sys \<Rightarrow> int \<times> u8 list \<times> u16 option \<times> 'd sys" where
  "acq_consume P cmd cap s =
    (let acq = acq_slot (ad s);
         s = ad_update acq_advance s;
         s = reg_write P ENA_REGS_ACQ_TAIL_OFF (ucast (acq_head (ad s))) s
     in if acq_command acq AND ENA_ADMIN_COMMAND_ID_MASK \<noteq> cmd then (- EIO, [], None, s)
        else (- int (unat (acq_status acq)), take cap (response_specific_data acq),
              Some (acq_command acq AND ENA_ADMIN_COMMAND_ID_MASK), s))"

text \<open>Everything up to the doorbell: id, entry, wrap handling, tail, doorbell.\<close>

definition aq_submit :: "'d platform \<Rightarrow> u8 \<Rightarrow> u8 list \<Rightarrow> u16 \<Rightarrow> 'd sys \<Rightarrow> 'd sys" where
  "aq_submit P opcode req cmd s =
    (let s = ad_update (\<lambda>a. a\<lparr> next_command_id := command_id_after cmd \<rparr>) s;
         s = ad_update (aq_build_entry opcode req cmd) s;
         s = acq_wrap P cmd s;
         s = ad_update aq_advance s
     in reg_write P ENA_REGS_AQ_DB_OFF (ucast (aq_tail (ad s))) s)"

definition ena_admin_exec_locked :: "'d platform \<Rightarrow> 'd exec_fn" where
  "ena_admin_exec_locked P opcode req cap max_polls s =
    (if 64 < length req then (- EINVAL, [], None, s)
     else
       let polls = (if max_polls = 0 then 1 else max_polls);
           cmd = command_id_of (ad s)
       in case acq_wait P polls (aq_submit P opcode req cmd s) of
            (False, s) \<Rightarrow> (- ETIMEDOUT, [], None, ad_update (ad_state_update (\<lambda>_. ENA_STATE_ERROR)) s)
          | (True, s) \<Rightarrow> acq_consume P cmd cap s)"

subsection \<open>Events\<close>

text \<open>
  A handler is a state transformer; the adapter records whether one is registered.  A recovery
  inside a handler may release the event queue, so every iteration looks at the current
  memory; \<open>None\<close> stands for an access through the null base a failed recovery leaves.
\<close>

type_synonym 'd aenq_handler_fn = "u16 \<Rightarrow> u16 \<Rightarrow> ena_admin_aenq_entry \<Rightarrow> 'd sys \<Rightarrow> int \<times> 'd sys"

definition ena_admin_aenq_register :: "'d sys \<Rightarrow> int \<times> 'd sys" where
  "ena_admin_aenq_register s = (0, ad_update (aenq_handler_update (\<lambda>_. True)) s)"

definition aenq_advance :: "u16 \<Rightarrow> ena_adapter \<Rightarrow> ena_adapter" where
  "aenq_advance msk a =
    (let a = a\<lparr> aenq_head := aenq_head a + 1 \<rparr>
     in if aenq_head a AND msk = 0 then a\<lparr> aenq_phase := aenq_phase a XOR 1 \<rparr> else a)"

definition aenq_device_step :: "'d platform \<Rightarrow> 'd sys \<Rightarrow> 'd sys" where
  "aenq_device_step P s =
    (case p_aenq_dma P (aenq_mem (ad s)) (dev s) of (m, d) \<Rightarrow>
       s\<lparr> ad := (ad s)\<lparr> aenq_mem := m \<rparr>, dev := d \<rparr>)"

definition aenq_dispatch :: "'d platform \<Rightarrow> 'd aenq_handler_fn \<Rightarrow> u16 \<Rightarrow> ena_admin_aenq_entry \<Rightarrow> 'd sys \<Rightarrow> 'd sys" where
  "aenq_dispatch P h msk entry s =
    (let s = ad_update (aenq_advance msk) s;
         s = reg_write P ENA_REGS_AENQ_HEAD_DB_OFF (ucast (aenq_head (ad s))) s
     in if aenq_handler (ad s) then snd (h (aenq_group entry) (aenq_syndrome entry) entry s) else s)"

fun aenq_loop :: "'d platform \<Rightarrow> 'd aenq_handler_fn \<Rightarrow> u16 \<Rightarrow> nat \<Rightarrow> int \<Rightarrow> 'd sys \<Rightarrow> (int \<times> 'd sys) option" where
  "aenq_loop P h msk 0 cnt s = Some (cnt, s)"
| "aenq_loop P h msk (Suc n) cnt s =
    (if aenq_mem (ad s) = [] then None
     else
       let s = aenq_device_step P s;
           entry = aenq_mem (ad s) ! unat (aenq_head (ad s) AND msk)
       in if aenq_flags entry AND ENA_ADMIN_AENQ_PHASE_MASK \<noteq> aenq_phase (ad s) then Some (cnt, s)
          else aenq_loop P h msk n (cnt + 1) (aenq_dispatch P h msk entry s))"

definition ena_admin_aenq_poll :: "'d platform \<Rightarrow> 'd aenq_handler_fn \<Rightarrow> nat \<Rightarrow> 'd sys \<Rightarrow> (int \<times> 'd sys) option" where
  "ena_admin_aenq_poll P h max_events s =
    (if aenq_mem (ad s) = [] then Some (- EINVAL, s)
     else aenq_loop P h (aenq_depth (ad s) - 1) max_events 0 s)"

interpretation aq: phase_cursor aq_depth aq_tail aq_phase aq_advance 1
  by unfold_locales (simp_all add: aq_advance_def Let_def)

interpretation acq: phase_cursor acq_depth acq_head acq_phase acq_advance 1
  by unfold_locales (simp_all add: acq_advance_def Let_def)

text \<open>The event cursor starts one lap in, so its phase is that of a cursor starting at 0 with phase 0.\<close>

interpretation aenq: phase_cursor aenq_depth aenq_head aenq_phase "\<lambda>a. aenq_advance (aenq_depth a - 1) a" 0
  by unfold_locales (simp_all add: aenq_advance_def Let_def)

end
