(* ===== verification/Ena_Queues.thy ===== *)
theory Ena_Queues
  imports Ena_Admin
begin

text \<open>
  Creation and destruction of the hardware queues of a ring (second half of
  \<^verbatim>\<open>src/src/ena_datapath.c\<close>).  A ring is named by its direction and queue index: a command
  that times out runs the recovery, which works on the same ring objects, so a ring cannot be
  passed by value.  The functions take the command execution function as an argument, because
  the recovery calls them while it is itself part of executing a command.
\<close>

definition ENA_ADMIN_SQ_DIRECTION_TX :: u8 where [ena_consts]: "ENA_ADMIN_SQ_DIRECTION_TX = 1"
definition ENA_ADMIN_SQ_DIRECTION_RX :: u8 where [ena_consts]: "ENA_ADMIN_SQ_DIRECTION_RX = 2"
definition ENA_ADMIN_PLACEMENT_POLICY_HOST :: u8 where [ena_consts]: "ENA_ADMIN_PLACEMENT_POLICY_HOST = 1"
definition ENA_ADMIN_PLACEMENT_POLICY_DEV :: u8 where [ena_consts]: "ENA_ADMIN_PLACEMENT_POLICY_DEV = 3"
definition ENA_ADMIN_AQ_CREATE_CQ_CMD_INTERRUPT_MODE_ENABLED_MASK :: u8 where
  [ena_consts]: "ENA_ADMIN_AQ_CREATE_CQ_CMD_INTERRUPT_MODE_ENABLED_MASK = 0x20"
definition ENA_ADMIN_MSIX_NONE :: u32 where [ena_consts]: "ENA_ADMIN_MSIX_NONE = 0xFFFFFFFF"
definition ENA_DATAPATH_MAX_POLLS :: nat where [ena_consts]: "ENA_DATAPATH_MAX_POLLS = 5000"

subsection \<open>Rings of the adapter\<close>

definition ring_of :: "ena_ring_type \<Rightarrow> nat \<Rightarrow> 'd sys \<Rightarrow> ena_ring option" where
  "ring_of ty q s = ring_at (if ty = ENA_RING_TYPE_TX then tx_rings (ad s) else rx_rings (ad s)) q"

definition ring_upd :: "ena_ring_type \<Rightarrow> nat \<Rightarrow> (ena_ring \<Rightarrow> ena_ring) \<Rightarrow> 'd sys \<Rightarrow> 'd sys" where
  "ring_upd ty q f s =
    (if ty = ENA_RING_TYPE_TX
     then ad_update (\<lambda>a. a\<lparr> tx_rings := (tx_rings a)[q := map_option f (ring_at (tx_rings a) q)] \<rparr>) s
     else ad_update (\<lambda>a. a\<lparr> rx_rings := (rx_rings a)[q := map_option f (ring_at (rx_rings a) q)] \<rparr>) s)"

definition ring_cq_idx :: "ena_ring_type \<Rightarrow> nat \<Rightarrow> 'd sys \<Rightarrow> u16" where
  "ring_cq_idx ty q s = (case ring_of ty q s of None \<Rightarrow> 0 | Some r \<Rightarrow> cq_idx r)"

subsection \<open>Queue commands\<close>

text \<open>A 48-bit bus address on the wire: low word, high half word, reserved half word.\<close>

definition mem_addr_bytes :: "u64 \<Rightarrow> u8 list" where
  "mem_addr_bytes pa = le32 (ucast pa) @ le16 (ucast (drop_bit 32 pa)) @ le16 0"

definition create_cq_cmd :: "u16 \<Rightarrow> u64 \<Rightarrow> u32 \<Rightarrow> u8 \<Rightarrow> u8 list" where
  "create_cq_cmd depth pa vec words =
    [ENA_ADMIN_AQ_CREATE_CQ_CMD_INTERRUPT_MODE_ENABLED_MASK, if words = 0 then 4 else words] @
    le16 depth @ le32 vec @ mem_addr_bytes pa"

definition create_sq_cmd :: "u8 \<Rightarrow> u16 \<Rightarrow> u64 \<Rightarrow> u64 \<Rightarrow> u16 \<Rightarrow> u8 \<Rightarrow> u8 list" where
  "create_sq_cmd placement depth pa wb cq dir =
    [push_bit 5 (dir AND 0x07), 0, placement, 1] @ le16 cq @ le16 depth @
    (if placement = ENA_ADMIN_PLACEMENT_POLICY_HOST
     then mem_addr_bytes pa @ (if wb \<noteq> 0 then mem_addr_bytes wb else replicate 8 0)
     else replicate 16 0) @ replicate 8 0"

text \<open>The check of a doorbell offset against the register window.\<close>

definition db_offset_ok :: "nat \<Rightarrow> u32 \<Rightarrow> bool" where
  "db_offset_ok sz off \<longleftrightarrow> unat off + 4 \<le> sz \<and> off AND 3 = 0"

definition ena_admin_destroy_cq :: "'d exec_fn \<Rightarrow> u16 \<Rightarrow> 'd sys \<Rightarrow> int \<times> 'd sys" where
  "ena_admin_destroy_cq exec cq s =
    (case exec ENA_ADMIN_DESTROY_CQ (le16 cq @ le16 0) 0 ENA_DATAPATH_MAX_POLLS s of
       (ret, _, _, s) \<Rightarrow> (ret, s))"

definition ena_admin_destroy_sq :: "'d exec_fn \<Rightarrow> u16 \<Rightarrow> 'd sys \<Rightarrow> int \<times> 'd sys" where
  "ena_admin_destroy_sq exec sq s =
    (case exec ENA_ADMIN_DESTROY_SQ (le16 sq @ le16 0) 0 ENA_DATAPATH_MAX_POLLS s of
       (ret, _, _, s) \<Rightarrow> (ret, s))"

text \<open>
  The results of a create command: return code, and when the device answered the index, the
  doorbell offset and a further offset (the unmask register, or the descriptor and header
  areas), which the caller stores even when the offset check then fails.
\<close>

definition ena_admin_create_cq ::
  "'d exec_fn \<Rightarrow> u16 \<Rightarrow> u64 \<Rightarrow> u32 \<Rightarrow> u8 \<Rightarrow> 'd sys \<Rightarrow> int \<times> (u16 \<times> u32 \<times> u32) option \<times> 'd sys" where
  "ena_admin_create_cq exec depth pa vec words s =
    (case exec ENA_ADMIN_CREATE_CQ (create_cq_cmd depth pa vec words) 16 ENA_DATAPATH_MAX_POLLS s of
       (ret, resp, _, s) \<Rightarrow>
       if ret \<noteq> 0 then (ret, None, s)
       else
         let cq = get16 resp 0; db = get32 resp 8; unmask = get32 resp 12 in
         if bar0_size (ad s) \<noteq> 0 \<and> db \<noteq> 0 \<and> \<not> db_offset_ok (bar0_size (ad s)) db
         then (- EINVAL, Some (cq, db, unmask), snd (ena_admin_destroy_cq exec cq s))
         else (0, Some (cq, db, unmask), s))"

definition ena_admin_create_sq_common ::
  "'d exec_fn \<Rightarrow> u8 \<Rightarrow> u16 \<Rightarrow> u64 \<Rightarrow> u64 \<Rightarrow> u16 \<Rightarrow> u8 \<Rightarrow> 'd sys \<Rightarrow>
   int \<times> (u16 \<times> u32 \<times> u32 \<times> u32) option \<times> 'd sys" where
  "ena_admin_create_sq_common exec placement depth pa wb cq dir s =
    (case exec ENA_ADMIN_CREATE_SQ (create_sq_cmd placement depth pa wb cq dir) 16
            ENA_DATAPATH_MAX_POLLS s of
       (ret, resp, _, s) \<Rightarrow>
       if ret \<noteq> 0 then (ret, None, s)
       else
         let sq = get16 resp 0; db = get32 resp 4; descs = get32 resp 8; hdrs = get32 resp 12 in
         if bar0_size (ad s) \<noteq> 0 \<and> db \<noteq> 0 \<and> \<not> db_offset_ok (bar0_size (ad s)) db
         then (- EINVAL, Some (sq, db, descs, hdrs), snd (ena_admin_destroy_sq exec sq s))
         else (0, Some (sq, db, descs, hdrs), s))"

definition ena_admin_create_sq ::
  "'d exec_fn \<Rightarrow> u16 \<Rightarrow> u64 \<Rightarrow> u64 \<Rightarrow> u16 \<Rightarrow> u8 \<Rightarrow> 'd sys \<Rightarrow>
   int \<times> (u16 \<times> u32 \<times> u32 \<times> u32) option \<times> 'd sys" where
  "ena_admin_create_sq exec depth pa wb cq dir =
    ena_admin_create_sq_common exec ENA_ADMIN_PLACEMENT_POLICY_HOST depth pa wb cq dir"

definition ena_admin_create_sq_llq ::
  "'d exec_fn \<Rightarrow> u16 \<Rightarrow> u16 \<Rightarrow> u8 \<Rightarrow> 'd sys \<Rightarrow>
   int \<times> (u16 \<times> u32 \<times> u32 \<times> u32) option \<times> 'd sys" where
  "ena_admin_create_sq_llq exec depth cq dir =
    ena_admin_create_sq_common exec ENA_ADMIN_PLACEMENT_POLICY_DEV depth 0 0 cq dir"

subsection \<open>Creating the queues of a ring\<close>

definition ring_dir :: "ena_ring_type \<Rightarrow> u8" where
  "ring_dir ty = (if ty = ENA_RING_TYPE_TX then ENA_ADMIN_SQ_DIRECTION_TX else ENA_ADMIN_SQ_DIRECTION_RX)"

definition llq_entry_bytes :: "ena_adapter \<Rightarrow> nat" where
  "llq_entry_bytes a = (if llq_info_entry_size (llq_info a) \<noteq> 0 then unat (llq_info_entry_size (llq_info a)) else 128)"

definition ring_store_cq :: "(u16 \<times> u32 \<times> u32) option \<Rightarrow> ena_ring \<Rightarrow> ena_ring" where
  "ring_store_cq out r = (case out of None \<Rightarrow> r
     | Some (cq, db, unmask) \<Rightarrow> r\<lparr> cq_idx := cq, cq_db_offset := db, cq_unmask_db_offset := unmask \<rparr>)"

definition ring_store_sq :: "(u16 \<times> u32 \<times> u32 \<times> u32) option \<Rightarrow> ena_ring \<Rightarrow> ena_ring" where
  "ring_store_sq out r = (case out of None \<Rightarrow> r
     | Some (sq, db, descs, hdrs) \<Rightarrow> r\<lparr> sq_idx := sq, sq_db_offset := db \<rparr>)"

text \<open>
  Step 1: the completion queue, its doorbell and its unmask register.  The queue index is
  read from the ring at each use, since a command in between may have rebuilt the ring.
\<close>

definition create_hw_cq :: "'d exec_fn \<Rightarrow> ena_ring_type \<Rightarrow> nat \<Rightarrow> u32 \<Rightarrow> ena_ring \<Rightarrow> 'd sys \<Rightarrow> int \<times> 'd sys" where
  "create_hw_cq exec ty q vector r s =
    (let words = ucast (cq_elem_size r div 4);
         vec = (if vector \<noteq> 0 then vector else ENA_ADMIN_MSIX_NONE)
     in case ena_admin_create_cq exec (cq_depth r) (cq_phys r) vec words s of (ret, out, s) \<Rightarrow>
       let s = ring_upd ty q (ring_store_cq out) s; sz = bar0_size (ad s) in
       case (if ret \<noteq> 0 then None else out) of
         None \<Rightarrow> (ret, s)
       | Some (cq, db, unmask) \<Rightarrow>
         if db \<noteq> 0 \<and> \<not> db_offset_ok sz db
         then (- EINVAL, snd (ena_admin_destroy_cq exec (ring_cq_idx ty q s) s))
         else
           let s = (if db \<noteq> 0 then ring_upd ty q (\<lambda>r. r\<lparr> cq_db := Some db \<rparr>) s else s) in
           if unmask \<noteq> 0 \<and> \<not> db_offset_ok sz unmask
           then (- EINVAL, snd (ena_admin_destroy_cq exec (ring_cq_idx ty q s) s))
           else (0, s))"

text \<open>Step 2: the submission queue, in device memory when low-latency queues are on.\<close>

definition llq_wanted :: "ena_ring \<Rightarrow> ena_adapter \<Rightarrow> bool" where
  "llq_wanted r a \<longleftrightarrow> ring_type r = ENA_RING_TYPE_TX \<and> llq_enabled (llq_info a) \<and> bar2_base a \<and>
     0 < bar2_size a \<and> (max_llq_num (llq_info a) = 0 \<or> ucast (qid r) < max_llq_num (llq_info a))"

definition llq_offsets_ok :: "nat \<Rightarrow> nat \<Rightarrow> u32 \<Rightarrow> u32 \<Rightarrow> bool" where
  "llq_offsets_ok area bar descs hdrs \<longleftrightarrow> descs \<noteq> 0 \<and> unat descs + area \<le> bar \<and>
     (hdrs = 0 \<or> unat hdrs + area \<le> bar)"

definition create_hw_sq_host :: "'d exec_fn \<Rightarrow> ena_ring_type \<Rightarrow> nat \<Rightarrow> ena_ring \<Rightarrow> 'd sys \<Rightarrow> int \<times> 'd sys" where
  "create_hw_sq_host exec ty q r s =
    (case ena_admin_create_sq exec (sq_depth r) (sq_phys r) (sq_head_wb_phys r)
            (ring_cq_idx ty q s) (ring_dir (ring_type r)) s of
       (ret, out, s) \<Rightarrow>
       let s = ring_upd ty q (ring_store_sq out) s
       in if ret \<noteq> 0 then (ret, snd (ena_admin_destroy_cq exec (ring_cq_idx ty q s) s)) else (0, s))"

definition create_hw_sq ::
  "'d exec_fn \<Rightarrow> ena_ring_type \<Rightarrow> nat \<Rightarrow> ena_ring \<Rightarrow> 'd sys \<Rightarrow> int \<times> u32 option \<times> 'd sys" where
  "create_hw_sq exec ty q r s =
    (if llq_wanted r (ad s) then
       (case ena_admin_create_sq_llq exec (sq_depth r) (ring_cq_idx ty q s) (ring_dir (ring_type r)) s of
          (ret, out, s) \<Rightarrow>
          let s = ring_upd ty q (ring_store_sq out) s in
          case (if ret \<noteq> 0 then None else out) of
            None \<Rightarrow> (case create_hw_sq_host exec ty q r s of (ret, s) \<Rightarrow> (ret, None, s))
          | Some (sq, db, descs, hdrs) \<Rightarrow>
              if llq_offsets_ok (unat (sq_depth r) * llq_entry_bytes (ad s)) (bar2_size (ad s)) descs hdrs
              then (0, Some descs, s)
              else
                let s = snd (ena_admin_destroy_sq exec sq s)
                in case create_hw_sq_host exec ty q r s of (ret, s) \<Rightarrow> (ret, None, s))
     else case create_hw_sq_host exec ty q r s of (ret, s) \<Rightarrow> (ret, None, s))"

definition ring_go_llq :: "ena_adapter \<Rightarrow> u32 \<Rightarrow> ena_ring \<Rightarrow> ena_ring" where
  "ring_go_llq a descs r = r\<lparr> is_llq := True, push_buf_virt := Some descs, push_buf_phys := 0,
     push_buf_size := of_nat (unat (sq_depth r) * llq_entry_bytes a),
     llq_entry_size := of_nat (llq_entry_bytes a),
     llq_header_len := ucast (llq_info_header_len (llq_info a)) \<rparr>"

text \<open>Step 3: the doorbell of the submission queue, the push area and the valid mark.\<close>

definition create_hw_finish ::
  "'d exec_fn \<Rightarrow> ena_ring_type \<Rightarrow> nat \<Rightarrow> u32 option \<Rightarrow> 'd sys \<Rightarrow> int \<times> 'd sys" where
  "create_hw_finish exec ty q llq s =
    (case ring_of ty q s of
       None \<Rightarrow> (- EINVAL, s)
     | Some r \<Rightarrow>
       let db = sq_db_offset r in
       if db \<noteq> 0 \<and> \<not> db_offset_ok (bar0_size (ad s)) db
       then
         let s = snd (ena_admin_destroy_sq exec (sq_idx r) s)
         in (- EINVAL, snd (ena_admin_destroy_cq exec (ring_cq_idx ty q s) s))
       else
         let s = (if db \<noteq> 0 then ring_upd ty q (\<lambda>r. r\<lparr> sq_db := Some db \<rparr>) s else s);
             s = (case llq of None \<Rightarrow> s | Some descs \<Rightarrow> ring_upd ty q (ring_go_llq (ad s) descs) s)
         in (0, ring_upd ty q (\<lambda>r. r\<lparr> hw_valid := True \<rparr>) s))"

definition ena_ring_create_hw :: "'d exec_fn \<Rightarrow> ena_ring_type \<Rightarrow> nat \<Rightarrow> u32 \<Rightarrow> 'd sys \<Rightarrow> int \<times> 'd sys" where
  "ena_ring_create_hw exec ty q vector s =
    (case ring_of ty q s of
       None \<Rightarrow> (- EINVAL, s)
     | Some r \<Rightarrow>
       if \<not> bar0_base (ad s) then (- EINVAL, s)
       else case create_hw_cq exec ty q vector r s of (ret, s) \<Rightarrow>
         if ret \<noteq> 0 then (ret, s)
         else case create_hw_sq exec ty q r s of (ret, llq, s) \<Rightarrow>
           if ret \<noteq> 0 then (ret, s) else create_hw_finish exec ty q llq s)"

definition ring_hw_gone :: "ena_ring \<Rightarrow> ena_ring" where
  "ring_hw_gone r = r\<lparr> sq_db := None, cq_db := None, cq_unmask_db_offset := 0, is_llq := False,
     push_buf_virt := None, push_buf_phys := 0, push_buf_size := 0, llq_entry_size := 0,
     llq_header_len := 0, hw_valid := False \<rparr>"

definition ena_ring_destroy_hw :: "'d exec_fn \<Rightarrow> ena_ring_type \<Rightarrow> nat \<Rightarrow> 'd sys \<Rightarrow> int \<times> 'd sys" where
  "ena_ring_destroy_hw exec ty q s =
    (case ring_of ty q s of
       None \<Rightarrow> (- EINVAL, s)
     | Some r \<Rightarrow>
       (case ena_admin_destroy_sq exec (sq_idx r) s of (sq_ret, s) \<Rightarrow>
        case ena_admin_destroy_cq exec (ring_cq_idx ty q s) s of (cq_ret, s) \<Rightarrow>
          (if sq_ret \<noteq> 0 then sq_ret else cq_ret, ring_upd ty q ring_hw_gone s)))"

end
