(* ===== verification/Ena_Init.thy ===== *)
theory Ena_Init
  imports Ena_Queues
begin

text \<open>
  Capability negotiation and device configuration (\<^verbatim>\<open>src/src/ena_init.c\<close>).  As for the queue
  commands, the execution of an admin command is an argument.  Requests are the bytes the
  driver sends, responses the bytes it gets.  Re-applying the settings after a reset needs
  the receive side scaling and is in the theory \<^verbatim>\<open>Ena_Recover\<close>.
\<close>

definition ENA_ADMIN_DEVICE_ATTRIBUTES :: u8 where [ena_consts]: "ENA_ADMIN_DEVICE_ATTRIBUTES = 1"
definition ENA_ADMIN_MAX_QUEUES_NUM :: u8 where [ena_consts]: "ENA_ADMIN_MAX_QUEUES_NUM = 2"
definition ENA_ADMIN_LLQ :: u8 where [ena_consts]: "ENA_ADMIN_LLQ = 4"
definition ENA_ADMIN_RSS_HASH_FUNCTION :: u8 where [ena_consts]: "ENA_ADMIN_RSS_HASH_FUNCTION = 10"
definition ENA_ADMIN_RSS_INDIRECTION_TABLE_CONFIG :: u8 where
  [ena_consts]: "ENA_ADMIN_RSS_INDIRECTION_TABLE_CONFIG = 12"
definition ENA_ADMIN_MTU :: u8 where [ena_consts]: "ENA_ADMIN_MTU = 14"
definition ENA_ADMIN_RSS_HASH_INPUT :: u8 where [ena_consts]: "ENA_ADMIN_RSS_HASH_INPUT = 18"
definition ENA_ADMIN_AENQ_CONFIG :: u8 where [ena_consts]: "ENA_ADMIN_AENQ_CONFIG = 26"
definition ENA_ADMIN_HOST_ATTR_CONFIG :: u8 where [ena_consts]: "ENA_ADMIN_HOST_ATTR_CONFIG = 28"
definition ENA_ADMIN_FEAT_SELECT_CURRENT :: u8 where [ena_consts]: "ENA_ADMIN_FEAT_SELECT_CURRENT = 1"
definition ENA_ADMIN_AENQ_GROUPS_ALL :: u32 where [ena_consts]: "ENA_ADMIN_AENQ_GROUPS_ALL = 0x1F"
definition ENA_INIT_MAX_POLLS :: nat where [ena_consts]: "ENA_INIT_MAX_POLLS = 5000"
definition ENA_INIT_MTU_MIN :: u32 where [ena_consts]: "ENA_INIT_MTU_MIN = 46"
definition ENA_INIT_MTU_MAX :: u32 where [ena_consts]: "ENA_INIT_MTU_MAX = 0xFFFF"
definition ENA_INIT_HOST_INFO_SIZE :: nat where [ena_consts]: "ENA_INIT_HOST_INFO_SIZE = 4096"
definition ENA_SPEC_MAX_QUEUES :: u32 where [ena_consts]: "ENA_SPEC_MAX_QUEUES = 256"
definition ENA_SPEC_MAX_DEPTH :: u32 where [ena_consts]: "ENA_SPEC_MAX_DEPTH = 4096"
definition ENA_SPEC_MIN_DEPTH :: u32 where [ena_consts]: "ENA_SPEC_MIN_DEPTH = 4"
definition ENA_LLQ_INLINE_HEADER :: u16 where [ena_consts]: "ENA_LLQ_INLINE_HEADER = 1"
definition ENA_LLQ_ENTRY_SIZE_128B :: u16 where [ena_consts]: "ENA_LLQ_ENTRY_SIZE_128B = 1"

subsection \<open>Feature commands\<close>

definition ena_init_exec :: "'d exec_fn \<Rightarrow> u8 \<Rightarrow> u8 list \<Rightarrow> nat \<Rightarrow> 'd sys \<Rightarrow> int \<times> u8 list \<times> 'd sys" where
  "ena_init_exec exec opcode req cap s =
    (case exec opcode req cap ENA_INIT_MAX_POLLS s of (ret, resp, _, s) \<Rightarrow> (ret, resp, s))"

text \<open>A control buffer reference (twelve bytes), the common descriptor, and the payload.\<close>

definition ctrl_buff_bytes :: "u32 \<Rightarrow> u64 \<Rightarrow> u8 list" where
  "ctrl_buff_bytes len pa = le32 len @ mem_addr_bytes pa"

definition feat_request :: "u8 list \<Rightarrow> u8 \<Rightarrow> u8 list \<Rightarrow> u8 list" where
  "feat_request ctrl feature payload = ctrl @ [ENA_ADMIN_FEAT_SELECT_CURRENT, feature, 0, 0] @ payload"

definition get_feat_inline :: "u8 \<Rightarrow> u8 list" where
  "get_feat_inline feature = feat_request (ctrl_buff_bytes 0 0) feature (replicate 44 0)"

definition feature_supported :: "u8 \<Rightarrow> ena_adapter \<Rightarrow> bool" where
  "feature_supported f a \<longleftrightarrow> supported_features a AND push_bit (unat f) 1 \<noteq> 0"

definition ena_init_get_device_attributes :: "'d exec_fn \<Rightarrow> 'd sys \<Rightarrow> int \<times> 'd sys" where
  "ena_init_get_device_attributes exec s =
    (case ena_init_exec exec ENA_ADMIN_GET_FEATURE (get_feat_inline ENA_ADMIN_DEVICE_ATTRIBUTES) 56 s of
       (ret, resp, s) \<Rightarrow>
       if ret \<noteq> 0 then (ret, s)
       else (0, ad_update (\<lambda>a. a\<lparr> impl_id := get32 resp 0, device_version := get32 resp 4,
         supported_features := get32 resp 8, attr_caps := get32 resp 12,
         phys_addr_width := get32 resp 16, virt_addr_width := get32 resp 20,
         mac_addr := take 6 (drop 24 resp), max_mtu := ucast (get32 resp 32) \<rparr>) s))"

subsection \<open>Queue limits\<close>

text \<open>The loop clears the lowest set bit until one is left.\<close>

function clear_low_bits :: "u32 \<Rightarrow> u32" where
  "clear_low_bits d = (if d AND (d - 1) \<noteq> 0 then clear_low_bits (d AND (d - 1)) else d)"
  by pat_completeness auto

lemma and_pred_less_word:
  fixes d :: "'a::len word"
  assumes "d \<noteq> 0"
  shows "unat (d AND (d - 1)) < unat d"
proof -
  have "0 < unat d" using assms by (simp add: unat_gt_0)
  then have "unat d AND (unat d - Suc 0) < unat d" by (rule and_pred_less)
  with assms show ?thesis by (simp add: unat_and unat_minus_one)
qed

termination clear_low_bits
  by (relation "measure unat") (auto intro: and_pred_less_word)

declare clear_low_bits.simps [simp del]

definition clamp_queue_depth :: "u32 \<Rightarrow> u16" where
  "clamp_queue_depth raw_depth =
    (let d = (if ENA_SPEC_MAX_DEPTH < raw_depth then ENA_SPEC_MAX_DEPTH else raw_depth);
         d = (if d < ENA_SPEC_MIN_DEPTH then ENA_SPEC_MIN_DEPTH else d)
     in ucast (clear_low_bits d))"

definition clamp_queue_num :: "u32 \<Rightarrow> u16" where
  "clamp_queue_num raw_num =
    (if ENA_SPEC_MAX_QUEUES < raw_num then ucast ENA_SPEC_MAX_QUEUES
     else if raw_num = 0 then 1 else ucast raw_num)"

definition ena_init_get_queue_limits :: "'d exec_fn \<Rightarrow> 'd sys \<Rightarrow> int \<times> 'd sys" where
  "ena_init_get_queue_limits exec s =
    (case ena_init_exec exec ENA_ADMIN_GET_FEATURE (get_feat_inline ENA_ADMIN_MAX_QUEUES_NUM) 56 s of
       (ret, resp, s) \<Rightarrow>
       if ret \<noteq> 0 then (ret, s)
       else
         let sq_num = get32 resp 0; sq_dep = get32 resp 4; cq_num = get32 resp 8; cq_dep = get32 resp 12;
             tx_q = clamp_queue_num sq_num; rx_q = clamp_queue_num sq_num;
             tx_q = (if clamp_queue_num cq_num < tx_q then clamp_queue_num cq_num else tx_q);
             rx_q = (if clamp_queue_num cq_num < rx_q then clamp_queue_num cq_num else rx_q);
             tx_d = clamp_queue_depth sq_dep; rx_d = clamp_queue_depth sq_dep;
             tx_d = (if clamp_queue_depth cq_dep < tx_d then clamp_queue_depth cq_dep else tx_d);
             rx_d = (if clamp_queue_depth cq_dep < rx_d then clamp_queue_depth cq_dep else rx_d)
         in (0, ad_update (\<lambda>a. a\<lparr> max_tx_queues := tx_q, max_rx_queues := rx_q,
              max_tx_ring_size := tx_d, max_rx_ring_size := rx_d, max_header_size := get32 resp 24,
              max_packet_tx_descs := get16 resp 28, max_packet_rx_descs := get16 resp 30 \<rparr>) s))"

subsection \<open>Host information, MTU and MAC address\<close>

definition ena_copy_str :: "nat \<Rightarrow> string \<Rightarrow> u8 list" where
  "ena_copy_str cap src =
    (let len = (if cap \<le> length src then cap - 1 else length src)
     in map of_char (take len src) @ [0])"

definition host_str :: "nat \<Rightarrow> string \<Rightarrow> u8 list" where
  "host_str cap src = (let bs = ena_copy_str cap src in bs @ replicate (cap - length bs) 0)"

definition ENA_INIT_PACK_DRIVER_VERSION :: "u32 \<Rightarrow> u32 \<Rightarrow> u32 \<Rightarrow> u32 \<Rightarrow> u32" where
  "ENA_INIT_PACK_DRIVER_VERSION major minor sub module = (major AND 0xFF) OR push_bit 8 (minor AND 0xFF) OR
     push_bit 16 (sub AND 0xFF) OR push_bit 24 (module AND 0xFF)"

definition host_info_bytes :: "u8 list" where
  "host_info_bytes =
    (let bs = le32 3 @ host_str 128 ''Unikraft'' @ le32 0 @ host_str 32 ''ena-unikraft'' @ le32 0 @
              le32 (ENA_INIT_PACK_DRIVER_VERSION 2 0 0 0) @ replicate 8 0 @ le16 2 @ le16 0 @ le16 1
     in bs @ replicate (ENA_INIT_HOST_INFO_SIZE - length bs) 0)"

definition ena_init_set_host_info :: "'d platform \<Rightarrow> 'd exec_fn \<Rightarrow> 'd sys \<Rightarrow> int \<times> 'd sys" where
  "ena_init_set_host_info P exec s =
    (case dma_alloc P ENA_INIT_HOST_INFO_SIZE s of
       (None, s) \<Rightarrow> (- ENOMEM, s)
     | (Some pa, s) \<Rightarrow>
       (case ena_init_exec exec ENA_ADMIN_SET_FEATURE
               (feat_request (ctrl_buff_bytes 0 0) ENA_ADMIN_HOST_ATTR_CONFIG (mem_addr_bytes pa @ replicate 12 0)) 0 s of
          (ret, _, s) \<Rightarrow>
          if ret \<noteq> 0 then (ret, dma_free P pa s)
          else (0, ad_update (\<lambda>a. a\<lparr> host_info_base := host_info_bytes, host_info_phys := pa \<rparr>) s)))"

definition ena_init_set_mtu :: "'d exec_fn \<Rightarrow> u32 \<Rightarrow> 'd sys \<Rightarrow> int \<times> 'd sys" where
  "ena_init_set_mtu exec mtu s =
    (if mtu < ENA_INIT_MTU_MIN \<or> ENA_INIT_MTU_MAX < mtu then (- EINVAL, s)
     else case ena_init_exec exec ENA_ADMIN_SET_FEATURE
                 (feat_request (ctrl_buff_bytes 0 0) ENA_ADMIN_MTU (le32 mtu)) 0 s of
       (ret, _, s) \<Rightarrow>
       if ret \<noteq> 0 then (ret, s) else (0, ad_update (ad_mtu_update (\<lambda>_. mtu)) s))"

text \<open>The address is copied out of the adapter on success.\<close>

definition ena_init_get_mac_addr :: "'d exec_fn \<Rightarrow> 'd sys \<Rightarrow> int \<times> u8 list option \<times> 'd sys" where
  "ena_init_get_mac_addr exec s =
    (case ena_init_get_device_attributes exec s of (ret, s) \<Rightarrow>
       if ret \<noteq> 0 then (ret, None, s) else (0, Some (mac_addr (ad s)), s))"

subsection \<open>Low-latency queues and events\<close>

record ena_admin_feature_llq_desc =
  fl_max_llq_num :: u32
  fl_max_llq_depth :: u32
  header_location_ctrl_supported :: u16
  entry_size_ctrl_supported :: u16

definition ena_llq_select_params :: "ena_admin_feature_llq_desc \<Rightarrow> int \<times> (u16 \<times> u16) option" where
  "ena_llq_select_params desc =
    (if header_location_ctrl_supported desc AND ENA_LLQ_INLINE_HEADER = 0 then (- ENOTSUP, None)
     else if entry_size_ctrl_supported desc AND ENA_LLQ_ENTRY_SIZE_128B = 0 then (- ENOTSUP, None)
     else (0, Some (128, 128 - 2 * 16)))"

text \<open>The query runs, and the driver then stays with queues in host memory.\<close>

definition ena_init_config_llq :: "'d exec_fn \<Rightarrow> 'd sys \<Rightarrow> int \<times> 'd sys" where
  "ena_init_config_llq exec s =
    (let s = ad_update (llq_info_update (\<lambda>_. llq_info_zero)) s
     in if \<not> bar2_base (ad s) \<or> bar2_size (ad s) = 0 then (0, s)
        else case ena_init_exec exec ENA_ADMIN_GET_FEATURE (get_feat_inline ENA_ADMIN_LLQ) 32 s of
          (ret, _, s) \<Rightarrow> (0, s))"

definition ena_init_config_aenq :: "'d exec_fn \<Rightarrow> 'd sys \<Rightarrow> int \<times> 'd sys" where
  "ena_init_config_aenq exec s =
    (if \<not> feature_supported ENA_ADMIN_AENQ_CONFIG (ad s) then (0, s)
     else case ena_init_exec exec ENA_ADMIN_GET_FEATURE (get_feat_inline ENA_ADMIN_AENQ_CONFIG) 56 s of
       (ret, resp, s) \<Rightarrow>
       if ret \<noteq> 0 then (0, s)
       else
         let supported = get32 resp 0; groups = supported AND ENA_ADMIN_AENQ_GROUPS_ALL in
         if groups = 0 then (0, s)
         else case ena_init_exec exec ENA_ADMIN_SET_FEATURE
                     (feat_request (ctrl_buff_bytes 0 0) ENA_ADMIN_AENQ_CONFIG (le32 supported @ le32 groups)) 0 s of
           (ret, _, s) \<Rightarrow>
           if ret \<noteq> 0 then (0, s) else (0, ad_update (aenq_enabled_groups_update (\<lambda>_. groups)) s))"

subsection \<open>The bring-up sequence\<close>

definition and_then :: "int \<times> 'd sys \<Rightarrow> ('d sys \<Rightarrow> int \<times> 'd sys) \<Rightarrow> int \<times> 'd sys" where
  "and_then x f = (case x of (ret, s) \<Rightarrow> if ret \<noteq> 0 then (ret, s) else f s)"

definition ena_init_run :: "'d platform \<Rightarrow> 'd exec_fn \<Rightarrow> u32 \<Rightarrow> 'd sys \<Rightarrow> int \<times> 'd sys" where
  "ena_init_run P exec mtu s =
    and_then (ena_init_get_device_attributes exec s) (\<lambda>s.
    and_then (ena_init_get_queue_limits exec s) (\<lambda>s.
    and_then (ena_init_set_host_info P exec s) (\<lambda>s.
    let s = snd (ena_init_config_aenq exec s) in
    and_then (ena_init_config_llq exec s) (\<lambda>s.
    and_then (ena_init_set_mtu exec mtu s) (\<lambda>s.
    and_then (case ena_init_get_mac_addr exec s of (ret, _, s) \<Rightarrow> (ret, s)) (\<lambda>s.
      (0, ad_update (ad_state_update (\<lambda>_. ENA_STATE_CONFIGURED)) s)))))))"

end
