(* ===== verification/Ena_Rss.thy ===== *)
theory Ena_Rss
  imports Ena_Init
begin

text \<open>
  Receive side scaling (\<^verbatim>\<open>src/src/ena_rss.c\<close>): sizing and allocation of the indirection table,
  the hash key and the hash inputs, and the commands that set them.  The tables shared with
  the device are lists; of the two half words of an indirection entry and of a hash input only
  the first is used, and a list holds these.  The read-back of the table lets the device
  overwrite it.
\<close>

definition ENA_RSS_MAX_POLLS :: nat where [ena_consts]: "ENA_RSS_MAX_POLLS = 5000"
definition ENA_ADMIN_RSS_IND_TABLE_NUM_ENTRIES :: u16 where [ena_consts]: "ENA_ADMIN_RSS_IND_TABLE_NUM_ENTRIES = 128"
definition ENA_ADMIN_RSS_KEY_PARTS :: u32 where [ena_consts]: "ENA_ADMIN_RSS_KEY_PARTS = 10"
definition EOPNOTSUPP :: int where [ena_consts]: "EOPNOTSUPP = 95"

definition default_toeplitz_key :: "u8 list" where
  "default_toeplitz_key =
    [0x6d, 0x5a, 0x56, 0xda, 0x25, 0x5b, 0x0e, 0xc2, 0x41, 0x67,
     0x25, 0x3d, 0x43, 0xa3, 0x8f, 0xb0, 0xd0, 0xca, 0x2b, 0xcb,
     0xae, 0x7b, 0x30, 0xb4, 0x77, 0xcb, 0x2d, 0xa3, 0x80, 0x30,
     0xf2, 0x0c, 0x6a, 0x42, 0xb7, 0x3b, 0xbe, 0xac, 0x01, 0xfa]"

definition ena_rss_exec :: "'d exec_fn \<Rightarrow> u8 \<Rightarrow> u8 list \<Rightarrow> nat \<Rightarrow> 'd sys \<Rightarrow> int \<times> u8 list \<times> 'd sys" where
  "ena_rss_exec exec opcode req cap s =
    (case exec opcode req cap ENA_RSS_MAX_POLLS s of (ret, resp, _, s) \<Rightarrow> (ret, resp, s))"

abbreviation rss_upd :: "(ena_rss_info \<Rightarrow> ena_rss_info) \<Rightarrow> 'd sys \<Rightarrow> 'd sys" where
  "rss_upd f \<equiv> ad_update (rss_info_update f)"

abbreviation rss :: "'d sys \<Rightarrow> ena_rss_info" where
  "rss s \<equiv> rss_info (ad s)"

subsection \<open>Table size\<close>

text \<open>The smallest exponent, at least 1, whose power of two covers all queues.\<close>

function table_log2 :: "nat \<Rightarrow> nat \<Rightarrow> nat" where
  "table_log2 n req = (if 2 ^ req < n then table_log2 n (Suc req) else req)"
  by pat_completeness auto

termination table_log2
proof (relation "measure (\<lambda>(n, req). n - 2 ^ req)")
  fix n req :: nat
  assume "2 ^ req < n"
  then have "n - 2 * 2 ^ req < n - 2 ^ req" by (intro diff_less_mono2) simp_all
  then show "((n, Suc req), n, req) \<in> measure (\<lambda>(n, req). n - 2 ^ req)" by simp
qed simp

declare table_log2.simps [simp del]

text \<open>The exponent clamped into the range the device reports, and to 14.\<close>

definition clamp_table_log2 :: "u16 \<Rightarrow> u16 \<Rightarrow> nat \<Rightarrow> nat" where
  "clamp_table_log2 mn mx req =
    (let c = (if req < unat mn then unat mn else if unat mx < req then unat mx else req)
     in if 14 < c then 14 else c)"

definition ind_table_request :: "u8 list \<Rightarrow> u16 \<Rightarrow> u32 \<Rightarrow> u8 list" where
  "ind_table_request ctrl sz idx = feat_request ctrl ENA_ADMIN_RSS_INDIRECTION_TABLE_CONFIG
     (le16 0 @ le16 0 @ le16 sz @ le16 0 @ le32 idx @ replicate 4 0)"

definition ena_rss_query_ind_table_limits :: "'d exec_fn \<Rightarrow> 'd sys \<Rightarrow> 'd sys" where
  "ena_rss_query_ind_table_limits exec s =
    (let num = unat (num_rx_rings (ad s)) in
     if num < 2 then s
     else
       case ena_rss_exec exec ENA_ADMIN_GET_FEATURE (ind_table_request (ctrl_buff_bytes 0 0) 0 0) 16 s of
         (ret, resp, s) \<Rightarrow>
         if ret \<noteq> 0 then s
         else
           let mn = get16 resp 0; mx = get16 resp 2 in
           if mn = 0 \<or> mx < mn then s
           else rss_upd (ind_table_size_update (\<lambda>_. of_nat (2 ^ clamp_table_log2 mn mx (table_log2 num 1)))) s)"

subsection \<open>Allocation and release\<close>

definition ena_rss_fini :: "'d platform \<Rightarrow> 'd sys \<Rightarrow> 'd sys" where
  "ena_rss_fini P s =
    (let s = rss_upd (host_ind_table_update (\<lambda>_. [])) s;
         s = (if ind_table (rss s) \<noteq> [] then
                rss_upd (\<lambda>r. r\<lparr> ind_table := [], ind_table_phys := 0 \<rparr>) (dma_free P (ind_table_phys (rss s)) s)
              else s);
         s = (if hash_key (rss s) \<noteq> [] then
                rss_upd (\<lambda>r. r\<lparr> hash_key := [], hash_key_phys := 0 \<rparr>) (dma_free P (hash_key_phys (rss s)) s)
              else s);
         s = (if hash_ctrl (rss s) \<noteq> [] then
                rss_upd (\<lambda>r. r\<lparr> hash_ctrl := [], hash_ctrl_phys := 0 \<rparr>) (dma_free P (hash_ctrl_phys (rss s)) s)
              else s)
     in rss_upd (\<lambda>r. r\<lparr> rss_supported := False, rss_enabled := False \<rparr>) s)"

definition rss_alloc_key :: "'d platform \<Rightarrow> 'd sys \<Rightarrow> int \<times> 'd sys" where
  "rss_alloc_key P s =
    (if feature_supported ENA_ADMIN_RSS_HASH_FUNCTION (ad s) then
       (case dma_alloc P 48 s of
          (None, s) \<Rightarrow> (- ENOMEM, ena_rss_fini P s)
        | (Some pa, s) \<Rightarrow> (0, rss_upd (\<lambda>r. r\<lparr> hash_key := replicate 48 0, hash_key_phys := pa \<rparr>) s))
     else (0, s))"

definition rss_alloc_ctrl :: "'d platform \<Rightarrow> 'd sys \<Rightarrow> int \<times> 'd sys" where
  "rss_alloc_ctrl P s =
    (if feature_supported ENA_ADMIN_RSS_HASH_INPUT (ad s) then
       (case dma_alloc P 256 s of
          (None, s) \<Rightarrow> (- ENOMEM, ena_rss_fini P s)
        | (Some pa, s) \<Rightarrow> (0, rss_upd (\<lambda>r. r\<lparr> hash_ctrl := replicate 64 0, hash_ctrl_phys := pa \<rparr>) s))
     else (0, s))"

definition ena_rss_init :: "'d platform \<Rightarrow> 'd exec_fn \<Rightarrow> 'd sys \<Rightarrow> int \<times> 'd sys" where
  "ena_rss_init P exec s =
    (if \<not> feature_supported ENA_ADMIN_RSS_INDIRECTION_TABLE_CONFIG (ad s) then (- EOPNOTSUPP, s)
     else if host_ind_table (rss s) \<noteq> [] \<and> ind_table (rss s) \<noteq> [] then (0, s)
     else
       let s = rss_upd (ind_table_size_update (\<lambda>_. ENA_ADMIN_RSS_IND_TABLE_NUM_ENTRIES)) s;
           s = ena_rss_query_ind_table_limits exec s;
           n = unat (ind_table_size (rss s))
       in case p_calloc P (n * 2) (dev s) of (ok, d) \<Rightarrow>
         let s = s\<lparr> dev := d \<rparr> in
         if \<not> ok then (- ENOMEM, rss_upd (host_ind_table_update (\<lambda>_. [])) s)
         else
           case dma_alloc P (n * 4) s of
             (None, s) \<Rightarrow> (- ENOMEM, rss_upd (\<lambda>r. r\<lparr> host_ind_table := [], ind_table := [] \<rparr>) s)
           | (Some pa, s) \<Rightarrow>
             let s = rss_upd (\<lambda>r. r\<lparr> host_ind_table := replicate n 0, ind_table := replicate n 0,
                                   ind_table_phys := pa \<rparr>) s
             in and_then (rss_alloc_key P s) (\<lambda>s.
                and_then (rss_alloc_ctrl P s) (\<lambda>s.
                  (0, rss_upd (rss_supported_update (\<lambda>_. True)) s))))"

subsection \<open>Setting the hash key, the hash inputs and the table\<close>

definition ena_rss_set_hash_key :: "'d exec_fn \<Rightarrow> u8 list option \<Rightarrow> 'd sys \<Rightarrow> int \<times> 'd sys" where
  "ena_rss_set_hash_key exec key s =
    (if hash_key (rss s) = [] then (- EINVAL, s)
     else if (case key of None \<Rightarrow> False | Some k \<Rightarrow> length k \<noteq> length default_toeplitz_key) then (- EINVAL, s)
     else
       let k = (case key of None \<Rightarrow> default_toeplitz_key | Some k \<Rightarrow> k);
           s = rss_upd (hash_key_update (\<lambda>_. le32 ENA_ADMIN_RSS_KEY_PARTS @ le32 0 @ k)) s;
           req = feat_request (ctrl_buff_bytes 48 (hash_key_phys (rss s))) ENA_ADMIN_RSS_HASH_FUNCTION
                   (le32 0 @ le32 2 @ le32 0)
       in case ena_rss_exec exec ENA_ADMIN_SET_FEATURE req 0 s of (ret, _, s) \<Rightarrow> (ret, s))"

text \<open>Protocol indices and field masks of the selected hash inputs (second block of sixteen).\<close>

definition hash_ctrl_selected :: "u16 list" where
  "hash_ctrl_selected =
    (let f4 = 0x08 OR 0x04 OR 0x20 OR 0x10; f2 = 0x08 OR 0x04
     in (replicate 64 0)[16 + 0 := f4, 16 + 1 := f4, 16 + 4 := f2, 16 + 6 := f2])"

definition ena_rss_set_hash_ctrl :: "'d exec_fn \<Rightarrow> 'd sys \<Rightarrow> int \<times> 'd sys" where
  "ena_rss_set_hash_ctrl exec s =
    (if hash_ctrl (rss s) = [] then (- EINVAL, s)
     else
       let s = rss_upd (hash_ctrl_update (\<lambda>_. hash_ctrl_selected)) s;
           req = feat_request (ctrl_buff_bytes 256 (hash_ctrl_phys (rss s))) ENA_ADMIN_RSS_HASH_INPUT
                   (le16 0 @ le16 (0x02 OR 0x04))
       in case ena_rss_exec exec ENA_ADMIN_SET_FEATURE req 0 s of (ret, _, s) \<Rightarrow> (ret, s))"

text \<open>Trailing zero count, as the compiler builtin gives it for a non-zero argument.\<close>

fun ctz :: "nat \<Rightarrow> nat" where
  "ctz n = (if n = 0 \<or> odd n then 0 else Suc (ctz (n div 2)))"

declare ctz.simps [simp del]

definition table_sq_idx :: "ena_ring option list \<Rightarrow> u16 \<Rightarrow> u16" where
  "table_sq_idx rings q = (case ring_at rings (unat q) of None \<Rightarrow> q | Some r \<Rightarrow> sq_idx r)"

definition fill_ind_table :: "ena_ring option list \<Rightarrow> u16 \<Rightarrow> ena_rss_info \<Rightarrow> ena_rss_info" where
  "fill_ind_table rings num r =
    (let qs = map (\<lambda>i. of_nat i mod num) [0..<unat (ind_table_size r)]
     in r\<lparr> host_ind_table := qs, ind_table := map (table_sq_idx rings) qs \<rparr>)"

definition ind_table_set_request :: "ena_rss_info \<Rightarrow> u8 list" where
  "ind_table_set_request r = ind_table_request
     (ctrl_buff_bytes (ucast (ind_table_size r) * 4) (ind_table_phys r))
     (of_nat (ctz (unat (ind_table_size r)))) 0xFFFFFFFF"

definition ena_rss_set_ind_table :: "'d exec_fn \<Rightarrow> u16 \<Rightarrow> 'd sys \<Rightarrow> int \<times> 'd sys" where
  "ena_rss_set_ind_table exec num s =
    (if num = 0 \<or> ind_table (rss s) = [] \<or> host_ind_table (rss s) = [] \<or> ind_table_size (rss s) = 0
     then (- EINVAL, s)
     else
       let s = rss_upd (fill_ind_table (rx_rings (ad s)) num) s
       in case ena_rss_exec exec ENA_ADMIN_SET_FEATURE (ind_table_set_request (rss s)) 0 s of
            (ret, _, s) \<Rightarrow> (ret, s))"

definition ena_rss_readback_ind_table :: "'d platform \<Rightarrow> 'd exec_fn \<Rightarrow> 'd sys \<Rightarrow> 'd sys" where
  "ena_rss_readback_ind_table P exec s =
    (if ind_table (rss s) = [] \<or> ind_table_size (rss s) = 0 then s
     else case ena_rss_exec exec ENA_ADMIN_GET_FEATURE (ind_table_set_request (rss s)) 16 s of
       (ret, _, s) \<Rightarrow>
       (case p_ind_dma P (ind_table (rss s)) (dev s) of (t, d) \<Rightarrow>
          rss_upd (ind_table_update (\<lambda>_. t)) (s\<lparr> dev := d \<rparr>)))"

definition ena_rss_configure :: "'d platform \<Rightarrow> 'd exec_fn \<Rightarrow> u16 \<Rightarrow> 'd sys \<Rightarrow> int \<times> 'd sys" where
  "ena_rss_configure P exec num s =
    (if num = 0 then (- EINVAL, s)
     else
       and_then (ena_rss_init P exec s) (\<lambda>s.
       and_then (if feature_supported ENA_ADMIN_RSS_HASH_FUNCTION (ad s)
                 then ena_rss_set_hash_key exec None s else (0, s)) (\<lambda>s.
       and_then (if feature_supported ENA_ADMIN_RSS_HASH_INPUT (ad s)
                 then ena_rss_set_hash_ctrl exec s else (0, s)) (\<lambda>s.
       and_then (ena_rss_set_ind_table exec num s) (\<lambda>s.
         (0, rss_upd (rss_enabled_update (\<lambda>_. True)) (ena_rss_readback_ind_table P exec s)))))))"

end
