(* ===== verification/Ena_Recover.thy ===== *)
theory Ena_Recover
  imports Ena_Rss
begin

text \<open>
  Reset and recovery (\<^verbatim>\<open>src/src/ena_admin.c\<close>): resetting the software state of the rings,
  re-creating the hardware queues, re-applying the device settings, executing an admin
  command with recovery after a time-out, and the default event handler.

  Executing a command and recovering call each other: a command that times out recovers the
  device, and the recovery issues commands.  The flag that a recovery is running cuts this
  off.  The functions below take what they call as an argument; the knot is tied at the end
  with the recovery that refuses to nest, and the theory of their laws shows that this is a
  solution of the equations of the code.
\<close>

subsection \<open>Resetting rings\<close>

definition tx_slot_drop :: "ena_tx_buffer \<Rightarrow> ena_tx_buffer" where
  "tx_slot_drop b = (if tb_netbuf b = None then b else tx_buffer_zero)"

definition rx_slot_drop :: "ena_rx_buffer \<Rightarrow> ena_rx_buffer" where
  "rx_slot_drop b = (if rb_netbuf b = None then b else rx_buffer_zero)"

definition opt_list :: "'a option \<Rightarrow> 'a list" where
  "opt_list x = (case x of None \<Rightarrow> [] | Some a \<Rightarrow> [a])"

text \<open>The buffers the slots hold, in slot order, and the ring with these slots cleared.\<close>

definition ring_drop_bufs :: "ena_ring \<Rightarrow> netbuf list \<times> ena_ring" where
  "ring_drop_bufs r =
    (let d = unat (sq_depth r) in
     if ring_type r = ENA_RING_TYPE_TX
     then (concat (map (opt_list \<circ> tb_netbuf) (take d (tx_bufs r))),
           r\<lparr> tx_bufs := map tx_slot_drop (take d (tx_bufs r)) @ drop d (tx_bufs r) \<rparr>)
     else (concat (map (opt_list \<circ> rb_netbuf) (take d (rx_bufs r))),
           r\<lparr> rx_bufs := map rx_slot_drop (take d (rx_bufs r)) @ drop d (rx_bufs r) \<rparr>))"

definition zero_prefix :: "nat \<Rightarrow> u8 list \<Rightarrow> u8 list" where
  "zero_prefix d xs = (if xs = [] then [] else replicate d 0 @ drop d xs)"

definition ena_ring_reset_sw_state :: "ena_ring \<Rightarrow> netbuf list \<times> ena_ring" where
  "ena_ring_reset_sw_state r =
    (let d = unat (sq_depth r);
         r = r\<lparr> hw_valid := False, sq_tail := 0, sq_head := 0, cq_head := 0, sq_phase := 1,
                cq_phase := 1, sq_idx := 0, cq_idx := 0, sq_db := None, cq_db := None \<rparr>
     in case ring_drop_bufs r of (fs, r) \<Rightarrow>
       let r = (if free_req_ids r \<noteq> []
                then r\<lparr> free_req_ids := map of_nat [0..<d] @ drop d (free_req_ids r), free_req_head := 0,
                        free_req_tail := 0, free_req_count := sq_depth r \<rparr>
                else r)
       in (fs, r\<lparr> req_in_flight := zero_prefix d (req_in_flight r),
                  req_allocated := zero_prefix d (req_allocated r), tx_foreign_count := 0 \<rparr>))"

text \<open>All rings of one direction up to the configured number.\<close>

definition reset_rings :: "nat \<Rightarrow> ena_ring option list \<Rightarrow> netbuf list \<times> ena_ring option list" where
  "reset_rings n rs =
    (concat (map (\<lambda>x. case x of None \<Rightarrow> [] | Some r \<Rightarrow> fst (ena_ring_reset_sw_state r)) (take n rs)),
     map (map_option (\<lambda>r. snd (ena_ring_reset_sw_state r))) (take n rs) @ drop n rs)"

definition ena_adapter_invalidate_io_rings :: "'d sys \<Rightarrow> 'd sys" where
  "ena_adapter_invalidate_io_rings s =
    (let a = ad s;
         tx = reset_rings (unat (num_tx_rings a)) (tx_rings a);
         rx = reset_rings (unat (num_rx_rings a)) (rx_rings a)
     in s\<lparr> ad := a\<lparr> tx_rings := snd tx, rx_rings := snd rx \<rparr>, freed := freed s @ fst tx @ fst rx \<rparr>)"

subsection \<open>Re-creating the queues\<close>

definition first_error :: "int \<Rightarrow> int \<Rightarrow> int" where
  "first_error ret r = (if r \<noteq> 0 \<and> ret = 0 then r else ret)"

definition apply_db :: "'d platform \<Rightarrow> (u32 \<times> u32) list \<Rightarrow> 'd \<Rightarrow> 'd" where
  "apply_db P ws d = fold (\<lambda>(off, v). p_write32 P off v) ws d"

text \<open>Refilling the receive ring of a queue through its own queue object.\<close>

definition refill_queue :: "'d platform \<Rightarrow> nat \<Rightarrow> u32 \<Rightarrow> 'd sys \<Rightarrow> int \<times> 'd sys" where
  "refill_queue P q cnt s =
    (case ring_of ENA_RING_TYPE_RX q s of
       None \<Rightarrow> (- EINVAL, s)
     | Some r \<Rightarrow>
       if q < length (rxqs s) then
         (case ena_rx_refill (p_rx_alloc P) cnt r (rxqs s ! q) (dev s) of (rc, r', rq, d, fs, db) \<Rightarrow>
            (rc, ring_upd ENA_RING_TYPE_RX q (\<lambda>_. r')
              (s\<lparr> rxqs := (rxqs s)[q := rq], dev := apply_db P db d, freed := freed s @ fs \<rparr>)))
       else (- EINVAL, s))"

definition queue_vector :: "nat \<Rightarrow> 'd sys \<Rightarrow> u32" where
  "queue_vector q s = (if irq_vectors (ad s) \<noteq> [] then of_nat (q + 1) else 0)"

fun recover_tx_loop :: "'d exec_fn \<Rightarrow> nat list \<Rightarrow> int \<Rightarrow> nat \<Rightarrow> 'd sys \<Rightarrow> int \<times> nat \<times> 'd sys" where
  "recover_tx_loop exec [] ret n s = (ret, n, s)"
| "recover_tx_loop exec (q # qs) ret n s =
    (case ring_of ENA_RING_TYPE_TX q s of
       None \<Rightarrow> recover_tx_loop exec qs ret n s
     | Some r \<Rightarrow>
       if hw_valid r then recover_tx_loop exec qs ret n s
       else case ena_ring_create_hw exec ENA_RING_TYPE_TX q (queue_vector q s) s of (rc, s) \<Rightarrow>
         if rc \<noteq> 0 then recover_tx_loop exec qs (first_error ret rc) n s
         else recover_tx_loop exec qs ret (Suc n) s)"

definition recover_refill :: "'d platform \<Rightarrow> nat \<Rightarrow> 'd sys \<Rightarrow> 'd sys" where
  "recover_refill P q s =
    (case ring_of ENA_RING_TYPE_RX q s of
       None \<Rightarrow> s
     | Some r \<Rightarrow> if q = 0 \<and> refill_netbuf r then snd (refill_queue P q (ucast (sq_depth r) - 1) s) else s)"

fun recover_rx_loop :: "'d platform \<Rightarrow> 'd exec_fn \<Rightarrow> nat list \<Rightarrow> int \<Rightarrow> nat \<Rightarrow> 'd sys \<Rightarrow> int \<times> nat \<times> 'd sys" where
  "recover_rx_loop P exec [] ret n s = (ret, n, s)"
| "recover_rx_loop P exec (q # qs) ret n s =
    (case ring_of ENA_RING_TYPE_RX q s of
       None \<Rightarrow> recover_rx_loop P exec qs ret n s
     | Some r \<Rightarrow>
       if hw_valid r then recover_rx_loop P exec qs ret n s
       else case ena_ring_create_hw exec ENA_RING_TYPE_RX q (queue_vector q s) s of (rc, s) \<Rightarrow>
         if rc \<noteq> 0 then recover_rx_loop P exec qs (first_error ret rc) n s
         else recover_rx_loop P exec qs ret (Suc n) (recover_refill P q s))"

definition ena_init_reapply_device_features :: "'d platform \<Rightarrow> 'd exec_fn \<Rightarrow> 'd sys \<Rightarrow> int \<times> 'd sys" where
  "ena_init_reapply_device_features P exec s =
    (case ena_init_get_device_attributes exec s of (r, s) \<Rightarrow>
       let ret = first_error 0 r in
     case (if ad_mtu (ad s) \<noteq> 0 then ena_init_set_mtu exec (ad_mtu (ad s)) s else (0, s)) of (r, s) \<Rightarrow>
       let ret = first_error ret r in
     case (if aenq_enabled_groups (ad s) \<noteq> 0 then ena_init_config_aenq exec s else (0, s)) of (r, s) \<Rightarrow>
       let ret = first_error ret r in
     case (if 1 < num_rx_rings (ad s) then ena_rss_configure P exec (num_rx_rings (ad s)) s else (0, s)) of (r, s) \<Rightarrow>
       (first_error ret r, s))"

definition ena_adapter_recover_io_rings :: "'d platform \<Rightarrow> 'd exec_fn \<Rightarrow> 'd sys \<Rightarrow> int \<times> 'd sys" where
  "ena_adapter_recover_io_rings P exec s =
    (case recover_tx_loop exec [0..<unat (num_tx_rings (ad s))] 0 0 s of (ret, txn, s) \<Rightarrow>
     case recover_rx_loop P exec [0..<unat (num_rx_rings (ad s))] ret 0 s of (ret, rxn, s) \<Rightarrow>
       if txn \<noteq> 0 \<or> rxn \<noteq> 0 then
         (case ena_init_reapply_device_features P exec s of (fret, s) \<Rightarrow> (first_error ret fret, s))
       else (ret, s))"

subsection \<open>Reset, recovery and command execution\<close>

definition ena_adapter_has_io_rings :: "ena_adapter \<Rightarrow> bool" where
  "ena_adapter_has_io_rings a \<longleftrightarrow>
    (\<exists>r\<in>set (take (unat (num_tx_rings a)) (tx_rings a)). r \<noteq> None) \<or>
    (\<exists>r\<in>set (take (unat (num_rx_rings a)) (rx_rings a)). r \<noteq> None)"

definition depth_or_32 :: "u16 \<Rightarrow> u16" where
  "depth_or_32 d = (if d \<noteq> 0 then d else 32)"

abbreviation set_active :: "bool \<Rightarrow> 'd sys \<Rightarrow> 'd sys" where
  "set_active b \<equiv> ad_update (recover_active_update (\<lambda>_. b))"

text \<open>The part under the admin lock: reset the device and build fresh admin queues.\<close>

definition reset_admin :: "'d platform \<Rightarrow> 'd sys \<Rightarrow> int \<times> 'd sys" where
  "reset_admin P s =
    (let handler = aenq_handler (ad s);
         s = ad_update (ad_state_update (\<lambda>_. ENA_STATE_ERROR)) s;
         s = ena_adapter_invalidate_io_rings s;
         s = snd (ena_device_reset P s)
     in case ena_device_wait_reset_complete P 1000 s of (rret, s) \<Rightarrow>
       if rret \<noteq> 0 then (rret, s)
       else case ena_admin_init P (depth_or_32 (aq_depth (ad s))) (depth_or_32 (acq_depth (ad s)))
                   (depth_or_32 (aenq_depth (ad s))) s of (iret, s) \<Rightarrow>
         if iret \<noteq> 0 then (iret, s)
         else (0, if handler then snd (ena_admin_aenq_register s) else s))"

definition reset_and_recover_with :: "'d platform \<Rightarrow> 'd exec_fn \<Rightarrow> 'd sys \<Rightarrow> int \<times> 'd sys" where
  "reset_and_recover_with P exec s =
    (if recover_active (ad s) then (- EBUSY, s)
     else case reset_admin P (set_active True s) of (rret, s) \<Rightarrow>
       if rret \<noteq> 0 then (rret, set_active False s)
       else
         let s = (if \<not> ena_adapter_has_io_rings (ad s) \<and> aenq_enabled_groups (ad s) \<noteq> 0
                  then snd (ena_init_config_aenq exec s) else s)
         in case ena_adapter_recover_io_rings P exec s of (rret, s) \<Rightarrow> (rret, set_active False s))"

definition exec_cmd_with :: "'d platform \<Rightarrow> ('d sys \<Rightarrow> int \<times> 'd sys) \<Rightarrow> 'd exec_fn" where
  "exec_cmd_with P recov opcode req cap max_polls s =
    (if aq_mem (ad s) = [] \<or> acq_mem (ad s) = [] then (- EINVAL, [], None, s)
     else if ad_state (ad s) = ENA_STATE_ERROR then (- ENODEV, [], None, s)
     else case ena_admin_exec_locked P opcode req cap max_polls s of (ret, resp, cid, s) \<Rightarrow>
       (ret, resp, cid, if ret = - ETIMEDOUT then snd (recov s) else s))"

definition exec_in_recovery :: "'d platform \<Rightarrow> 'd exec_fn" where
  "exec_in_recovery P = exec_cmd_with P (\<lambda>s. (- EBUSY, s))"

definition ena_adapter_reset_and_recover :: "'d platform \<Rightarrow> 'd sys \<Rightarrow> int \<times> 'd sys" where
  "ena_adapter_reset_and_recover P = reset_and_recover_with P (exec_in_recovery P)"

definition ena_admin_exec_cmd :: "'d platform \<Rightarrow> 'd exec_fn" where
  "ena_admin_exec_cmd P = exec_cmd_with P (ena_adapter_reset_and_recover P)"

subsection \<open>Events and statistics\<close>

definition keep_alive_drops :: "ena_admin_aenq_entry \<Rightarrow> nat \<Rightarrow> u64" where
  "keep_alive_drops e i = push_bit 32 (ucast (aenq_inline_data_w4 e ! (i + 1))) OR ucast (aenq_inline_data_w4 e ! i)"

definition ena_aenq_default_handler :: "'d platform \<Rightarrow> 'd aenq_handler_fn" where
  "ena_aenq_default_handler P grp syndrome entry s =
    (if grp = 1 then ena_adapter_reset_and_recover P s
     else if grp = 0 then
       (0, ad_update (link_up_update (\<lambda>_. aenq_inline_data_w4 entry ! 0 AND 1 \<noteq> 0)) s)
     else if grp = 4 then
       (0, ad_update (\<lambda>a. a\<lparr> aen_keepalives := aen_keepalives a + 1,
          aen_rx_drops := keep_alive_drops entry 0, aen_tx_drops := keep_alive_drops entry 2 \<rparr>) s)
     else (0, s))"

definition ena_admin_get_device_attr :: "'d platform \<Rightarrow> 'd sys \<Rightarrow> int \<times> u8 list \<times> 'd sys" where
  "ena_admin_get_device_attr P s =
    (case ena_admin_exec_cmd P ENA_ADMIN_GET_FEATURE
            (replicate 12 0 @ [1, ENA_ADMIN_DEVICE_ATTRIBUTES, 0, 0] @ replicate 44 0) 56 100 s of
       (ret, resp, _, s) \<Rightarrow> if ret \<noteq> 0 then (ret, [], s) else (0, take 36 resp, s))"

definition get_stats_request :: "u8 \<Rightarrow> u8 list" where
  "get_stats_request ty = replicate 12 0 @ [ty, 1] @ le16 0 @ le16 0 @ le16 0xFFFF @ le32 0 @ le32 0"

definition ena_admin_exec_get_stats :: "'d platform \<Rightarrow> u8 \<Rightarrow> 'd sys \<Rightarrow> int \<times> u8 list \<times> 'd sys" where
  "ena_admin_exec_get_stats P ty s =
    (case ena_admin_exec_cmd P ENA_ADMIN_GET_STATS (get_stats_request ty) 56 100 s of
       (ret, resp, _, s) \<Rightarrow> (ret, resp, s))"

definition ena_admin_get_basic_stats :: "'d platform \<Rightarrow> 'd sys \<Rightarrow> int \<times> u8 list \<times> 'd sys" where
  "ena_admin_get_basic_stats P s =
    (case ena_admin_exec_get_stats P 0 s of (ret, resp, s) \<Rightarrow>
       if ret \<noteq> 0 then (ret, [], s) else (0, take 48 resp, s))"

definition ena_admin_get_eni_stats :: "'d platform \<Rightarrow> 'd sys \<Rightarrow> int \<times> u8 list \<times> 'd sys" where
  "ena_admin_get_eni_stats P s =
    (case ena_admin_exec_get_stats P 2 s of (ret, resp, s) \<Rightarrow>
       if ret \<noteq> 0 then (ret, [], s) else (0, take 40 resp, s))"

end
