(* ===== verification/Ena_Admin_Facts.thy ===== *)
theory Ena_Admin_Facts
  imports Ena_Admin
begin

text \<open>
  Laws of the admin queues: the invariant of the three queues, what a completed command
  returns, the cycle of command ids, and the layout of the submitted entry.
\<close>

subsection \<open>Command ids\<close>

definition command_id_ok :: "u16 \<Rightarrow> bool" where
  "command_id_ok c \<longleftrightarrow> 1 \<le> unat c \<and> unat c \<le> 4095"

lemma u16_and_0xFFF: "unat (c AND 0xFFF) = unat c mod 4096" for c :: u16
proof -
  have "(0xFFF :: u16) = 4096 - 1" by simp
  moreover have "pow2 (unat (4096 :: u16))" by (simp add: pow2_def exI [of _ 12])
  ultimately show ?thesis using unat_and_pred [of "4096 :: u16" c] by simp
qed

lemma unat_command_id_after:
  assumes "command_id_ok c"
  shows "unat (command_id_after c) = unat c mod 4095 + 1"
proof -
  have s: "unat (c + 1) = unat c + 1" using assms by (simp add: command_id_ok_def unat_Suc_u16)
  show ?thesis
  proof (cases "unat c = 4095")
    case True
    then have "unat ((c + 1) AND 0xFFF) = 0" by (simp add: u16_and_0xFFF s)
    then have "(c + 1) AND 0xFFF = 0" by (simp add: unat_eq_0)
    with True show ?thesis by (simp add: command_id_after_def ENA_ADMIN_COMMAND_ID_MASK_def)
  next
    case False
    then have n: "unat ((c + 1) AND 0xFFF) = unat c + 1"
      using assms by (simp add: u16_and_0xFFF s command_id_ok_def)
    then have "(c + 1) AND 0xFFF \<noteq> 0" by (metis add_is_0 one_neq_zero unsigned_0)
    with n False assms show ?thesis
      by (simp add: command_id_after_def ENA_ADMIN_COMMAND_ID_MASK_def command_id_ok_def)
  qed
qed

lemma command_id_after_ok: "command_id_ok c \<Longrightarrow> command_id_ok (command_id_after c)"
  using mod_less_divisor [of 4095 "unat c"] by (simp add: unat_command_id_after command_id_ok_def)

lemma unat_command_id_iterate:
  "command_id_ok c \<Longrightarrow> unat ((command_id_after ^^ n) c) = (unat c - 1 + n) mod 4095 + 1 \<and>
     command_id_ok ((command_id_after ^^ n) c)"
proof (induction n)
  case 0
  then show ?case by (cases "unat c") (auto simp: command_id_ok_def)
next
  case (Suc n)
  then have "unat ((command_id_after ^^ Suc n) c) = ((unat c - 1 + n) mod 4095 + 1) mod 4095 + 1"
    by (simp add: unat_command_id_after)
  also have "\<dots> = (unat c - 1 + Suc n) mod 4095 + 1" by (simp add: mod_Suc_eq)
  finally show ?case using Suc by (simp add: command_id_after_ok)
qed

subsection \<open>The invariant\<close>

definition admin_ok :: "ena_adapter \<Rightarrow> bool" where
  "admin_ok a \<longleftrightarrow> aq.coherent a \<and> acq.coherent a \<and> aenq.coherent a \<and>
     length (aq_mem a) = unat (aq_depth a) * 64 \<and> length (acq_mem a) = unat (acq_depth a) \<and>
     length (aenq_mem a) = unat (aenq_depth a) \<and> command_id_ok (next_command_id a)"

text \<open>The device keeps the size of the memory it shares with the driver.\<close>

definition dma_keeps_size :: "'d platform \<Rightarrow> bool" where
  "dma_keeps_size P \<longleftrightarrow> (\<forall>aq m d. length (fst (p_acq_dma P aq m d)) = length m) \<and>
     (\<forall>m d. length (fst (p_aenq_dma P m d)) = length m)"

lemma ena_depth_ok_iff: "ena_depth_ok d \<longleftrightarrow> ring_depth d"
proof (cases "d = 0")
  case False
  then show ?thesis by (simp add: ena_depth_ok_def ring_depth_def and_pred_eq_0_word word_le_nat_alt)
qed (simp add: ena_depth_ok_def ring_depth_def)

lemma reg_write_ad [simp]: "ad (reg_write P off v s) = ad s"
  by (simp add: reg_write_def)

lemma reg_write_frame [simp]: "rxqs (reg_write P off v s) = rxqs s" "freed (reg_write P off v s) = freed s"
  by (simp_all add: reg_write_def)

lemma dma_free_frame [simp]: "ad (dma_free P pa s) = ad s" "rxqs (dma_free P pa s) = rxqs s"
    "freed (dma_free P pa s) = freed s"
  by (simp_all add: dma_free_def)

lemma free_queue_frame [simp]: "ad (free_queue P b pa s) = ad s" "rxqs (free_queue P b pa s) = rxqs s"
    "freed (free_queue P b pa s) = freed s"
  by (simp_all add: free_queue_def)

lemma dma_alloc_frame:
  assumes "dma_alloc P n s = (x, s')"
  shows "ad s' = ad s" "rxqs s' = rxqs s" "freed s' = freed s"
  using assms by (auto simp: dma_alloc_def split: prod.splits)

lemma reg_read_frame:
  assumes "reg_read P off s = (v, s')"
  shows "ad s' = ad s" "rxqs s' = rxqs s" "freed s' = freed s"
  using assms by (auto simp: reg_read_def split: prod.splits)

lemma publish_queues_ad [simp]: "ad (publish_queues P a b c x y z s) = ad s"
    "rxqs (publish_queues P a b c x y z s) = rxqs s" "freed (publish_queues P a b c x y z s) = freed s"
  by (simp_all add: publish_queues_def Let_def)

lemma phase_at_full: "ring_depth d \<Longrightarrow> phase_at 0 d d = 1"
  using phase_at_lap [of d 0 0] by simp

lemma admin_queues_fresh_ok:
  "ring_depth aqd \<Longrightarrow> ring_depth acqd \<Longrightarrow> ring_depth aenqd \<Longrightarrow>
    admin_ok (admin_queues_fresh aqp acqp aenqp aqd acqd aenqd a)"
  by (simp add: admin_ok_def admin_queues_fresh_def aq.coherent_def acq.coherent_def aenq.coherent_def
      phase_at_full command_id_ok_def)

lemma admin_ok_cong:
  assumes "admin_ok a" and "aq_depth b = aq_depth a" "aq_tail b = aq_tail a" "aq_phase b = aq_phase a"
    "acq_depth b = acq_depth a" "acq_head b = acq_head a" "acq_phase b = acq_phase a"
    "aenq_depth b = aenq_depth a" "aenq_head b = aenq_head a" "aenq_phase b = aenq_phase a"
    "length (aq_mem b) = length (aq_mem a)" "length (acq_mem b) = length (acq_mem a)"
    "length (aenq_mem b) = length (aenq_mem a)" "next_command_id b = next_command_id a"
  shows "admin_ok b"
  using assms by (simp add: admin_ok_def aq.coherent_def acq.coherent_def aenq.coherent_def)

lemma admin_init_cases:
  assumes "ena_admin_init P aqd acqd aenqd s = (rc, s')"
  obtains (bad) "rc \<noteq> 0" "rc \<in> {- EINVAL, - ENOMEM}"
      "ad s' = ad s \<or> (aq_mem (ad s') = [] \<and> acq_mem (ad s') = [] \<and> aenq_mem (ad s') = [])"
  | (good) aqp acqp aenqp a where "rc = 0" "bar0_base (ad s)" "ring_depth aqd" "ring_depth acqd" "ring_depth aenqd"
      "ad s' = (admin_queues_fresh aqp acqp aenqp aqd acqd aenqd a)\<lparr> ad_state := ENA_STATE_ADMIN_READY \<rparr>"
      "a = ad s \<or> a = ad (ena_admin_fini P s)"
proof -
  let ?b = "aq_mem (ad s) \<noteq> [] \<or> acq_mem (ad s) \<noteq> [] \<or> aenq_mem (ad s) \<noteq> []"
  define t where "t = (if ?b then ena_admin_fini P s else s)"
  have e: "aq_mem (ad t) = [] \<and> acq_mem (ad t) = [] \<and> aenq_mem (ad t) = []"
    by (auto simp: t_def ena_admin_fini_def Let_def)
  have ta: "ad t = ad s \<or> ad t = ad (ena_admin_fini P s)" by (simp add: t_def)
  note d = assms [unfolded ena_admin_init_def Let_def t_def [symmetric] ena_depth_ok_iff]
  show thesis
  proof (cases "bar0_base (ad s) \<and> ring_depth aqd \<and> ring_depth acqd \<and> ring_depth aenqd")
    case False
    with d have "rc = - EINVAL" "ad s' = ad s \<or> ad s' = ad t" by (auto split: if_splits)
    with e show ?thesis by (intro bad) (auto simp: EINVAL_def)
  next
    case True
    obtain x1 s1 where a1: "dma_alloc P (unat aqd * 64) t = (x1, s1)" by fastforce
    obtain x2 s2 where a2: "dma_alloc P (unat acqd * 64) s1 = (x2, s2)" by fastforce
    obtain x3 s3 where a3: "dma_alloc P (unat aenqd * 64) s2 = (x3, s3)" by fastforce
    note f = dma_alloc_frame(1) [OF a1] dma_alloc_frame(1) [OF a2] dma_alloc_frame(1) [OF a3]
    show ?thesis
    proof (cases "x1 = None \<or> x2 = None \<or> x3 = None")
      case True2: True
      with d True a1 a2 a3 f have "rc = - ENOMEM" "ad s' = ad t" by (auto split: option.splits)
      with e show ?thesis by (intro bad) (auto simp: ENOMEM_def)
    next
      case False
      then obtain p1 p2 p3 where "x1 = Some p1" "x2 = Some p2" "x3 = Some p3" by auto
      with d True a1 a2 a3 f have "rc = 0" and s': "ad s' =
          (admin_queues_fresh p1 p2 p3 aqd acqd aenqd (ad t))\<lparr> ad_state := ENA_STATE_ADMIN_READY \<rparr>"
        by auto
      with True ta show ?thesis by (intro good [of p1 p2 p3 "ad t"]) auto
    qed
  qed
qed

lemma admin_init_ok: "ena_admin_init P aqd acqd aenqd s = (0, s') \<Longrightarrow> admin_ok (ad s')"
proof (erule admin_init_cases)
  fix aqp acqp aenqp a
  assume d: "ring_depth aqd" "ring_depth acqd" "ring_depth aenqd"
    and s': "ad s' = (admin_queues_fresh aqp acqp aenqp aqd acqd aenqd a)\<lparr> ad_state := ENA_STATE_ADMIN_READY \<rparr>"
  show "admin_ok (ad s')" unfolding s' by (rule admin_ok_cong [OF admin_queues_fresh_ok [OF d]]) simp_all
qed simp

subsection \<open>Submitting and waiting\<close>

lemma even_unat: "even (unat w) \<longleftrightarrow> even w" for w :: "'a::len word"
proof -
  have "bit (unat w) 0 \<longleftrightarrow> bit w 0" by (simp add: bit_unsigned_iff del: bit_0)
  then show ?thesis by (simp add: bit_0)
qed

lemma wrap_phase:
  assumes "acq.coherent a"
  shows "1 XOR ucast ((acq_head a div acq_depth a) AND 1) = acq_phase a"
proof -
  have "even (acq_head a div acq_depth a) \<longleftrightarrow> even (unat (acq_head a) div unat (acq_depth a))"
    by (simp flip: even_unat add: unat_div_distrib)
  with assms show ?thesis by (simp add: acq.coherent_def phase_at_def and_one_eq mod_2_eq_odd)
qed

text \<open>Submitting changes the submission side only; a wrap also clears the completion slot.\<close>

definition acq_cleared :: "u16 \<Rightarrow> ena_adapter \<Rightarrow> ena_admin_acq_entry list" where
  "acq_cleared cmd a = (if cmd = 1 \<and> 0 < acq_head a
     then (acq_mem a)[unat (acq_head a AND (acq_depth a - 1)) := acq_entry_zero] else acq_mem a)"

lemma acq_phase_same: "acq_phase a = p \<Longrightarrow> a\<lparr> acq_phase := p \<rparr> = a"
  by (rule ena_adapter.equality) simp_all

lemma acq_wrap_ad:
  assumes "acq.coherent (ad s)"
  shows "ad (acq_wrap P cmd s) = (ad s)\<lparr> acq_mem := acq_cleared cmd (ad s) \<rparr>"
proof (cases "cmd = 1 \<and> 0 < acq_head (ad s)")
  case True
  define t where "t = ad_update (\<lambda>a. a\<lparr> acq_phase := 1 XOR ucast ((acq_head a div acq_depth a) AND 1) \<rparr>) s"
  have t: "ad t = ad s" by (simp add: t_def acq_phase_same [OF wrap_phase [OF assms, symmetric]])
  have "0 < acq_depth (ad s)" using assms by (simp add: acq.coherent_def word_less_nat_alt)
  then have "acq_wrap P cmd s = ad_update (\<lambda>a. a\<lparr> acq_mem :=
      (acq_mem a)[unat (acq_head a AND (acq_depth a - 1)) := acq_entry_zero] \<rparr>)
      (reg_write P ENA_REGS_ACQ_TAIL_OFF (ucast (acq_head (ad t))) t)"
    using True unfolding acq_wrap_def Let_def t_def by simp
  then show ?thesis using True t by (simp add: acq_cleared_def)
next
  case False
  then have "acq_wrap P cmd s = s" "acq_cleared cmd (ad s) = acq_mem (ad s)"
    by (simp_all only: acq_wrap_def acq_cleared_def if_False)
  then show ?thesis by simp
qed

text \<open>The adapter after a submission, field by field.\<close>

lemma aq_build_entry_eq: "\<exists>m. aq_build_entry opcode req cmd a = a\<lparr> aq_mem := m \<rparr>"
  by (simp add: aq_build_entry_def Let_def) blast

lemma aq_submit_ad:
  assumes "acq.coherent (ad s)"
  shows "ad (aq_submit P opcode req cmd s) = aq_advance
    ((ad s)\<lparr> next_command_id := command_id_after cmd, aq_mem := aq_mem (aq_build_entry opcode req cmd (ad s)),
       acq_mem := acq_cleared cmd (ad s) \<rparr>)"
proof -
  define s1 where "s1 = ad_update (\<lambda>a. a\<lparr> next_command_id := command_id_after cmd \<rparr>) s"
  define s2 where "s2 = ad_update (aq_build_entry opcode req cmd) s1"
  have "ad s1 = (ad s)\<lparr> next_command_id := command_id_after cmd \<rparr>" by (simp add: s1_def)
  then have a2: "ad s2 = (ad s)\<lparr> next_command_id := command_id_after cmd,
      aq_mem := aq_mem (aq_build_entry opcode req cmd (ad s)) \<rparr>"
    by (simp add: s2_def aq_build_entry_def Let_def)
  have c: "acq_cleared cmd (ad s2) = acq_cleared cmd (ad s)" by (simp add: a2 acq_cleared_def)
  have "acq.coherent (ad s2)" using assms by (simp add: a2 acq.coherent_def)
  note w = acq_wrap_ad [OF this, of P cmd, unfolded c, unfolded a2]
  show ?thesis
    unfolding aq_submit_def Let_def s1_def [symmetric] s2_def [symmetric] reg_write_ad by (simp add: w)
qed

subsection \<open>The submitted entry\<close>

lemma mem_write_in:
  assumes "length A = base" and "k + length bs \<le> length Z"
  shows "mem_write (base + k) bs (A @ Z @ B) = A @ mem_write k bs Z @ B"
  using assms by (simp add: mem_write_def)

lemma mem_write_at:
  assumes "length A = base" and "length bs \<le> length Z"
  shows "mem_write base bs (A @ Z @ B) = A @ mem_write 0 bs Z @ B"
  using mem_write_in [of A base 0 bs Z B] assms by simp

lemma mem_write_split:
  assumes "base + length bs \<le> length m"
  shows "mem_write base bs m = take base m @ bs @ drop (base + length bs) m"
  by (simp add: mem_write_def)

lemma get_append:
  assumes "length A = base"
  shows "get8 (A @ Z) (base + k) = get8 Z k" "get32 (A @ Z) (base + k) = get32 Z k"
  using assms by (simp_all add: get8_def get32_def nth_append add.assoc)

lemma get32_append: "k + 4 \<le> length Z \<Longrightarrow> get32 (Z @ B) k = get32 Z k"
  by (simp add: get32_def nth_append)

text \<open>The payload as the device reads it: 60 bytes behind the common descriptor.\<close>

definition aq_payload :: "u8 list \<Rightarrow> u8 list" where
  "aq_payload req = req @ replicate (60 - length req) 0"

lemma length_aq_payload [simp]: "length req \<le> 60 \<Longrightarrow> length (aq_payload req) = 60"
  by (simp add: aq_payload_def)

lemma aq_copy_request_eq:
  assumes "length req \<le> 60" and "base + 64 \<le> length m"
  shows "aq_copy_request base req m =
    take base m @ (replicate 4 0 @ aq_payload req) @ drop (base + 64) m"
proof -
  let ?A = "take base m" and ?B = "drop (base + 64) m"
  have z: "mem_write base (replicate 64 0) m = ?A @ replicate 64 0 @ ?B"
    using assms by (simp add: mem_write_split)
  have p: "mem_write 4 req (replicate 64 0) = replicate 4 0 @ aq_payload req"
    using assms(1) by (simp add: mem_write_def aq_payload_def)
  have w: "mem_write (base + 4) req (?A @ replicate 64 0 @ ?B) = ?A @ mem_write 4 req (replicate 64 0) @ ?B"
    using assms by (intro mem_write_in) simp_all
  have n: "?A @ replicate 64 0 @ ?B = ?A @ (replicate 4 0 @ aq_payload []) @ ?B"
    by (simp add: aq_payload_def flip: replicate_add append_assoc)
  show ?thesis
  proof (cases "req = []")
    case True
    have "aq_copy_request base [] m = ?A @ replicate 64 0 @ ?B" by (simp add: aq_copy_request_def z)
    with True n show ?thesis by (simp only:)
  next
    case False
    then show ?thesis using assms(1) by (simp add: aq_copy_request_def z w p)
  qed
qed

lemma aq_build_entry_mem:
  assumes "length req \<le> 60" and "base = unat (aq_tail a AND (aq_depth a - 1)) * 64"
    and "base + 64 \<le> length (aq_mem a)"
  shows "aq_mem (aq_build_entry opcode req cmd a) = take base (aq_mem a) @
    (le16 cmd @ [opcode, (if 0 < get32 (aq_payload req) 0 then 4 else 0) OR (aq_phase a AND 1)] @ aq_payload req) @
    drop (base + 64) (aq_mem a)"
proof -
  let ?A = "take base (aq_mem a)" and ?B = "drop (base + 64) (aq_mem a)"
  let ?Z = "replicate 4 0 @ aq_payload req"
  have l: "length ?A = base" using assms(3) by simp
  have "get32 (?A @ ?Z @ ?B) (base + 4) = get32 (?Z @ ?B) 4" by (rule get_append(2) [OF l])
  also have "\<dots> = get32 ?Z 4" using assms(1) by (intro get32_append) simp
  also have "\<dots> = get32 (aq_payload req) 0"
    using get_append(2) [of "replicate 4 0" 4 "aq_payload req" 0] by simp
  finally have g: "get32 (?A @ ?Z @ ?B) (base + 4) = get32 (aq_payload req) 0" .
  define fl where "fl = (if 0 < get32 (aq_payload req) 0 then 4 else 0) OR (aq_phase a AND 1)"
  have f: "aq_entry_flags base req (aq_phase a) (?A @ ?Z @ ?B) = fl"
    using assms(1) unfolding aq_entry_flags_def Let_def g by (simp add: ena_consts fl_def)
  have "mem_write base (le16 cmd @ [opcode, fl]) (?A @ ?Z @ ?B) = ?A @ mem_write 0 (le16 cmd @ [opcode, fl]) ?Z @ ?B"
    using assms(1) by (intro mem_write_at l) simp
  moreover have "mem_write 0 (le16 cmd @ [opcode, fl]) ?Z = le16 cmd @ [opcode, fl] @ aq_payload req"
    by (simp add: mem_write_def)
  ultimately show ?thesis
    unfolding fl_def [symmetric] using assms(1,3)
    by (simp add: aq_build_entry_def Let_def assms(2) [symmetric] aq_copy_request_eq f [simplified])
qed

lemma slot_bytes:
  assumes "admin_ok a"
  shows "unat (aq_tail a AND (aq_depth a - 1)) * 64 + 64 \<le> length (aq_mem a)"
proof -
  have "unat (aq_tail a AND (aq_depth a - 1)) < unat (aq_depth a)"
    using assms by (simp add: admin_ok_def aq.coherent_def)
  moreover have "length (aq_mem a) = unat (aq_depth a) * 64" using assms by (simp add: admin_ok_def)
  ultimately show ?thesis by simp
qed

lemma length_aq_build_entry:
  assumes "length req \<le> 60 \<or> 64 \<le> length req" and "admin_ok a"
  shows "length (aq_mem (aq_build_entry opcode req cmd a)) = length (aq_mem a)"
  using assms(1) slot_bytes [OF assms(2)] by (auto simp: aq_build_entry_def aq_copy_request_def Let_def)

subsection \<open>Executing a command\<close>

lemma acq_device_step_eq:
  "\<exists>m d. acq_device_step P s = s\<lparr> ad := (ad s)\<lparr> acq_mem := m \<rparr>, dev := d \<rparr> \<and>
     (dma_keeps_size P \<longrightarrow> length m = length (acq_mem (ad s)))"
proof -
  obtain m d where p: "p_acq_dma P (aq_mem (ad s)) (acq_mem (ad s)) (dev s) = (m, d)" by fastforce
  then have "dma_keeps_size P \<longrightarrow> length m = length (acq_mem (ad s))"
    by (metis dma_keeps_size_def fst_conv)
  with p show ?thesis by (auto simp: acq_device_step_def)
qed

lemma acq_mem_same: "s\<lparr> ad := (ad s)\<lparr> acq_mem := acq_mem (ad s) \<rparr>, dev := dev s \<rparr> = s"
proof -
  have "(ad s)\<lparr> acq_mem := acq_mem (ad s) \<rparr> = ad s" by (rule ena_adapter.equality) simp_all
  then show ?thesis by simp
qed

lemma acq_wait_eq:
  "acq_wait P n s = (b, s') \<Longrightarrow>
    \<exists>m d. s' = s\<lparr> ad := (ad s)\<lparr> acq_mem := m \<rparr>, dev := d \<rparr> \<and>
      (dma_keeps_size P \<longrightarrow> length m = length (acq_mem (ad s))) \<and>
      (b \<longrightarrow> acq_flags (acq_slot (ad s')) AND 1 = acq_phase (ad s))"
proof (induction n arbitrary: s)
  case 0
  then have "\<not> b" "s' = s\<lparr> ad := (ad s)\<lparr> acq_mem := acq_mem (ad s) \<rparr>, dev := dev s \<rparr>"
    unfolding acq_mem_same by simp_all
  then show ?case by blast
next
  case (Suc n)
  define t where "t = acq_device_step P s"
  from acq_device_step_eq [of P s, folded t_def]
  obtain m d where t: "t = s\<lparr> ad := (ad s)\<lparr> acq_mem := m \<rparr>, dev := d \<rparr>"
    and m: "dma_keeps_size P \<longrightarrow> length m = length (acq_mem (ad s))"
    by (elim exE conjE)
  from t have a: "acq_phase (ad t) = acq_phase (ad s)" "length (acq_mem (ad t)) = length m" by simp_all
  have w: "acq_wait P (Suc n) s =
      (if acq_flags (acq_slot (ad t)) AND 1 = acq_phase (ad s) then (True, t) else acq_wait P n t)"
    by (simp add: ENA_ADMIN_ACQ_PHASE_MASK_def Let_def a(1) flip: t_def)
  show ?case
  proof (cases "acq_flags (acq_slot (ad t)) AND 1 = acq_phase (ad s)")
    case True
    with Suc.prems w have "s' = t" by (simp only: if_True prod.inject simp_thms)
    with True m t show ?thesis by blast
  next
    case False
    with Suc.prems w have "acq_wait P n t = (b, s')" by (simp only: if_False)
    from Suc.IH [OF this] obtain m' d' where
      "s' = t\<lparr> ad := (ad t)\<lparr> acq_mem := m' \<rparr>, dev := d' \<rparr>" and m': "dma_keeps_size P \<longrightarrow> length m' = length m"
      and b: "b \<longrightarrow> acq_flags (acq_slot (ad s')) AND 1 = acq_phase (ad s)"
      unfolding a by blast
    then have "s' = s\<lparr> ad := (ad s)\<lparr> acq_mem := m' \<rparr>, dev := d' \<rparr>" by (simp add: t)
    with m m' b show ?thesis by metis
  qed
qed

lemma exec_locked_cases:
  assumes e: "ena_admin_exec_locked P opcode req cap polls s = (rc, resp, cid, s')"
    and u: "u = aq_submit P opcode req (command_id_of (ad s)) s"
  obtains (big) "64 < length req" "rc = - EINVAL" "resp = []" "cid = None" "s' = s"
  | (timeout) t m d where "length req \<le> 64" "rc = - ETIMEDOUT" "resp = []" "cid = None"
      "t = u\<lparr> ad := (ad u)\<lparr> acq_mem := m \<rparr>, dev := d \<rparr>"
      "s' = ad_update (ad_state_update (\<lambda>_. ENA_STATE_ERROR)) t"
      "dma_keeps_size P \<longrightarrow> length m = length (acq_mem (ad u))"
  | (answer) t m d where "length req \<le> 64"
      "t = u\<lparr> ad := (ad u)\<lparr> acq_mem := m \<rparr>, dev := d \<rparr>"
      "dma_keeps_size P \<longrightarrow> length m = length (acq_mem (ad u))"
      "acq_flags (acq_slot (ad t)) AND 1 = acq_phase (ad u)"
      "acq_consume P (command_id_of (ad s)) cap t = (rc, resp, cid, s')"
proof (cases "64 < length req")
  case True
  with e show thesis by (intro big) (simp_all add: ena_admin_exec_locked_def)
next
  case False
  obtain b t where w: "acq_wait P (if polls = 0 then 1 else polls) u = (b, t)" by fastforce
  from acq_wait_eq [OF w] obtain m d where t: "t = u\<lparr> ad := (ad u)\<lparr> acq_mem := m \<rparr>, dev := d \<rparr>"
    and m: "dma_keeps_size P \<longrightarrow> length m = length (acq_mem (ad u))"
    and fl: "b \<longrightarrow> acq_flags (acq_slot (ad t)) AND 1 = acq_phase (ad u)" by blast
  from False have l: "length req \<le> 64" by simp
  note e = e [unfolded ena_admin_exec_locked_def Let_def u [symmetric] w if_not_P [OF False]]
  show thesis
  proof (cases b)
    case True
    with e have "acq_consume P (command_id_of (ad s)) cap t = (rc, resp, cid, s')" by simp
    with True fl show thesis by (intro answer [OF l t m]) simp_all
  next
    case F: False
    with e have "rc = - ETIMEDOUT" "resp = []" "cid = None"
      "s' = ad_update (ad_state_update (\<lambda>_. ENA_STATE_ERROR)) t" by simp_all
    then show thesis by (intro timeout [OF l _ _ _ t _ m]) simp_all
  qed
qed

end
