(* ===== verification/Ena_Context.thy ===== *)
theory Ena_Context
  imports Ena_Recover Ena_Admin_Facts
begin

text \<open>
  The interface between the control plane and command execution.  A context is an execution
  function, a second one that agrees with it, and a state invariant that commands keep, that
  does not depend on the parts of the state the control plane changes freely, and that survives
  the updates it makes of the rings in a given set.  Inside it, every control-plane function gives the same
  result with both execution functions and keeps the invariant.
\<close>

text \<open>Two states that agree on the rings, the register windows and the recovery flag.\<close>

definition frame_eq :: "'d sys \<Rightarrow> 'd sys \<Rightarrow> bool" where
  "frame_eq s s' \<longleftrightarrow> recover_active (ad s') = recover_active (ad s) \<and> tx_rings (ad s') = tx_rings (ad s) \<and>
     rx_rings (ad s') = rx_rings (ad s) \<and> num_tx_rings (ad s') = num_tx_rings (ad s) \<and>
     num_rx_rings (ad s') = num_rx_rings (ad s) \<and> bar0_base (ad s') = bar0_base (ad s) \<and>
     bar0_size (ad s') = bar0_size (ad s) \<and> bar2_size (ad s') = bar2_size (ad s) \<and>
     rxqs s' = rxqs s \<and> freed s' = freed s"

definition adapter_frame :: "(ena_adapter \<Rightarrow> ena_adapter) \<Rightarrow> bool" where
  "adapter_frame f \<longleftrightarrow> (\<forall>a. recover_active (f a) = recover_active a \<and> tx_rings (f a) = tx_rings a \<and>
     rx_rings (f a) = rx_rings a \<and> num_tx_rings (f a) = num_tx_rings a \<and> num_rx_rings (f a) = num_rx_rings a \<and>
     bar0_base (f a) = bar0_base a \<and> bar0_size (f a) = bar0_size a \<and> bar2_size (f a) = bar2_size a)"

lemma frame_eq_upd: "adapter_frame f \<Longrightarrow> frame_eq s (ad_update f s)"
  by (simp add: adapter_frame_def frame_eq_def)

lemma frame_eq_dma:
  "dma_alloc P n s = (x, s') \<Longrightarrow> frame_eq s s'" "frame_eq s (dma_free P pa s)" "frame_eq s (s\<lparr> dev := d \<rparr>)"
  by (auto simp: frame_eq_def dma_alloc_frame)

lemma adapter_frame_rss: "adapter_frame (rss_info_update f)"
  by (simp add: adapter_frame_def)

text \<open>The part of a ring the data path works on: everything but what queue creation sets.\<close>

definition ring_core :: "ena_ring \<Rightarrow> ena_ring" where
  "ring_core r = r\<lparr> hw_valid := False, sq_idx := 0, sq_db_offset := 0, sq_db := None, cq_idx := 0,
     cq_db_offset := 0, cq_db := None, cq_unmask_db_offset := 0, is_llq := False, push_buf_virt := None,
     push_buf_phys := 0, push_buf_size := 0, llq_header_len := 0, llq_entry_size := 0 \<rparr>"

text \<open>The doorbells of a ring lie in the register window, its push area in the memory window.\<close>

definition db_ok :: "ena_adapter \<Rightarrow> ena_ring \<Rightarrow> bool" where
  "db_ok a r \<longleftrightarrow> (\<forall>off. sq_db r = Some off \<longrightarrow> unat off + 4 \<le> bar0_size a \<and> off AND 3 = 0) \<and>
     (\<forall>off. cq_db r = Some off \<longrightarrow> unat off + 4 \<le> bar0_size a \<and> off AND 3 = 0) \<and>
     (is_llq r \<longrightarrow> (\<exists>off. push_buf_virt r = Some off \<and> unat off + unat (push_buf_size r) \<le> bar2_size a))"

definition ring_step :: "ena_adapter \<Rightarrow> ena_ring \<Rightarrow> ena_ring \<Rightarrow> bool" where
  "ring_step a r r' \<longleftrightarrow> ring_core r' = ring_core r \<and> (db_ok a r \<longrightarrow> db_ok a r')"

subsection \<open>Updates of one ring\<close>

lemma ring_step_refl [simp]: "ring_step a r r"
  by (simp add: ring_step_def)

lemma ring_step_store_cq: "ring_step a r (ring_store_cq out r)"
  by (cases out) (auto simp: ring_step_def ring_store_cq_def ring_core_def db_ok_def)

lemma ring_step_store_sq: "ring_step a r (ring_store_sq out r)"
  by (cases out) (auto simp: ring_step_def ring_store_sq_def ring_core_def db_ok_def)

lemma ring_store_depth [simp]: "sq_depth (ring_store_cq out r) = sq_depth r" "sq_depth (ring_store_sq out' r) = sq_depth r"
  by (auto simp: ring_store_cq_def ring_store_sq_def split: option.splits)

lemma ring_step_cq_db: "db_offset_ok (bar0_size a) off \<Longrightarrow> ring_step a r (r\<lparr> cq_db := Some off \<rparr>)"
  by (simp add: ring_step_def ring_core_def db_ok_def db_offset_ok_def)

lemma ring_step_sq_db: "db_offset_ok (bar0_size a) off \<Longrightarrow> ring_step a r (r\<lparr> sq_db := Some off \<rparr>)"
  by (simp add: ring_step_def ring_core_def db_ok_def db_offset_ok_def)

lemma ring_step_valid: "ring_step a r (r\<lparr> hw_valid := True \<rparr>)"
  by (simp add: ring_step_def ring_core_def db_ok_def)

lemma ring_step_gone: "ring_step a r (ring_hw_gone r)"
  by (simp add: ring_step_def ring_hw_gone_def ring_core_def db_ok_def)

lemma ring_step_llq:
  assumes "llq_offsets_ok (unat (sq_depth r) * llq_entry_bytes a) (bar2_size a) descs hdrs"
  shows "ring_step a r (ring_go_llq a descs r)"
proof -
  have "unat (of_nat n :: u32) \<le> n" for n by (simp add: unat_of_nat take_bit_eq_mod)
  then have "unat descs + unat (of_nat (unat (sq_depth r) * llq_entry_bytes a) :: u32) \<le> bar2_size a"
    using assms unfolding llq_offsets_ok_def by (meson add_left_mono order_trans)
  then show ?thesis by (simp add: ring_step_def ring_go_llq_def ring_core_def db_ok_def)
qed

lemma ring_of_upd [simp]: "ring_of ty q (ring_upd ty q f s) = map_option f (ring_of ty q s)"
  by (simp add: ring_of_def ring_upd_def ring_at_def)

lemma ring_upd_frame [simp]:
  "bar0_size (ad (ring_upd ty q f s)) = bar0_size (ad s)" "bar2_size (ad (ring_upd ty q f s)) = bar2_size (ad s)"
  "bar0_base (ad (ring_upd ty q f s)) = bar0_base (ad s)" "bar2_base (ad (ring_upd ty q f s)) = bar2_base (ad s)"
  "llq_info (ad (ring_upd ty q f s)) = llq_info (ad s)"
  "recover_active (ad (ring_upd ty q f s)) = recover_active (ad s)"
  "num_tx_rings (ad (ring_upd ty q f s)) = num_tx_rings (ad s)"
  "num_rx_rings (ad (ring_upd ty q f s)) = num_rx_rings (ad s)"
  "rxqs (ring_upd ty q f s) = rxqs s" "freed (ring_upd ty q f s) = freed s" "dev (ring_upd ty q f s) = dev s"
  by (simp_all add: ring_upd_def)

subsection \<open>The interface\<close>

locale exec_context =
  fixes exec exec' :: "'d exec_fn" and I :: "'d sys \<Rightarrow> bool" and W :: "ena_ring_type \<Rightarrow> nat \<Rightarrow> bool"
  assumes same: "I s \<Longrightarrow> exec opcode req cap n s = exec' opcode req cap n s"
    and keep: "I s \<Longrightarrow> exec opcode req cap n s = (rc, resp, cid, s') \<Longrightarrow> I s'"
    and frame: "I s \<Longrightarrow> frame_eq s s' \<Longrightarrow> I s'"
    and ring: "I s \<Longrightarrow> W ty q \<Longrightarrow> (\<And>r. ring_of ty q s = Some r \<Longrightarrow> ring_step (ad s) r (f r)) \<Longrightarrow> I (ring_upd ty q f s)"
    and success: "I s \<Longrightarrow> exec opcode req cap n s = (0, resp, cid, s') \<Longrightarrow>
      tx_rings (ad s') = tx_rings (ad s) \<and> rx_rings (ad s') = rx_rings (ad s)"
begin

lemma frame_upd: "I s \<Longrightarrow> adapter_frame f \<Longrightarrow> I (ad_update f s)"
  by (rule frame [OF _ frame_eq_upd])

lemma destroy_cq_same: "I s \<Longrightarrow> ena_admin_destroy_cq exec c s = ena_admin_destroy_cq exec' c s"
  by (simp add: ena_admin_destroy_cq_def same)

lemma destroy_cq_keep: "I s \<Longrightarrow> I (snd (ena_admin_destroy_cq exec c s))"
  by (auto simp: ena_admin_destroy_cq_def split: prod.splits intro: keep)

lemma destroy_sq_same: "I s \<Longrightarrow> ena_admin_destroy_sq exec c s = ena_admin_destroy_sq exec' c s"
  by (simp add: ena_admin_destroy_sq_def same)

lemma destroy_sq_keep: "I s \<Longrightarrow> I (snd (ena_admin_destroy_sq exec c s))"
  by (auto simp: ena_admin_destroy_sq_def split: prod.splits intro: keep)

lemma create_cq_same:
  assumes "I s"
  shows "ena_admin_create_cq exec d pa v w s = ena_admin_create_cq exec' d pa v w s"
proof -
  obtain rc resp cid t where e: "exec ENA_ADMIN_CREATE_CQ (create_cq_cmd d pa v w) 16 ENA_DATAPATH_MAX_POLLS s = (rc, resp, cid, t)"
    using prod_cases4 by blast
  with same [OF assms] keep [OF assms e] show ?thesis
    by (simp add: ena_admin_create_cq_def destroy_cq_same Let_def)
qed

lemma create_cq_keep:
  assumes "I s" and "ena_admin_create_cq exec d pa v w s = (rc, out, s')"
  shows "I s'"
  using assms destroy_cq_keep keep
  by (auto simp: ena_admin_create_cq_def Let_def split: prod.splits if_splits)

lemma create_sq_same:
  assumes "I s"
  shows "ena_admin_create_sq_common exec pl d pa wb c dir s = ena_admin_create_sq_common exec' pl d pa wb c dir s"
proof -
  obtain rc resp cid t where e: "exec ENA_ADMIN_CREATE_SQ (create_sq_cmd pl d pa wb c dir) 16 ENA_DATAPATH_MAX_POLLS s = (rc, resp, cid, t)"
    using prod_cases4 by blast
  with same [OF assms] keep [OF assms e] show ?thesis
    by (simp add: ena_admin_create_sq_common_def destroy_sq_same Let_def)
qed

lemma create_sq_keep:
  assumes "I s" and "ena_admin_create_sq_common exec pl d pa wb c dir s = (rc, out, s')"
  shows "I s'"
  using assms destroy_sq_keep keep
  by (auto simp: ena_admin_create_sq_common_def Let_def split: prod.splits if_splits)

lemma success_ring:
  assumes "I s" and "exec opcode req cap n s = (0, resp, cid, s')"
  shows "ring_of ty q s' = ring_of ty q s"
  using success [OF assms] by (simp add: ring_of_def)

lemma create_cq_ring:
  assumes "I s" and "ena_admin_create_cq exec d pa v w s = (0, out, s')"
  shows "ring_of ty q s' = ring_of ty q s \<and> out \<noteq> None"
  using assms success_ring by (auto simp: ena_admin_create_cq_def Let_def EINVAL_def split: prod.splits if_splits)

lemma create_sq_ring:
  assumes "I s" and "ena_admin_create_sq_common exec pl d pa wb c dir s = (0, out, s')"
  shows "ring_of ty q s' = ring_of ty q s \<and> out \<noteq> None"
  using assms success_ring by (auto simp: ena_admin_create_sq_common_def Let_def EINVAL_def split: prod.splits if_splits)

subsection \<open>Creating the queues of a ring\<close>

lemma create_hw_cq_laws:
  assumes "I s" and "create_hw_cq exec ty q v r s = (rc, s')" and w: "W ty q"
  shows "create_hw_cq exec' ty q v r s = (rc, s')" "I s'"
    "rc = 0 \<Longrightarrow> \<exists>f. ring_of ty q s' = map_option f (ring_of ty q s) \<and> (\<forall>r. sq_depth (f r) = sq_depth r)"
proof -
  let ?w = "ucast (cq_elem_size r div 4) :: u8" and ?v = "if v \<noteq> 0 then v else ENA_ADMIN_MSIX_NONE"
  obtain ret out t where c: "ena_admin_create_cq exec (cq_depth r) (cq_phys r) ?v ?w s = (ret, out, t)"
    using prod_cases3 by blast
  define t1 where "t1 = ring_upd ty q (ring_store_cq out) t"
  have it: "I t" by (rule create_cq_keep [OF assms(1) c])
  then have it1: "I t1" unfolding t1_def by (rule ring [OF _ w]) (rule ring_step_store_cq)
  have c': "ena_admin_create_cq exec' (cq_depth r) (cq_phys r) ?v ?w s = (ret, out, t)"
    using create_cq_same [OF assms(1)] c by simp
  define t2 where "t2 db = (if db \<noteq> 0 then ring_upd ty q (\<lambda>r. r\<lparr> cq_db := Some db \<rparr>) t1 else t1)" for db
  have it2: "I (t2 db)" if "db \<noteq> 0 \<longrightarrow> db_offset_ok (bar0_size (ad t1)) db" for db
    using it1 that unfolding t2_def by (auto intro!: ring [OF _ w] ring_step_cq_db)
  let ?sz = "bar0_size (ad t1)"
  have eq: "create_hw_cq e ty q v r s =
      (case (if ret \<noteq> 0 then None else out) of None \<Rightarrow> (ret, t1)
       | Some (cq, db, un) \<Rightarrow>
         if db \<noteq> 0 \<and> \<not> db_offset_ok ?sz db then (- EINVAL, snd (ena_admin_destroy_cq e (ring_cq_idx ty q t1) t1))
         else if un \<noteq> 0 \<and> \<not> db_offset_ok ?sz un
           then (- EINVAL, snd (ena_admin_destroy_cq e (ring_cq_idx ty q (t2 db)) (t2 db)))
         else (0, t2 db))"
    if "ena_admin_create_cq e (cq_depth r) (cq_phys r) ?v ?w s = (ret, out, t)" for e
    unfolding create_hw_cq_def Let_def that prod.case t1_def [symmetric] t2_def [symmetric] ..
  note e = eq [OF c] eq [OF c']
  show "I s'"
    using assms(2) it1 it2 destroy_cq_keep unfolding e(1)
    by (auto split: option.splits if_splits)
  show "create_hw_cq exec' ty q v r s = (rc, s')"
    using assms(2) it1 it2 destroy_cq_same unfolding e
    by (auto split: option.splits if_splits)
  show "\<exists>f. ring_of ty q s' = map_option f (ring_of ty q s) \<and> (\<forall>r. sq_depth (f r) = sq_depth r)" if "rc = 0"
  proof -
    have "ret = 0" using assms(2) that unfolding e(1) by (auto simp: EINVAL_def split: option.splits if_splits)
    from create_cq_ring [OF assms(1) c [unfolded this], of ty q]
    obtain cq db un where out: "out = Some (cq, db, un)" and t: "ring_of ty q t = ring_of ty q s" by auto
    from assms(2) out that have "s' = t2 db" unfolding e(1) by (auto simp: EINVAL_def split: if_splits)
    then show ?thesis using t out
      by (intro exI [of _ "\<lambda>r. if db \<noteq> 0 then (ring_store_cq out r)\<lparr> cq_db := Some db \<rparr> else ring_store_cq out r"])
        (simp add: t2_def t1_def option.map_comp comp_def)
  qed
qed

lemma create_hw_sq_host_laws:
  assumes "I s" and "create_hw_sq_host exec ty q r s = (rc, s')" and w: "W ty q"
  shows "create_hw_sq_host exec' ty q r s = (rc, s')" "I s'"
proof -
  let ?c = "ring_cq_idx ty q s" and ?d = "ring_dir (ring_type r)"
  obtain ret out t where c: "ena_admin_create_sq exec (sq_depth r) (sq_phys r) (sq_head_wb_phys r) ?c ?d s = (ret, out, t)"
    using prod_cases3 by blast
  then have c': "ena_admin_create_sq exec' (sq_depth r) (sq_phys r) (sq_head_wb_phys r) ?c ?d s = (ret, out, t)"
    using create_sq_same [OF assms(1)] by (simp add: ena_admin_create_sq_def)
  define t1 where "t1 = ring_upd ty q (ring_store_sq out) t"
  have "I t" using create_sq_keep [OF assms(1)] c by (simp add: ena_admin_create_sq_def)
  then have it1: "I t1" unfolding t1_def by (rule ring [OF _ w]) (rule ring_step_store_sq)
  have eq: "create_hw_sq_host e ty q r s =
      (if ret \<noteq> 0 then (ret, snd (ena_admin_destroy_cq e (ring_cq_idx ty q t1) t1)) else (0, t1))"
    if "ena_admin_create_sq e (sq_depth r) (sq_phys r) (sq_head_wb_phys r) ?c ?d s = (ret, out, t)" for e
    unfolding create_hw_sq_host_def Let_def that prod.case t1_def [symmetric] ..
  note e = eq [OF c] eq [OF c']
  show "I s'" using assms(2) it1 destroy_cq_keep unfolding e(1) by (auto split: if_splits)
  show "create_hw_sq_host exec' ty q r s = (rc, s')" using assms(2) it1 destroy_cq_same unfolding e
    by (auto split: if_splits)
qed

text \<open>An LLQ result comes with offsets that were checked against the current ring.\<close>

lemma create_hw_sq_laws:
  assumes i: "I s" and c: "create_hw_sq exec ty q r s = (rc, llq, s')"
    and cur: "\<forall>r'. ring_of ty q s = Some r' \<longrightarrow> sq_depth r' = sq_depth r" and w: "W ty q"
  shows "create_hw_sq exec' ty q r s = (rc, llq, s')" "I s'"
    "llq = Some descs \<Longrightarrow> ring_of ty q s' = Some r' \<Longrightarrow>
      \<exists>hdrs. llq_offsets_ok (unat (sq_depth r') * llq_entry_bytes (ad s')) (bar2_size (ad s')) descs hdrs"
proof -
  let ?host = "\<lambda>e t. case create_hw_sq_host e ty q r t of (ret, t) \<Rightarrow> (ret, None :: u32 option, t)"
  have host: "?host exec' t = ?host exec t" "I (snd (snd (?host exec t)))" if "I t" for t
  proof -
    obtain ret u where "create_hw_sq_host exec ty q r t = (ret, u)" by fastforce
    with create_hw_sq_host_laws [OF that _ w] show "?host exec' t = ?host exec t" "I (snd (snd (?host exec t)))" by auto
  qed
  show "create_hw_sq exec' ty q r s = (rc, llq, s')" "I s'"
    "llq = Some descs \<Longrightarrow> ring_of ty q s' = Some r' \<Longrightarrow>
      \<exists>hdrs. llq_offsets_ok (unat (sq_depth r') * llq_entry_bytes (ad s')) (bar2_size (ad s')) descs hdrs"
  proof (atomize (full), cases "llq_wanted r (ad s)")
    case False
    then have "create_hw_sq e ty q r s = ?host e s" for e by (simp add: create_hw_sq_def)
    with c host [OF i] show "create_hw_sq exec' ty q r s = (rc, llq, s') \<and> I s' \<and> (llq = Some descs \<longrightarrow> ring_of ty q s' = Some r' \<longrightarrow>
      (\<exists>hdrs. llq_offsets_ok (unat (sq_depth r') * llq_entry_bytes (ad s')) (bar2_size (ad s')) descs hdrs))"
      by (auto split: prod.splits)
  next
    case True
    let ?c = "ring_cq_idx ty q s" and ?d = "ring_dir (ring_type r)"
    obtain ret out t where l: "ena_admin_create_sq_llq exec (sq_depth r) ?c ?d s = (ret, out, t)"
      using prod_cases3 by blast
    then have l': "ena_admin_create_sq_llq exec' (sq_depth r) ?c ?d s = (ret, out, t)"
      using create_sq_same [OF i] by (simp add: ena_admin_create_sq_llq_def)
    define t1 where "t1 = ring_upd ty q (ring_store_sq out) t"
    have "I t" using create_sq_keep [OF i] l by (simp add: ena_admin_create_sq_llq_def)
    then have it1: "I t1" unfolding t1_def by (rule ring [OF _ w]) (rule ring_step_store_sq)
    have r1: "sq_depth r1 = sq_depth r" if "ret = 0" "ring_of ty q t1 = Some r1" for r1
    proof -
      have "ring_of ty q t = ring_of ty q s"
        using create_sq_ring [OF i l [unfolded ena_admin_create_sq_llq_def that(1)]] by blast
      with that(2) cur show ?thesis by (auto simp: t1_def)
    qed
    let ?ok = "\<lambda>descs hdrs. llq_offsets_ok (unat (sq_depth r) * llq_entry_bytes (ad t1)) (bar2_size (ad t1)) descs hdrs"
    have eq: "create_hw_sq e ty q r s =
      (case (if ret \<noteq> 0 then None else out) of None \<Rightarrow> ?host e t1
       | Some (sq, db, descs, hdrs) \<Rightarrow>
           if ?ok descs hdrs then (0, Some descs, t1) else ?host e (snd (ena_admin_destroy_sq e sq t1)))"
      if "ena_admin_create_sq_llq e (sq_depth r) ?c ?d s = (ret, out, t)" for e
      unfolding create_hw_sq_def Let_def that prod.case t1_def [symmetric] by (simp add: True)
    note e = eq [OF l] eq [OF l']
    show "create_hw_sq exec' ty q r s = (rc, llq, s') \<and> I s' \<and> (llq = Some descs \<longrightarrow> ring_of ty q s' = Some r' \<longrightarrow>
      (\<exists>hdrs. llq_offsets_ok (unat (sq_depth r') * llq_entry_bytes (ad s')) (bar2_size (ad s')) descs hdrs))"
    proof (cases "if ret \<noteq> 0 then None else out")
      case None
      with c host [OF it1] show ?thesis unfolding e by (auto split: prod.splits)
    next
      case (Some x)
      obtain sq db ds hd where x: "x = (sq, db, ds, hd)" using prod_cases4 by blast
      have ret: "ret = 0" using Some by (auto split: if_splits)
      show ?thesis
      proof (cases "?ok ds hd")
        case True
        with c Some x have "rc = 0" "llq = Some ds" "s' = t1" unfolding e by simp_all
        with True Some x it1 r1 [OF ret] show ?thesis unfolding e by auto
      next
        case False
        let ?u = "snd (ena_admin_destroy_sq exec sq t1)"
        have "create_hw_sq exec' ty q r s = ?host exec' ?u" "create_hw_sq exec ty q r s = ?host exec ?u"
          using False Some x unfolding e by (simp_all flip: destroy_sq_same [OF it1])
        with c host [OF destroy_sq_keep [OF it1], of sq] show ?thesis by (auto split: prod.splits)
      qed
    qed
  qed
qed

lemma create_hw_finish_laws:
  assumes i: "I s" and w: "W ty q" and llq: "\<And>descs r. llq = Some descs \<Longrightarrow> ring_of ty q s = Some r \<Longrightarrow>
      \<exists>hdrs. llq_offsets_ok (unat (sq_depth r) * llq_entry_bytes (ad s)) (bar2_size (ad s)) descs hdrs"
  shows "create_hw_finish exec' ty q llq s = create_hw_finish exec ty q llq s" "I (snd (create_hw_finish exec ty q llq s))"
    "fst (create_hw_finish exec ty q llq s) = 0 \<Longrightarrow>
      \<exists>r. ring_of ty q (snd (create_hw_finish exec ty q llq s)) = Some r \<and> hw_valid r"
proof (atomize (full), cases "ring_of ty q s")
  case None
  then show "create_hw_finish exec' ty q llq s = create_hw_finish exec ty q llq s \<and> I (snd (create_hw_finish exec ty q llq s)) \<and>
      (fst (create_hw_finish exec ty q llq s) = 0 \<longrightarrow>
       (\<exists>r. ring_of ty q (snd (create_hw_finish exec ty q llq s)) = Some r \<and> hw_valid r))"
    using i by (simp add: create_hw_finish_def EINVAL_def)
next
  case (Some r)
  let ?db = "sq_db_offset r"
  show "create_hw_finish exec' ty q llq s = create_hw_finish exec ty q llq s \<and> I (snd (create_hw_finish exec ty q llq s)) \<and>
      (fst (create_hw_finish exec ty q llq s) = 0 \<longrightarrow>
       (\<exists>r. ring_of ty q (snd (create_hw_finish exec ty q llq s)) = Some r \<and> hw_valid r))"
  proof (cases "?db \<noteq> 0 \<and> \<not> db_offset_ok (bar0_size (ad s)) ?db")
    case True
    let ?u = "snd (ena_admin_destroy_sq exec (sq_idx r) s)"
    have u: "I ?u" by (rule destroy_sq_keep [OF i])
    have "create_hw_finish e ty q llq s = (- EINVAL, snd (ena_admin_destroy_cq e (ring_cq_idx ty q (snd (ena_admin_destroy_sq e (sq_idx r) s)))
        (snd (ena_admin_destroy_sq e (sq_idx r) s))))" for e
      using True Some by (simp add: create_hw_finish_def Let_def)
    with destroy_cq_same [OF u] destroy_cq_keep [OF u] show ?thesis
      by (simp add: EINVAL_def flip: destroy_sq_same [OF i])
  next
    case False
    define s1 where "s1 = (if ?db \<noteq> 0 then ring_upd ty q (\<lambda>r. r\<lparr> sq_db := Some ?db \<rparr>) s else s)"
    define s2 where "s2 = (case llq of None \<Rightarrow> s1 | Some descs \<Rightarrow> ring_upd ty q (ring_go_llq (ad s1) descs) s1)"
    have eq: "create_hw_finish e ty q llq s = (0, ring_upd ty q (\<lambda>r. r\<lparr> hw_valid := True \<rparr>) s2)" for e
      unfolding create_hw_finish_def Let_def Some option.case if_not_P [OF False] s1_def [symmetric] s2_def [symmetric] ..
    have "I s1" using i False unfolding s1_def by (auto intro!: ring [OF _ w] ring_step_sq_db)
    moreover have "I s2"
    proof (cases llq)
      case None
      with \<open>I s1\<close> show ?thesis by (simp add: s2_def)
    next
      case (Some descs)
      have d: "llq_entry_bytes (ad s1) = llq_entry_bytes (ad s)" "bar2_size (ad s1) = bar2_size (ad s)"
        by (simp_all add: s1_def llq_entry_bytes_def)
      have r1: "sq_depth r1 = sq_depth r" if "ring_of ty q s1 = Some r1" for r1
        using that \<open>ring_of ty q s = Some r\<close> by (auto simp: s1_def split: if_splits)
      obtain hdrs where "llq_offsets_ok (unat (sq_depth r) * llq_entry_bytes (ad s)) (bar2_size (ad s)) descs hdrs"
        using llq [OF Some \<open>ring_of ty q s = Some r\<close>] by blast
      then have "ring_step (ad s1) r1 (ring_go_llq (ad s1) descs r1)" if "ring_of ty q s1 = Some r1" for r1
        by (intro ring_step_llq [of _ _ _ hdrs]) (simp add: d r1 [OF that])
      with \<open>I s1\<close> Some show ?thesis by (auto simp: s2_def intro: ring [OF _ w])
    qed
    moreover have "\<exists>r2. ring_of ty q s2 = Some r2"
      using Some by (auto simp: s2_def s1_def split: option.splits)
    ultimately show ?thesis unfolding eq by (auto intro: ring [OF _ w] ring_step_valid)
  qed
qed

lemma ring_create_hw_laws:
  assumes i: "I s" and w: "W ty q"
  shows "ena_ring_create_hw exec' ty q v s = ena_ring_create_hw exec ty q v s" "I (snd (ena_ring_create_hw exec ty q v s))"
    "fst (ena_ring_create_hw exec ty q v s) = 0 \<Longrightarrow>
      \<exists>r. ring_of ty q (snd (ena_ring_create_hw exec ty q v s)) = Some r \<and> hw_valid r"
proof -
  have "ena_ring_create_hw exec' ty q v s = ena_ring_create_hw exec ty q v s \<and> I (snd (ena_ring_create_hw exec ty q v s)) \<and>
    (fst (ena_ring_create_hw exec ty q v s) = 0 \<longrightarrow>
      (\<exists>r. ring_of ty q (snd (ena_ring_create_hw exec ty q v s)) = Some r \<and> hw_valid r))"
  proof (cases "ring_of ty q s")
    case None
    with i show ?thesis by (simp add: ena_ring_create_hw_def EINVAL_def)
  next
    case (Some r)
    show ?thesis
    proof (cases "bar0_base (ad s)")
      case False
      with i Some show ?thesis by (simp add: ena_ring_create_hw_def EINVAL_def)
    next
      case b: True
      obtain rc s1 where c: "create_hw_cq exec ty q v r s = (rc, s1)" by fastforce
      note l1 = create_hw_cq_laws [OF i c w]
      show ?thesis
      proof (cases "rc = 0")
        case False
        with l1 c Some b show ?thesis by (simp add: ena_ring_create_hw_def)
      next
        case True
        then have cur: "\<forall>r'. ring_of ty q s1 = Some r' \<longrightarrow> sq_depth r' = sq_depth r"
          using l1(3) Some by auto
        obtain rc2 llq s2 where d: "create_hw_sq exec ty q r s1 = (rc2, llq, s2)" using prod_cases3 by blast
        note l2 = create_hw_sq_laws [OF l1(2) d cur w]
        show ?thesis
        proof (cases "rc2 = 0")
          case False
          with True l1 l2 c d Some b show ?thesis by (simp add: ena_ring_create_hw_def)
        next
          case rc2: True
          note l3 = create_hw_finish_laws [OF l2(2) w, of llq, OF l2(3)]
          have "ena_ring_create_hw exec ty q v s = create_hw_finish exec ty q llq s2"
            "ena_ring_create_hw exec' ty q v s = create_hw_finish exec' ty q llq s2"
            using True rc2 l1(1) l2(1) c d Some b by (simp_all add: ena_ring_create_hw_def)
          with l3 show ?thesis by simp
        qed
      qed
    qed
  qed
  then show "ena_ring_create_hw exec' ty q v s = ena_ring_create_hw exec ty q v s" "I (snd (ena_ring_create_hw exec ty q v s))"
    "fst (ena_ring_create_hw exec ty q v s) = 0 \<Longrightarrow>
      \<exists>r. ring_of ty q (snd (ena_ring_create_hw exec ty q v s)) = Some r \<and> hw_valid r" by blast+
qed

lemma ring_destroy_hw_laws:
  assumes i: "I s" and w: "W ty q"
  shows "ena_ring_destroy_hw exec' ty q s = ena_ring_destroy_hw exec ty q s" "I (snd (ena_ring_destroy_hw exec ty q s))"
proof -
  have "ena_ring_destroy_hw exec' ty q s = ena_ring_destroy_hw exec ty q s \<and> I (snd (ena_ring_destroy_hw exec ty q s))"
  proof (cases "ring_of ty q s")
    case None
    with i show ?thesis by (simp add: ena_ring_destroy_hw_def)
  next
    case (Some r)
    obtain a s1 where d: "ena_admin_destroy_sq exec (sq_idx r) s = (a, s1)" by fastforce
    then have i1: "I s1" using destroy_sq_keep [OF i, of "sq_idx r"] by simp
    obtain b s2 where e: "ena_admin_destroy_cq exec (ring_cq_idx ty q s1) s1 = (b, s2)" by fastforce
    then have i2: "I s2" using destroy_cq_keep [OF i1, of "ring_cq_idx ty q s1"] by simp
    have "I (ring_upd ty q ring_hw_gone s2)" by (rule ring [OF i2 w ring_step_gone])
    with Some d e destroy_sq_same [OF i, symmetric] destroy_cq_same [OF i1, symmetric] show ?thesis
      by (simp add: ena_ring_destroy_hw_def)
  qed
  then show "ena_ring_destroy_hw exec' ty q s = ena_ring_destroy_hw exec ty q s" "I (snd (ena_ring_destroy_hw exec ty q s))"
    by blast+
qed

subsection \<open>Feature commands\<close>

lemma init_exec_laws:
  assumes "I s"
  shows "ena_init_exec exec' opcode req cap s = ena_init_exec exec opcode req cap s"
    "ena_init_exec exec opcode req cap s = (rc, resp, s') \<Longrightarrow> I s'"
  using same [OF assms] keep [OF assms] by (auto simp: ena_init_exec_def split: prod.splits)

lemma rss_exec_laws:
  assumes "I s"
  shows "ena_rss_exec exec' opcode req cap s = ena_rss_exec exec opcode req cap s"
    "ena_rss_exec exec opcode req cap s = (rc, resp, s') \<Longrightarrow> I s'"
  using same [OF assms] keep [OF assms] by (auto simp: ena_rss_exec_def split: prod.splits)

lemma init_then:
  assumes i: "I s" and f: "\<And>resp s'. I s' \<Longrightarrow> I (snd (f resp s'))"
  shows "(case ena_init_exec exec' opcode req cap s of (rc, resp, s) \<Rightarrow> if rc \<noteq> 0 then (rc, s) else f resp s) =
      (case ena_init_exec exec opcode req cap s of (rc, resp, s) \<Rightarrow> if rc \<noteq> 0 then (rc, s) else f resp s)"
    "I (snd (case ena_init_exec exec opcode req cap s of (rc, resp, s) \<Rightarrow> if rc \<noteq> 0 then (rc :: int, s) else f resp s))"
proof -
  obtain rc resp t where e: "ena_init_exec exec opcode req cap s = (rc, resp, t)" using prod_cases3 by blast
  with init_exec_laws(1) [OF i] init_exec_laws(2) [OF i e] f
  show "(case ena_init_exec exec' opcode req cap s of (rc, resp, s) \<Rightarrow> if rc \<noteq> 0 then (rc, s) else f resp s) =
      (case ena_init_exec exec opcode req cap s of (rc, resp, s) \<Rightarrow> if rc \<noteq> 0 then (rc, s) else f resp s)"
    "I (snd (case ena_init_exec exec opcode req cap s of (rc, resp, s) \<Rightarrow> if rc \<noteq> 0 then (rc :: int, s) else f resp s))"
    by simp_all
qed

lemma device_attributes_laws:
  assumes "I s"
  shows "ena_init_get_device_attributes exec' s = ena_init_get_device_attributes exec s"
    "I (snd (ena_init_get_device_attributes exec s))"
  unfolding ena_init_get_device_attributes_def
  by (rule init_then [OF assms]; simp add: frame_upd adapter_frame_def)+

lemma queue_limits_laws:
  assumes "I s"
  shows "ena_init_get_queue_limits exec' s = ena_init_get_queue_limits exec s"
    "I (snd (ena_init_get_queue_limits exec s))"
  unfolding ena_init_get_queue_limits_def Let_def
  by (rule init_then [OF assms]; simp add: frame_upd adapter_frame_def)+

lemma set_mtu_laws:
  assumes "I s"
  shows "ena_init_set_mtu exec' m s = ena_init_set_mtu exec m s" "I (snd (ena_init_set_mtu exec m s))"
proof -
  let ?f = "\<lambda>resp s. (0 :: int, ad_update (ad_mtu_update (\<lambda>_. m)) s)"
  have "I (snd (?f resp t))" if "I t" for resp t using that by (simp add: frame_upd adapter_frame_def)
  from init_then [OF assms, of ?f, OF this] assms
  show "ena_init_set_mtu exec' m s = ena_init_set_mtu exec m s" "I (snd (ena_init_set_mtu exec m s))"
    by (simp_all add: ena_init_set_mtu_def)
qed

lemma config_llq_laws:
  assumes "I s"
  shows "ena_init_config_llq exec' s = ena_init_config_llq exec s" "I (snd (ena_init_config_llq exec s))"
proof -
  have "I (ad_update (llq_info_update (\<lambda>_. llq_info_zero)) s)" (is "I ?t")
    by (rule frame_upd [OF assms]) (simp add: adapter_frame_def)
  from init_exec_laws [OF this] this
  show "ena_init_config_llq exec' s = ena_init_config_llq exec s" "I (snd (ena_init_config_llq exec s))"
    by (auto simp: ena_init_config_llq_def Let_def split: prod.splits)
qed

lemma config_aenq_laws:
  assumes i: "I s"
  shows "ena_init_config_aenq exec' s = ena_init_config_aenq exec s" "I (snd (ena_init_config_aenq exec s))"
proof -
  obtain rc resp t where g: "ena_init_exec exec ENA_ADMIN_GET_FEATURE (get_feat_inline ENA_ADMIN_AENQ_CONFIG) 56 s = (rc, resp, t)"
    using prod_cases3 by blast
  have t: "I t" by (rule init_exec_laws(2) [OF i g])
  note g' = init_exec_laws(1) [OF i, of ENA_ADMIN_GET_FEATURE "get_feat_inline ENA_ADMIN_AENQ_CONFIG" 56, unfolded g]
  note l = init_exec_laws [OF t]
  show "ena_init_config_aenq exec' s = ena_init_config_aenq exec s"
    by (simp add: ena_init_config_aenq_def g g' Let_def l(1))
  show "I (snd (ena_init_config_aenq exec s))"
    using i t l(2) by (auto simp: ena_init_config_aenq_def g Let_def adapter_frame_def split: prod.splits intro!: frame_upd)
qed

subsection \<open>Receive side scaling\<close>

lemma and_then_laws:
  assumes "x' = x" and "I (snd x)" and "\<And>s. I s \<Longrightarrow> f' s = f s" and "\<And>s. I s \<Longrightarrow> I (snd (f s))"
  shows "and_then x' f' = and_then x f" "I (snd (and_then x f))"
  using assms by (auto simp: and_then_def split: prod.splits)

lemma rss_upd_keep: "I s \<Longrightarrow> I (rss_upd f s)"
  by (rule frame_upd [OF _ adapter_frame_rss])

lemma dma_keep: "I s \<Longrightarrow> I (dma_free P pa s)" "I s \<Longrightarrow> I (s\<lparr> dev := d \<rparr>)"
    "I s \<Longrightarrow> dma_alloc P n s = (x, s') \<Longrightarrow> I s'"
  by (blast intro: frame frame_eq_dma)+

lemma rss_fini_keep: "I s \<Longrightarrow> I (ena_rss_fini P s)"
  unfolding ena_rss_fini_def Let_def by (intro rss_upd_keep) (simp add: rss_upd_keep dma_keep)

lemma rss_query_laws:
  assumes i: "I s"
  shows "ena_rss_query_ind_table_limits exec' s = ena_rss_query_ind_table_limits exec s"
    "I (ena_rss_query_ind_table_limits exec s)"
proof -
  let ?r = "ind_table_request (ctrl_buff_bytes 0 0) 0 0"
  obtain rc resp t where e: "ena_rss_exec exec ENA_ADMIN_GET_FEATURE ?r 16 s = (rc, resp, t)" using prod_cases3 by blast
  have t: "I t" by (rule rss_exec_laws(2) [OF i e])
  note e' = rss_exec_laws(1) [OF i, of ENA_ADMIN_GET_FEATURE ?r 16, unfolded e]
  show "ena_rss_query_ind_table_limits exec' s = ena_rss_query_ind_table_limits exec s"
    unfolding ena_rss_query_ind_table_limits_def Let_def e e' ..
  show "I (ena_rss_query_ind_table_limits exec s)"
    unfolding ena_rss_query_ind_table_limits_def Let_def e using i t by (simp add: rss_upd_keep)
qed

lemma rss_alloc_keep: "I s \<Longrightarrow> I (snd (rss_alloc_key P s))" "I s \<Longrightarrow> I (snd (rss_alloc_ctrl P s))"
proof -
  assume i: "I s"
  obtain x t where k: "dma_alloc P 48 s = (x, t)" by fastforce
  obtain y u where c: "dma_alloc P 256 s = (y, u)" by fastforce
  show "I (snd (rss_alloc_key P s))"
    using i dma_keep(3) [OF i k] by (cases x) (simp_all add: rss_alloc_key_def k rss_fini_keep rss_upd_keep)
  show "I (snd (rss_alloc_ctrl P s))"
    using i dma_keep(3) [OF i c] by (cases y) (simp_all add: rss_alloc_ctrl_def c rss_fini_keep rss_upd_keep)
qed

lemma rss_init_laws:
  assumes i: "I s"
  shows "ena_rss_init P exec' s = ena_rss_init P exec s" "I (snd (ena_rss_init P exec s))"
proof -
  define s1 where "s1 = rss_upd (ind_table_size_update (\<lambda>_. ENA_ADMIN_RSS_IND_TABLE_NUM_ENTRIES)) s"
  have i1: "I s1" unfolding s1_def by (rule rss_upd_keep [OF i])
  define s2 where "s2 = ena_rss_query_ind_table_limits exec s1"
  have i2: "I s2" and q: "ena_rss_query_ind_table_limits exec' s1 = s2"
    using rss_query_laws [OF i1] by (simp_all add: s2_def)
  show "ena_rss_init P exec' s = ena_rss_init P exec s"
    unfolding ena_rss_init_def Let_def s1_def [symmetric] s2_def [symmetric] q ..
  obtain ok d where c: "p_calloc P (unat (ind_table_size (rss s2)) * 2) (dev s2) = (ok, d)" by fastforce
  obtain x t where a: "dma_alloc P (unat (ind_table_size (rss s2)) * 4) (s2\<lparr> dev := d \<rparr>) = (x, t)" by fastforce
  have i3: "I (s2\<lparr> dev := d \<rparr>)" by (rule dma_keep(2) [OF i2])
  have it: "I t" by (rule dma_keep(3) [OF i3 a])
  have "I (snd (and_then (rss_alloc_key P u) (\<lambda>s. and_then (rss_alloc_ctrl P s) (\<lambda>s. (0, rss_upd (rss_supported_update (\<lambda>_. True)) s)))))"
    if "I u" for u by (intro and_then_laws(2) refl rss_alloc_keep that) (simp_all add: rss_upd_keep)
  with i i3 it show "I (snd (ena_rss_init P exec s))"
    unfolding ena_rss_init_def Let_def s1_def [symmetric] s2_def [symmetric] c prod.case
    by (cases x) (simp_all add: a rss_upd_keep)
qed

lemma rss_then:
  assumes i: "I s"
  shows "(case ena_rss_exec exec' opcode req cap s of (ret, uu, s) \<Rightarrow> (ret, s)) =
      (case ena_rss_exec exec opcode req cap s of (ret, uu, s) \<Rightarrow> (ret, s))"
    "I (snd (case ena_rss_exec exec opcode req cap s of (ret, uu, s) \<Rightarrow> (ret, s)))"
proof -
  obtain rc resp t where e: "ena_rss_exec exec opcode req cap s = (rc, resp, t)" using prod_cases3 by blast
  with rss_exec_laws(1) [OF i] rss_exec_laws(2) [OF i e]
  show "(case ena_rss_exec exec' opcode req cap s of (ret, uu, s) \<Rightarrow> (ret, s)) =
      (case ena_rss_exec exec opcode req cap s of (ret, uu, s) \<Rightarrow> (ret, s))"
    "I (snd (case ena_rss_exec exec opcode req cap s of (ret, uu, s) \<Rightarrow> (ret, s)))" by simp_all
qed

lemma rss_set_laws:
  assumes i: "I s"
  shows "ena_rss_set_hash_key exec' k s = ena_rss_set_hash_key exec k s" "I (snd (ena_rss_set_hash_key exec k s))"
    "ena_rss_set_hash_ctrl exec' s = ena_rss_set_hash_ctrl exec s" "I (snd (ena_rss_set_hash_ctrl exec s))"
    "ena_rss_set_ind_table exec' n s = ena_rss_set_ind_table exec n s" "I (snd (ena_rss_set_ind_table exec n s))"
  unfolding ena_rss_set_hash_key_def ena_rss_set_hash_ctrl_def ena_rss_set_ind_table_def Let_def
  using i by (simp_all add: rss_then rss_upd_keep)

lemma rss_readback_laws:
  assumes i: "I s"
  shows "ena_rss_readback_ind_table P exec' s = ena_rss_readback_ind_table P exec s" "I (ena_rss_readback_ind_table P exec s)"
proof -
  obtain rc resp t where e: "ena_rss_exec exec ENA_ADMIN_GET_FEATURE (ind_table_set_request (rss s)) 16 s = (rc, resp, t)"
    using prod_cases3 by blast
  note e' = rss_exec_laws(1) [OF i, of ENA_ADMIN_GET_FEATURE "ind_table_set_request (rss s)" 16, unfolded e]
  show "ena_rss_readback_ind_table P exec' s = ena_rss_readback_ind_table P exec s"
    unfolding ena_rss_readback_ind_table_def e e' ..
  show "I (ena_rss_readback_ind_table P exec s)"
    unfolding ena_rss_readback_ind_table_def e using i rss_exec_laws(2) [OF i e]
    by (simp add: rss_upd_keep dma_keep split: prod.splits)
qed

lemma rss_configure_laws:
  assumes i: "I s"
  shows "ena_rss_configure P exec' n s = ena_rss_configure P exec n s" "I (snd (ena_rss_configure P exec n s))"
  unfolding ena_rss_configure_def using i
  by (simp, (intro impI and_then_laws)?; simp add: rss_init_laws rss_set_laws rss_readback_laws rss_upd_keep)+

end

subsection \<open>Recovery\<close>

text \<open>A context whose invariant also survives refilling a receive queue.\<close>

locale recover_context = exec_context exec exec' I W
  for exec exec' :: "'d exec_fn" and I :: "'d sys \<Rightarrow> bool" and W :: "ena_ring_type \<Rightarrow> nat \<Rightarrow> bool" +
  fixes P :: "'d platform"
  assumes refill: "I s \<Longrightarrow> W ENA_RING_TYPE_RX q \<Longrightarrow> I (snd (refill_queue P q cnt s))"
begin

lemma recover_refill_keep: "I s \<Longrightarrow> W ENA_RING_TYPE_RX q \<Longrightarrow> I (recover_refill P q s)"
  by (auto simp: recover_refill_def refill split: option.splits)

lemma recover_tx_laws:
  assumes "I s" and "\<forall>q\<in>set qs. W ENA_RING_TYPE_TX q"
  shows "recover_tx_loop exec' qs ret n s = recover_tx_loop exec qs ret n s \<and>
    I (snd (snd (recover_tx_loop exec qs ret n s)))"
  using assms
proof (induction qs arbitrary: ret n s)
  case (Cons q qs)
  have w: "W ENA_RING_TYPE_TX q" using Cons.prems(2) by simp
  obtain rc t where c: "ena_ring_create_hw exec ENA_RING_TYPE_TX q (queue_vector q s) s = (rc, t)" by fastforce
  then have "I t" and c': "ena_ring_create_hw exec' ENA_RING_TYPE_TX q (queue_vector q s) s = (rc, t)"
    using ring_create_hw_laws [OF Cons.prems(1) w, of "queue_vector q s"] by simp_all
  with Cons show ?case by (simp add: c c' split: option.split)
qed simp

lemma recover_rx_laws:
  assumes "I s" and "\<forall>q\<in>set qs. W ENA_RING_TYPE_RX q"
  shows "recover_rx_loop P exec' qs ret n s = recover_rx_loop P exec qs ret n s \<and>
    I (snd (snd (recover_rx_loop P exec qs ret n s)))"
  using assms
proof (induction qs arbitrary: ret n s)
  case (Cons q qs)
  have w: "W ENA_RING_TYPE_RX q" using Cons.prems(2) by simp
  obtain rc t where c: "ena_ring_create_hw exec ENA_RING_TYPE_RX q (queue_vector q s) s = (rc, t)" by fastforce
  then have "I t" and c': "ena_ring_create_hw exec' ENA_RING_TYPE_RX q (queue_vector q s) s = (rc, t)"
    using ring_create_hw_laws [OF Cons.prems(1) w, of "queue_vector q s"] by simp_all
  with Cons recover_refill_keep [OF _ w] show ?case by (simp add: c c' split: option.split)
qed simp

lemma reapply_laws:
  assumes i: "I s"
  shows "ena_init_reapply_device_features P exec' s = ena_init_reapply_device_features P exec s"
    "I (snd (ena_init_reapply_device_features P exec s))"
proof -
  let ?a = "ena_init_get_device_attributes" and ?m = "\<lambda>e s. if ad_mtu (ad s) \<noteq> 0 then ena_init_set_mtu e (ad_mtu (ad s)) s else (0, s)"
  let ?g = "\<lambda>e s. if aenq_enabled_groups (ad s) \<noteq> 0 then ena_init_config_aenq e s else (0, s)"
  let ?r = "\<lambda>e s. if 1 < num_rx_rings (ad s) then ena_rss_configure P e (num_rx_rings (ad s)) s else (0, s)"
  obtain r1 s1 where a: "?a exec s = (r1, s1)" by fastforce
  obtain r2 s2 where m: "?m exec s1 = (r2, s2)" by fastforce
  obtain r3 s3 where g: "?g exec s2 = (r3, s3)" by fastforce
  obtain r4 s4 where r: "?r exec s3 = (r4, s4)" by fastforce
  have i1: "I s1" and a': "?a exec' s = (r1, s1)" using device_attributes_laws [OF i] a by simp_all
  have i2: "I s2" using set_mtu_laws(2) [OF i1, of "ad_mtu (ad s1)"] i1 m by (simp split: if_splits)
  have m': "?m exec' s1 = (r2, s2)" using m unfolding set_mtu_laws(1) [OF i1] .
  have i3: "I s3" using config_aenq_laws(2) [OF i2] i2 g by (simp split: if_splits)
  have g': "?g exec' s2 = (r3, s3)" using g unfolding config_aenq_laws(1) [OF i2] .
  have i4: "I s4" using rss_configure_laws(2) [OF i3, of P "num_rx_rings (ad s3)"] i3 r by (simp split: if_splits)
  have r': "?r exec' s3 = (r4, s4)" using r unfolding rss_configure_laws(1) [OF i3] .
  show "ena_init_reapply_device_features P exec' s = ena_init_reapply_device_features P exec s"
    unfolding ena_init_reapply_device_features_def Let_def a a' prod.case m m' g g' r r' ..
  show "I (snd (ena_init_reapply_device_features P exec s))"
    unfolding ena_init_reapply_device_features_def Let_def a prod.case m g r using i4 by simp
qed

lemma recover_io_rings_laws:
  assumes i: "I s" and w: "\<forall>ty q. W ty q"
  shows "ena_adapter_recover_io_rings P exec' s = ena_adapter_recover_io_rings P exec s"
    "I (snd (ena_adapter_recover_io_rings P exec s))"
proof -
  obtain r1 n1 s1 where t: "recover_tx_loop exec [0..<unat (num_tx_rings (ad s))] 0 0 s = (r1, n1, s1)"
    using prod_cases3 by blast
  then have i1: "I s1" and t': "recover_tx_loop exec' [0..<unat (num_tx_rings (ad s))] 0 0 s = (r1, n1, s1)"
    using recover_tx_laws [OF i, of "[0..<unat (num_tx_rings (ad s))]" 0 0] w by simp_all
  obtain r2 n2 s2 where x: "recover_rx_loop P exec [0..<unat (num_rx_rings (ad s1))] r1 0 s1 = (r2, n2, s2)"
    using prod_cases3 by blast
  then have i2: "I s2" and x': "recover_rx_loop P exec' [0..<unat (num_rx_rings (ad s1))] r1 0 s1 = (r2, n2, s2)"
    using recover_rx_laws [OF i1, of "[0..<unat (num_rx_rings (ad s1))]" r1 0] w by simp_all
  note l = reapply_laws [OF i2]
  show "ena_adapter_recover_io_rings P exec' s = ena_adapter_recover_io_rings P exec s"
    unfolding ena_adapter_recover_io_rings_def t t' prod.case x x' l(1) ..
  show "I (snd (ena_adapter_recover_io_rings P exec s))"
    unfolding ena_adapter_recover_io_rings_def t prod.case x using i2 l(2) by (auto split: prod.splits)
qed

text \<open>What runs after the reset: the same with both execution functions, and the invariant holds.\<close>

lemma reset_and_recover_laws:
  assumes r: "\<And>s'. reset_admin P (set_active True s) = (0, s') \<Longrightarrow> I s'"
    and w: "\<forall>ty q. W ty q"
  shows "reset_and_recover_with P exec' s = reset_and_recover_with P exec s"
proof (cases "recover_active (ad s)")
  case False
  obtain rr t where t: "reset_admin P (set_active True s) = (rr, t)" by fastforce
  show ?thesis
  proof (cases "rr = 0")
    case True
    then have i: "I t" using r t by simp
    let ?u = "\<lambda>e. if \<not> ena_adapter_has_io_rings (ad t) \<and> aenq_enabled_groups (ad t) \<noteq> 0
        then snd (ena_init_config_aenq e t) else t"
    have iu: "I (?u exec)" "?u exec' = ?u exec" using config_aenq_laws [OF i] i by simp_all
    show ?thesis
      unfolding reset_and_recover_with_def Let_def t prod.case iu(2) recover_io_rings_laws(1) [OF iu(1) w] ..
  qed (simp add: reset_and_recover_with_def t)
qed (simp add: reset_and_recover_with_def)

end

end
