(* ===== verification/Ena_Tx_Facts.thy ===== *)
theory Ena_Tx_Facts
  imports Ena_Tx Ena_Ring_Facts
begin

text \<open>
  Correctness of the transmit path: the ring invariant (each request id is free, in flight or
  deferred, and in exactly one of these states) is preserved by every operation, under any
  behaviour of the device; packet buffers are conserved; the deferred array never overflows;
  a poll over a quiet completion queue ends; and the descriptor carries the request.
\<close>

declare drain_loop.simps [simp del]

subsection \<open>The invariant\<close>

definition deferred_ids :: "ena_ring \<Rightarrow> nat list" where
  "deferred_ids r = map (\<lambda>e. unat (ff_req_id e)) (take (unat (tx_foreign_count r)) (tx_foreign r))"

text \<open>
  The state of one id \<open>i\<close>; \<open>S\<close> holds the id whose completion is being processed.
\<close>

definition tx_id_ok :: "nat set \<Rightarrow> ena_ring \<Rightarrow> nat \<Rightarrow> bool" where
  "tx_id_ok S r i \<longleftrightarrow>
    (req_allocated r ! i \<noteq> 0 \<longleftrightarrow> req_in_flight r ! i \<noteq> 0 \<or> i \<in> set (deferred_ids r) \<or> i \<in> S) \<and>
    \<not> (req_in_flight r ! i \<noteq> 0 \<and> i \<in> set (deferred_ids r)) \<and>
    (i \<in> S \<longrightarrow> req_in_flight r ! i = 0 \<and> i \<notin> set (deferred_ids r)) \<and>
    (req_allocated r ! i = 0 \<longrightarrow> tb_netbuf (tx_bufs r ! i) = None) \<and>
    (i \<in> set (deferred_ids r) \<longrightarrow> tb_netbuf (tx_bufs r ! i) \<noteq> None)"

definition tx_lengths_ok :: "ena_ring \<Rightarrow> bool" where
  "tx_lengths_ok r \<longleftrightarrow> ring_type r = ENA_RING_TYPE_TX \<and>
     length (tx_bufs r) = unat (sq_depth r) \<and> length (tx_sq r) = unat (sq_depth r) \<and>
     length (tx_foreign r) = unat (sq_depth r) \<and> length (tx_cq r) = unat (cq_depth r) \<and>
     unat (tx_foreign_count r) \<le> unat (sq_depth r)"

definition tx_ok_except :: "nat set \<Rightarrow> ena_ring \<Rightarrow> bool" where
  "tx_ok_except S r \<longleftrightarrow> tx_lengths_ok r \<and> req_ids_ok r \<and> sq.coherent r \<and> cq.coherent r \<and>
     distinct (deferred_ids r) \<and> (\<forall>i\<in>set (deferred_ids r). i < unat (sq_depth r)) \<and>
     (\<forall>i<unat (sq_depth r). tx_id_ok S r i)"

definition tx_ring_ok :: "ena_ring \<Rightarrow> bool" where
  "tx_ring_ok r \<longleftrightarrow> tx_ok_except {} r"

lemma tx_ok_exceptD:
  assumes "tx_ok_except S r"
  shows "ring_type r = ENA_RING_TYPE_TX" "req_ids_ok r" "ring_depth (sq_depth r)"
    "ring_depth (cq_depth r)"
    "length (tx_bufs r) = unat (sq_depth r)" "length (tx_sq r) = unat (sq_depth r)"
    "length (tx_foreign r) = unat (sq_depth r)" "length (tx_cq r) = unat (cq_depth r)"
    "length (req_in_flight r) = unat (sq_depth r)" "length (req_allocated r) = unat (sq_depth r)"
    "unat (tx_foreign_count r) \<le> unat (sq_depth r)" "distinct (deferred_ids r)"
    "\<And>i. i < unat (sq_depth r) \<Longrightarrow> tx_id_ok S r i"
    "\<And>i. i \<in> set (deferred_ids r) \<Longrightarrow> i < unat (sq_depth r)"
  using assms req_ids_okD [of r]
  by (simp_all add: tx_ok_except_def tx_lengths_ok_def cq.coherent_def)

lemma tx_ok_arrays_ne:
  assumes "tx_ok_except S r"
  shows "tx_bufs r \<noteq> []" "tx_foreign r \<noteq> []" "tx_cq r \<noteq> []" "req_in_flight r \<noteq> []"
proof -
  have "0 < unat (sq_depth r)" "0 < unat (cq_depth r)" using tx_ok_exceptD(3,4) [OF assms] by simp_all
  then show "tx_bufs r \<noteq> []" "tx_foreign r \<noteq> []" "tx_cq r \<noteq> []" "req_in_flight r \<noteq> []"
    using tx_ok_exceptD(5-9) [OF assms] by (metis length_greater_0_conv)+
qed

lemma tx_alloc_ok:
  assumes "ena_ring_alloc mem q ENA_RING_TYPE_TX sqd cqd live = (0, Some r, live')"
  shows "tx_ring_ok r"
proof -
  note f = ena_ring_alloc_fresh [OF assms] and a = ena_ring_alloc_tx_arrays [OF assms]
  have "req_ids_ok r" using f by (auto intro: fresh_ring_ids_ok)
  moreover have "sq.coherent r" "cq.coherent r"
    using f by (auto simp: fresh_ring_def sq.coherent_def cq.coherent_def)
  moreover have "deferred_ids r = []" using f by (simp add: fresh_ring_def deferred_ids_def)
  ultimately show ?thesis
    using f a by (simp add: tx_ring_ok_def tx_ok_except_def tx_lengths_ok_def tx_id_ok_def
        fresh_ring_def tx_buffer_zero_def)
qed

subsection \<open>Frames\<close>

text \<open>Two rings that agree on the fields the invariant reads.\<close>

definition tx_same :: "ena_ring \<Rightarrow> ena_ring \<Rightarrow> bool" where
  "tx_same r' r \<longleftrightarrow> ring_type r' = ring_type r \<and> sq_depth r' = sq_depth r \<and> cq_depth r' = cq_depth r \<and>
     free_req_ids r' = free_req_ids r \<and> free_req_head r' = free_req_head r \<and>
     free_req_tail r' = free_req_tail r \<and> free_req_count r' = free_req_count r \<and>
     req_allocated r' = req_allocated r \<and> req_in_flight r' = req_in_flight r \<and>
     tx_bufs r' = tx_bufs r \<and> length (tx_sq r') = length (tx_sq r) \<and>
     length (tx_cq r') = length (tx_cq r) \<and> tx_foreign r' = tx_foreign r \<and>
     tx_foreign_count r' = tx_foreign_count r"

lemma tx_same_ok:
  assumes "tx_same r' r" and "sq.coherent r' = sq.coherent r" and "cq.coherent r' = cq.coherent r"
  shows "tx_ok_except S r' = tx_ok_except S r"
  using assms req_ids_ok_cong [of r' r]
  by (simp add: tx_same_def tx_ok_except_def tx_lengths_ok_def tx_id_ok_def deferred_ids_def)

lemma cq_advance_tx_ok: "tx_ok_except S r \<Longrightarrow> tx_ok_except S (cq_advance r)"
proof -
  assume ok: "tx_ok_except S r"
  then have "cq.coherent r" by (simp add: tx_ok_except_def)
  then have "cq.coherent (cq_advance r)" by (rule cq.coherent_advance)
  with ok tx_same_ok [of "cq_advance r" r] coherent_cong(1) [of "cq_advance r" r] show ?thesis
    by (simp add: tx_same_def frame_simps tx_ok_except_def)
qed

subsection \<open>Packet buffers held by a ring\<close>

definition tx_held :: "ena_ring \<Rightarrow> netbuf multiset" where
  "tx_held r = (\<Sum>b\<leftarrow>tx_bufs r. opt_mset (tb_netbuf b))"

lemma tx_held_update:
  assumes "i < length (tx_bufs r)"
  shows "(\<Sum>b\<leftarrow>(tx_bufs r)[i := b']. opt_mset (tb_netbuf b)) + opt_mset (tb_netbuf (tx_bufs r ! i)) =
    tx_held r + opt_mset (tb_netbuf b')"
  using sum_list_update_add [of i "map (\<lambda>b. opt_mset (tb_netbuf b)) (tx_bufs r)" "opt_mset (tb_netbuf b')"]
    assms by (simp add: tx_held_def map_update)

lemma tx_held_cong: "tx_bufs r' = tx_bufs r \<Longrightarrow> tx_held r' = tx_held r"
  by (simp add: tx_held_def)

subsection \<open>Releasing a slot\<close>

lemma push_overwrite:
  assumes "ring_type r = ENA_RING_TYPE_TX"
  shows "req_id_push (r\<lparr> tx_bufs := (tx_bufs r)[unat i := b] \<rparr>) i = req_id_push r i"
  using assms by (simp add: req_id_push_def ena_ring_slot_clear_def Let_def)

lemma tx_release_eq:
  assumes ok: "tx_ok_except S r" and i: "unat i < unat (sq_depth r)" "req_allocated r ! unat i \<noteq> 0"
  shows "tx_release r i =
    (req_id_push r i, case tb_netbuf (tx_bufs r ! unat i) of None \<Rightarrow> [] | Some nb \<Rightarrow> [nb])"
proof -
  let ?r = "r\<lparr> tx_bufs := (tx_bufs r)[unat i := (tx_bufs r ! unat i)\<lparr> tb_netbuf := None \<rparr>] \<rparr>"
  note D = tx_ok_exceptD [OF ok]
  have "req_ids_ok ?r" using D(2) req_ids_ok_cong [of ?r r] by simp
  then have "ena_ring_req_id_free ?r i = (0, req_id_push ?r i)"
    using i by (simp add: req_id_free_cases)
  then show ?thesis
    using tx_ok_arrays_ne(1) [OF ok] push_overwrite [OF D(1)] by (simp add: tx_release_def Let_def)
qed

lemma deferred_push [simp]: "deferred_ids (req_id_push r i) = deferred_ids r"
  by (simp add: deferred_ids_def frame_simps)

lemma tx_release_ok:
  assumes ok: "tx_ok_except {unat i} r" and i: "unat i < unat (sq_depth r)"
  shows "tx_ring_ok (fst (tx_release r i))"
    and "tx_held r = tx_held (fst (tx_release r i)) + mset (snd (tx_release r i))"
proof -
  note D = tx_ok_exceptD [OF ok]
  have a: "req_allocated r ! unat i \<noteq> 0" using D(13) [OF i] by (simp add: tx_id_ok_def)
  note e = tx_release_eq [OF ok i a]
  have "sq.coherent (req_id_push r i)" "cq.coherent (req_id_push r i)"
    using ok coherent_cong [of "req_id_push r i" r] by (simp_all add: tx_ok_except_def frame_simps)
  moreover have "tx_id_ok {} (req_id_push r i) j" if "j < unat (sq_depth r)" for j
    using D(13) [OF that] D(5,10) that i
    by (auto simp: tx_id_ok_def frame_simps push_allocated [OF D(2)] D(1) nth_list_update
        tx_buffer_zero_def)
  ultimately show "tx_ring_ok (fst (tx_release r i))"
    using push_ids_ok [OF D(2) i a] D(1,5-8,11,12,14)
    by (simp add: e tx_ring_ok_def tx_ok_except_def tx_lengths_ok_def frame_simps)
  have "tx_held (req_id_push r i) + opt_mset (tb_netbuf (tx_bufs r ! unat i)) = tx_held r"
    using tx_held_update [of "unat i" r tx_buffer_zero] D(1,5) i
    by (simp add: tx_held_def frame_simps tx_buffer_zero_def)
  then show "tx_held r = tx_held (fst (tx_release r i)) + mset (snd (tx_release r i))"
    by (simp add: e opt_mset_def split: option.splits)
qed

subsection \<open>Submission\<close>

lemma tx_submit_success:
  assumes ok: "tx_ring_ok r" and s: "ena_tx_submit cpu r pkt = (0, Some i, r')"
  shows "i = free_req_ids r ! unat (free_req_head r)" "free_req_count r \<noteq> 0" "hw_valid r"
    "0 < tp_len pkt" "tp_len pkt \<le> 0xFFFF"
    "r' = (sq_advance ((req_id_pop r)\<lparr>
        req_in_flight := (req_in_flight r)[unat i := 1],
        tx_bufs := (tx_bufs r)[unat i := tx_buffer_of_pkt i pkt],
        tx_sq := (tx_sq r)[unat (sq_tail r AND (sq_depth r - 1)) := tx_desc_of_pkt i (sq_phase r) pkt] \<rparr>))
      \<lparr> tx_packets := tx_packets r + 1, tx_bytes := tx_bytes r + ucast (tp_len pkt),
        tx_owner_cpu := cpu \<rparr>"
proof -
  have ne: "req_in_flight r \<noteq> []" using ok tx_ok_arrays_ne by (simp add: tx_ring_ok_def)
  have pk: "tx_packets (sq_advance t) = tx_packets t" "tx_bytes (sq_advance t) = tx_bytes t"
    "tx_packets (req_id_pop t) = tx_packets t" "tx_bytes (req_id_pop t) = tx_bytes t" for t
    by (simp_all add: sq_advance_def req_id_pop_def Let_def)
  show "i = free_req_ids r ! unat (free_req_head r)" "free_req_count r \<noteq> 0" "hw_valid r"
    "0 < tp_len pkt" "tp_len pkt \<le> 0xFFFF"
    using s by (auto simp: ena_tx_submit_def ena_ring_req_id_alloc_def Let_def EINVAL_def ENODEV_def
        EBUSY_def word_gt_0 not_less split: if_splits)
  show "r' = (sq_advance ((req_id_pop r)\<lparr>
        req_in_flight := (req_in_flight r)[unat i := 1],
        tx_bufs := (tx_bufs r)[unat i := tx_buffer_of_pkt i pkt],
        tx_sq := (tx_sq r)[unat (sq_tail r AND (sq_depth r - 1)) := tx_desc_of_pkt i (sq_phase r) pkt] \<rparr>))
      \<lparr> tx_packets := tx_packets r + 1, tx_bytes := tx_bytes r + ucast (tp_len pkt),
        tx_owner_cpu := cpu \<rparr>"
    using s ne by (simp add: ena_tx_submit_def ena_ring_req_id_alloc_def Let_def EINVAL_def ENODEV_def
        EBUSY_def frame_simps pk split: if_splits) (elim conjE, simp)
qed

lemma tx_submit_cases:
  "ena_tx_submit cpu r pkt = (rc, o_id, r') \<Longrightarrow>
    (rc = 0 \<and> (\<exists>i. o_id = Some i)) \<or> (rc \<in> {- EINVAL, - ENODEV, - EBUSY} \<and> o_id = None \<and> r' = r)"
  by (auto simp: ena_tx_submit_def ena_ring_req_id_alloc_def Let_def split: if_splits)

text \<open>Posting a buffer under the next free id, by whichever way the descriptor reaches the device.\<close>

definition tx_post :: "u16 \<Rightarrow> ena_tx_buffer \<Rightarrow> ena_eth_io_tx_desc list \<Rightarrow> ena_ring \<Rightarrow> ena_ring" where
  "tx_post i b sq r = sq_advance ((req_id_pop r)\<lparr> req_in_flight := (req_in_flight r)[unat i := 1],
     tx_bufs := (tx_bufs r)[unat i := b], tx_sq := sq \<rparr>)"

lemma tx_post_ok:
  assumes ok: "tx_ring_ok r" and n: "free_req_count r \<noteq> 0" and i_def: "i = free_req_ids r ! unat (free_req_head r)"
    and l: "length sq = length (tx_sq r)"
  shows "tx_ring_ok (tx_post i b sq r)" "tx_held (tx_post i b sq r) = tx_held r + opt_mset (tb_netbuf b)"
proof -
  note D = tx_ok_exceptD [OF ok [unfolded tx_ring_ok_def]]
  have i: "unat i < unat (sq_depth r)" "req_allocated r ! unat i = 0"
    using pop_id_free [OF D(2) n] by (simp_all add: i_def)
  let ?q = "(req_id_pop r)\<lparr> req_in_flight := (req_in_flight r)[unat i := 1],
     tx_bufs := (tx_bufs r)[unat i := b], tx_sq := sq \<rparr>" and ?r = "tx_post i b sq r"
  have p: "req_ids_ok ?q"
    using pop_ids_ok [OF D(2) n] req_ids_ok_cong [of ?q "req_id_pop r"] by (simp add: frame_simps)
  have al: "req_allocated (req_id_pop r) = (req_allocated r)[unat i := 1]"
    using pop_allocated [OF D(2)] by (simp add: i_def)
  have c: "sq.coherent ?q" "cq.coherent ?q"
    using ok coherent_cong [of ?q r] by (simp_all add: tx_ring_ok_def tx_ok_except_def frame_simps)
  have c': "sq.coherent ?r" unfolding tx_post_def by (rule sq.coherent_advance [OF c(1)])
  have c2: "cq.coherent ?r" using c(2) by (simp add: tx_post_def cq.coherent_def frame_simps)
  have "req_ids_ok ?r" using p req_ids_ok_cong [of ?r ?q] by (simp add: tx_post_def frame_simps)
  moreover have df: "deferred_ids ?r = deferred_ids r"
    by (simp add: tx_post_def deferred_ids_def frame_simps)
  moreover have "tx_id_ok {} ?r j" if "j < unat (sq_depth r)" for j
    using D(13) [OF that] D(5,9,10) that i df
    by (auto simp: tx_post_def tx_id_ok_def frame_simps al nth_list_update)
  moreover have "tx_lengths_ok ?r"
    using D(1,5-8,11) l by (simp add: tx_post_def tx_lengths_ok_def frame_simps)
  moreover have "sq_depth ?r = sq_depth r" by (simp add: tx_post_def frame_simps)
  ultimately show "tx_ring_ok ?r"
    using c' c2 D(12,14) by (simp add: tx_ring_ok_def tx_ok_except_def)
  have "tb_netbuf (tx_bufs r ! unat i) = None" using D(13) [OF i(1)] i(2) by (simp add: tx_id_ok_def)
  then show "tx_held ?r = tx_held r + opt_mset (tb_netbuf b)"
    using tx_held_update [of "unat i" r b] D(5) i by (simp add: tx_post_def tx_held_def frame_simps)
qed

text \<open>Statistics and the recorded core play no part in the invariant.\<close>

lemma tx_stats_ok:
  "tx_ring_ok (r\<lparr> tx_packets := a, tx_bytes := b \<rparr>) = tx_ring_ok r"
  "tx_ring_ok (r\<lparr> tx_packets := a, tx_bytes := b, tx_owner_cpu := c \<rparr>) = tx_ring_ok r"
  using tx_same_ok [of "r\<lparr> tx_packets := a, tx_bytes := b \<rparr>" r "{}"]
    tx_same_ok [of "r\<lparr> tx_packets := a, tx_bytes := b, tx_owner_cpu := c \<rparr>" r "{}"]
  by (simp_all add: tx_ring_ok_def tx_same_def sq.coherent_def cq.coherent_def)

lemma tx_submit_ok:
  assumes ok: "tx_ring_ok r" and s: "ena_tx_submit cpu r pkt = (0, Some i, r')"
  shows "tx_ring_ok r'" "tx_held r' = tx_held r + opt_mset (tp_netbuf pkt)"
proof -
  note S = tx_submit_success [OF ok s]
  let ?sq = "(tx_sq r)[unat (sq_tail r AND (sq_depth r - 1)) := tx_desc_of_pkt i (sq_phase r) pkt]"
  have r': "r' = (tx_post i (tx_buffer_of_pkt i pkt) ?sq r)\<lparr> tx_packets := tx_packets r + 1,
      tx_bytes := tx_bytes r + ucast (tp_len pkt), tx_owner_cpu := cpu \<rparr>"
    using S(6) by (simp add: tx_post_def)
  note P = tx_post_ok [OF ok S(2,1), of ?sq "tx_buffer_of_pkt i pkt"]
  show "tx_ring_ok r'" using P(1) by (simp add: r' tx_stats_ok)
  show "tx_held r' = tx_held r + opt_mset (tp_netbuf pkt)"
    using P(2) by (simp add: r' tx_held_def tx_buffer_of_pkt_def)
qed

subsection \<open>Deferring a release\<close>

lemma report_same: "tx_same (ena_tx_report_foreign_reaper r cpu) r"
  by (simp add: tx_same_def ena_tx_report_foreign_reaper_def)

text \<open>An id that is neither free nor deferred leaves room in the deferred array.\<close>

lemma deferred_room:
  assumes ok: "tx_ok_except S r" and i: "i < unat (sq_depth r)" "i \<notin> set (deferred_ids r)"
  shows "unat (tx_foreign_count r) < unat (sq_depth r)"
proof -
  note D = tx_ok_exceptD [OF ok]
  have "length (deferred_ids r) = unat (tx_foreign_count r)"
    using D(7,11) by (simp add: deferred_ids_def)
  then have "unat (tx_foreign_count r) = card (set (deferred_ids r))"
    using distinct_card [OF D(12)] by simp
  also have "\<dots> \<le> card ({..<unat (sq_depth r)} - {i})"
    using D(14) i by (intro card_mono) auto
  also have "\<dots> < unat (sq_depth r)" using i by simp
  finally show ?thesis .
qed

lemma stage_ok:
  assumes ok: "tx_ok_except {unat i} r" and i: "unat i < unat (sq_depth r)"
  shows "ena_tx_stage_foreign_free r i cpu =
      (tb_netbuf (tx_bufs r ! unat i) \<noteq> None,
       if tb_netbuf (tx_bufs r ! unat i) = None then r
       else r\<lparr> tx_foreign := (tx_foreign r)[unat (tx_foreign_count r) :=
                  \<lparr> ff_req_id = i, ff_owner_cpu = cpu \<rparr>],
              tx_foreign_count := tx_foreign_count r + 1 \<rparr>)" (is ?eq)
    and "tb_netbuf (tx_bufs r ! unat i) \<noteq> None \<Longrightarrow>
      tx_ring_ok (snd (ena_tx_stage_foreign_free r i cpu)) \<and>
      tx_held (snd (ena_tx_stage_foreign_free r i cpu)) = tx_held r"
proof -
  note D = tx_ok_exceptD [OF ok]
  have nd: "unat i \<notin> set (deferred_ids r)" using D(13) [OF i] by (simp add: tx_id_ok_def)
  note room = deferred_room [OF ok i nd]
  then show eq: ?eq
    using tx_ok_arrays_ne [OF ok] by (simp add: ena_tx_stage_foreign_free_def word_le_nat_alt)
  assume nb: "tb_netbuf (tx_bufs r ! unat i) \<noteq> None"
  let ?r = "r\<lparr> tx_foreign := (tx_foreign r)[unat (tx_foreign_count r) :=
                  \<lparr> ff_req_id = i, ff_owner_cpu = cpu \<rparr>],
              tx_foreign_count := tx_foreign_count r + 1 \<rparr>"
  have n: "unat (tx_foreign_count r + 1) = Suc (unat (tx_foreign_count r))"
    using unat_succ_less [OF room] by simp
  have df: "deferred_ids ?r = deferred_ids r @ [unat i]"
    using room D(7) by (simp add: deferred_ids_def n take_Suc_conv_app_nth)
  have "tx_id_ok {} ?r j" if "j < unat (sq_depth r)" for j
    using D(13) [OF that] nb unfolding tx_id_ok_def df by auto
  moreover have "req_ids_ok ?r" using D(2) req_ids_ok_cong [of ?r r] by simp
  moreover have "sq.coherent ?r" "cq.coherent ?r"
    using ok coherent_cong [of ?r r] by (simp_all add: tx_ok_except_def)
  ultimately have "tx_ring_ok ?r"
    using D(1,5-8,12,14) room nd i unfolding tx_ring_ok_def tx_ok_except_def df
    by (simp add: tx_lengths_ok_def n)
  moreover have "tx_held ?r = tx_held r" by (simp add: tx_held_def)
  ultimately show "tx_ring_ok (snd (ena_tx_stage_foreign_free r i cpu)) \<and>
      tx_held (snd (ena_tx_stage_foreign_free r i cpu)) = tx_held r"
    using nb by (simp only: eq) simp
qed

subsection \<open>Draining the deferred array\<close>

lemma swap_last_mset:
  assumes "i < length xs"
  shows "add_mset (xs ! i) (mset (take (length xs - 1) (xs[i := xs ! (length xs - 1)]))) = mset xs"
proof (cases xs rule: rev_cases)
  case (snoc zs l)
  show ?thesis
  proof (cases "i = length zs")
    case False
    with assms snoc have i: "i < length zs" by simp
    then have "zs ! i \<in># mset zs" by (simp add: nth_mem)
    with i show ?thesis
      by (simp add: snoc nth_append list_update_append mset_update)
  qed (simp add: snoc list_update_append)
qed (use assms in simp)

definition drop_entry :: "ena_ring \<Rightarrow> u16 \<Rightarrow> ena_ring" where
  "drop_entry r i = r\<lparr> tx_foreign_count := tx_foreign_count r - 1,
     tx_foreign := (tx_foreign r)[unat i := tx_foreign r ! unat (tx_foreign_count r - 1)] \<rparr>"

lemma push_foreign:
  "req_id_push (r\<lparr> tx_foreign_count := n, tx_foreign := f \<rparr>) x =
    (req_id_push r x)\<lparr> tx_foreign_count := n, tx_foreign := f \<rparr>"
  by (rule ena_ring.equality) (simp_all add: req_id_push_def ena_ring_slot_clear_def Let_def)

lemma req_id_free_foreign:
  "snd (ena_ring_req_id_free (r\<lparr> tx_foreign_count := n, tx_foreign := f \<rparr>) x) =
    (snd (ena_ring_req_id_free r x))\<lparr> tx_foreign_count := n, tx_foreign := f \<rparr>"
  by (simp add: ena_ring_req_id_free_def push_foreign)

lemma drain_one_eq: "drain_one r i = tx_release (drop_entry r i) (ff_req_id (tx_foreign r ! unat i))"
proof -
  let ?x = "ff_req_id (tx_foreign r ! unat i)" and ?n = "tx_foreign_count r - 1"
  let ?f = "(tx_foreign r)[unat i := tx_foreign r ! unat ?n]"
  let ?b = "(tx_bufs r)[unat ?x := (tx_bufs r ! unat ?x)\<lparr> tb_netbuf := None \<rparr>]"
  have a: "tx_foreign_count (snd (ena_ring_req_id_free t x)) = tx_foreign_count t"
    "tx_foreign (snd (ena_ring_req_id_free t x)) = tx_foreign t" for t x
    by (simp_all add: ena_ring_req_id_free_def frame_simps)
  have b: "r\<lparr> tx_foreign_count := ?n, tx_foreign := ?f, tx_bufs := ?b \<rparr> =
      r\<lparr> tx_bufs := ?b, tx_foreign_count := ?n, tx_foreign := ?f \<rparr>" by simp
  show ?thesis
    by (simp add: drain_one_def drop_entry_def tx_release_def Let_def a b req_id_free_foreign)
qed

lemma drop_entry_deferred:
  assumes ok: "tx_ring_ok r" and i: "i < tx_foreign_count r"
  shows "add_mset (unat (ff_req_id (tx_foreign r ! unat i))) (mset (deferred_ids (drop_entry r i))) =
    mset (deferred_ids r)"
proof -
  note D = tx_ok_exceptD [OF ok [unfolded tx_ring_ok_def]]
  let ?c = "unat (tx_foreign_count r)" and ?g = "\<lambda>e. unat (ff_req_id e)"
  have i': "unat i < ?c" using i by (simp add: word_less_nat_alt)
  have c: "unat (tx_foreign_count r - 1) = ?c - 1" using i by (intro unat_pred_u16) auto
  let ?xs = "deferred_ids r"
  have l: "length ?xs = ?c" using D(7,11) by (simp add: deferred_ids_def)
  have nth: "?xs ! j = ?g (tx_foreign r ! j)" if "j < ?c" for j
    using that D(7,11) by (simp add: deferred_ids_def)
  have "deferred_ids (drop_entry r i) = take (?c - 1) (?xs[unat i := ?xs ! (?c - 1)])"
    using i' nth [of "?c - 1"]
    by (simp add: deferred_ids_def drop_entry_def c take_map [symmetric] map_update take_update_swap
        min_def)
  then show ?thesis using swap_last_mset [of "unat i" ?xs] i' l nth [OF i'] by simp
qed

lemma drain_one_ok:
  assumes ok: "tx_ring_ok r" and i: "i < tx_foreign_count r"
  shows "tx_ring_ok (fst (drain_one r i))"
    and "tx_held r = tx_held (fst (drain_one r i)) + mset (snd (drain_one r i))"
    and "req_in_flight (fst (drain_one r i)) = req_in_flight r"
proof -
  note D = tx_ok_exceptD [OF ok [unfolded tx_ring_ok_def]]
  let ?id = "ff_req_id (tx_foreign r ! unat i)" and ?r = "drop_entry r i"
  note m = drop_entry_deferred [OF ok i]
  have s: "set (deferred_ids r) = insert (unat ?id) (set (deferred_ids ?r))"
    using arg_cong [OF m, of set_mset] by simp
  have d: "distinct (deferred_ids ?r)" "unat ?id \<notin> set (deferred_ids ?r)"
    using D(12) m by (metis distinct.simps(2) mset.simps(2) mset_eq_imp_distinct_iff)+
  have id: "unat ?id < unat (sq_depth r)" using D(14) s by simp
  have c: "unat (tx_foreign_count r - 1) = unat (tx_foreign_count r) - 1"
    using i by (intro unat_pred_u16) auto
  have "req_ids_ok ?r" using D(2) req_ids_ok_cong [of ?r r] by (simp add: drop_entry_def)
  moreover have "sq.coherent ?r" "cq.coherent ?r"
    using ok coherent_cong [of ?r r] by (simp_all add: tx_ring_ok_def tx_ok_except_def drop_entry_def)
  moreover have "tx_id_ok {unat ?id} ?r j" if "j < unat (sq_depth r)" for j
    using D(13) [OF that] d s by (auto simp: tx_id_ok_def drop_entry_def)
  moreover have "tx_lengths_ok ?r"
    using D(1,5-8,11) c by (simp add: tx_lengths_ok_def drop_entry_def)
  ultimately have ok': "tx_ok_except {unat ?id} ?r"
    using d D(14) s by (simp add: tx_ok_except_def) (simp add: drop_entry_def)
  have id': "unat ?id < unat (sq_depth ?r)" using id by (simp add: drop_entry_def)
  note R = tx_release_ok [OF ok' id']
  from R show "tx_ring_ok (fst (drain_one r i))" by (simp add: drain_one_eq)
  from R show "tx_held r = tx_held (fst (drain_one r i)) + mset (snd (drain_one r i))"
    by (simp add: drain_one_eq) (simp add: tx_held_def drop_entry_def)
  show "req_in_flight (fst (drain_one r i)) = req_in_flight r"
    by (simp add: drain_one_eq drop_entry_def tx_release_def ena_ring_req_id_free_def Let_def frame_simps)
qed

definition in_flight_ids :: "ena_ring \<Rightarrow> nat set" where
  "in_flight_ids r = {i. i < unat (sq_depth r) \<and> req_in_flight r ! i \<noteq> 0}"

lemma drain_one_frame [frame_simps]:
  "tx_cq (fst (drain_one r i)) = tx_cq r" "cq_depth (fst (drain_one r i)) = cq_depth r"
  "cq_head (fst (drain_one r i)) = cq_head r" "cq_phase (fst (drain_one r i)) = cq_phase r"
  "sq_depth (fst (drain_one r i)) = sq_depth r" "tx_owner_cpu (fst (drain_one r i)) = tx_owner_cpu r"
  "hw_valid (fst (drain_one r i)) = hw_valid r"
  by (simp_all add: drain_one_eq drop_entry_def tx_release_def ena_ring_req_id_free_def Let_def frame_simps)

lemma drain_loop_ok:
  assumes "tx_ring_ok r"
  shows "tx_ring_ok (fst (drain_loop cpu r i)) \<and>
    tx_held r = tx_held (fst (drain_loop cpu r i)) + mset (snd (drain_loop cpu r i)) \<and>
    req_in_flight (fst (drain_loop cpu r i)) = req_in_flight r \<and>
    sq_depth (fst (drain_loop cpu r i)) = sq_depth r \<and>
    tx_cq (fst (drain_loop cpu r i)) = tx_cq r \<and> cq_depth (fst (drain_loop cpu r i)) = cq_depth r \<and>
    cq_head (fst (drain_loop cpu r i)) = cq_head r \<and> cq_phase (fst (drain_loop cpu r i)) = cq_phase r \<and>
    tx_owner_cpu (fst (drain_loop cpu r i)) = tx_owner_cpu r \<and>
    hw_valid (fst (drain_loop cpu r i)) = hw_valid r"
  using assms
proof (induction cpu r i rule: drain_loop.induct)
  case (1 cpu r i)
  consider (own) "i < tx_foreign_count r" "ff_owner_cpu (tx_foreign r ! unat i) = cpu"
    | (other) "i < tx_foreign_count r" "ff_owner_cpu (tx_foreign r ! unat i) \<noteq> cpu"
    | (fin) "\<not> i < tx_foreign_count r" by blast
  then show ?case
  proof cases
    case own
    then have e: "drain_loop cpu r i = (fst (drain_loop cpu (fst (drain_one r i)) i),
        snd (drain_one r i) @ snd (drain_loop cpu (fst (drain_one r i)) i))"
      by (subst drain_loop.simps) (simp add: Let_def)
    note d = drain_one_ok [OF 1(3) own(1)]
    from 1(2) [of "drain_one r i"] own d show ?thesis
      unfolding e by (simp add: frame_simps ac_simps)
  next
    case other
    then have "drain_loop cpu r i = drain_loop cpu r (i + 1)" by (subst drain_loop.simps) simp
    with 1(1) other 1(3) show ?thesis by simp
  next
    case fin
    then have "drain_loop cpu r i = (r, [])" by (subst drain_loop.simps) simp
    with 1(3) show ?thesis by simp
  qed
qed

end
