(* ===== verification/Ena_Rx_Facts.thy ===== *)
theory Ena_Rx_Facts
  imports Ena_Rx Ena_Ring_Facts
begin

text \<open>
  Correctness of the receive path: the ring invariant and conservation of packet buffers over
  posting, refill and polling under any device behaviour, the bound on delivered lengths, and
  termination of a poll over a quiet completion queue.
\<close>

declare rx_refill_loop.simps [simp del]

subsection \<open>The invariant\<close>

text \<open>
  A request id that is checked out is in flight and its slot describes the posted buffer; the
  slot of a free id is empty.
\<close>

definition rx_id_ok :: "ena_ring \<Rightarrow> nat \<Rightarrow> bool" where
  "rx_id_ok r i \<longleftrightarrow>
    (if req_allocated r ! i = 0 then rx_bufs r ! i = rx_buffer_zero
     else req_in_flight r ! i \<noteq> 0 \<and> rb_netbuf (rx_bufs r ! i) \<noteq> None \<and>
       0 < rb_data_len (rx_bufs r ! i) \<and> rb_data_len (rx_bufs r ! i) \<le> 0xFFFF)"

definition rx_ring_ok :: "ena_ring \<Rightarrow> bool" where
  "rx_ring_ok r \<longleftrightarrow> ring_type r = ENA_RING_TYPE_RX \<and> req_ids_ok r \<and> sq.coherent r \<and> cq.coherent r \<and>
     length (rx_bufs r) = unat (sq_depth r) \<and> length (rx_sq r) = unat (sq_depth r) \<and>
     length (rx_cq r) = unat (cq_depth r) \<and> (\<forall>i<unat (sq_depth r). rx_id_ok r i)"

definition rx_held :: "ena_ring \<Rightarrow> netbuf multiset" where
  "rx_held r = (\<Sum>b\<leftarrow>rx_bufs r. opt_mset (rb_netbuf b))"

lemma rx_ring_okD:
  assumes "rx_ring_ok r"
  shows "ring_type r = ENA_RING_TYPE_RX" "req_ids_ok r" "ring_depth (sq_depth r)" "ring_depth (cq_depth r)"
    "length (rx_bufs r) = unat (sq_depth r)" "length (rx_sq r) = unat (sq_depth r)"
    "length (rx_cq r) = unat (cq_depth r)" "length (req_in_flight r) = unat (sq_depth r)"
    "length (req_allocated r) = unat (sq_depth r)" "\<And>i. i < unat (sq_depth r) \<Longrightarrow> rx_id_ok r i"
  using assms req_ids_okD [of r] by (simp_all add: rx_ring_ok_def cq.coherent_def)

lemma rx_ring_ok_ne:
  assumes "rx_ring_ok r" shows "req_in_flight r \<noteq> []" "rx_cq r \<noteq> []"
proof -
  have "0 < unat (sq_depth r)" "0 < unat (cq_depth r)" using rx_ring_okD(3,4) [OF assms] by simp_all
  then show "req_in_flight r \<noteq> []" "rx_cq r \<noteq> []"
    using rx_ring_okD(7,8) [OF assms] by (metis length_greater_0_conv)+
qed

lemma rx_alloc_ok:
  assumes "ena_ring_alloc mem q ENA_RING_TYPE_RX sqd cqd live = (0, Some r, live')"
  shows "rx_ring_ok r"
proof -
  note f = ena_ring_alloc_fresh [OF assms] and a = ena_ring_alloc_rx_arrays [OF assms]
  have "req_ids_ok r" using f by (auto intro: fresh_ring_ids_ok)
  moreover have "sq.coherent r" "cq.coherent r"
    using f by (auto simp: fresh_ring_def sq.coherent_def cq.coherent_def)
  ultimately show ?thesis using f a by (simp add: rx_ring_ok_def rx_id_ok_def fresh_ring_def)
qed

lemma rx_held_update:
  assumes "i < length (rx_bufs r)"
  shows "(\<Sum>b\<leftarrow>(rx_bufs r)[i := b']. opt_mset (rb_netbuf b)) + opt_mset (rb_netbuf (rx_bufs r ! i)) =
    rx_held r + opt_mset (rb_netbuf b')"
  using sum_list_update_add [of i "map (\<lambda>b. opt_mset (rb_netbuf b)) (rx_bufs r)" "opt_mset (rb_netbuf b')"]
    assms by (simp add: rx_held_def map_update)

text \<open>Two rings that agree on the fields the invariant reads.\<close>

definition rx_same :: "ena_ring \<Rightarrow> ena_ring \<Rightarrow> bool" where
  "rx_same r' r \<longleftrightarrow> ring_type r' = ring_type r \<and> sq_depth r' = sq_depth r \<and> cq_depth r' = cq_depth r \<and>
     free_req_ids r' = free_req_ids r \<and> free_req_head r' = free_req_head r \<and>
     free_req_tail r' = free_req_tail r \<and> free_req_count r' = free_req_count r \<and>
     req_allocated r' = req_allocated r \<and> req_in_flight r' = req_in_flight r \<and>
     rx_bufs r' = rx_bufs r \<and> length (rx_sq r') = length (rx_sq r) \<and>
     length (rx_cq r') = length (rx_cq r)"

lemma rx_same_ok:
  assumes "rx_same r' r" and "sq.coherent r' = sq.coherent r" and "cq.coherent r' = cq.coherent r"
  shows "rx_ring_ok r' = rx_ring_ok r" "rx_held r' = rx_held r"
  using assms req_ids_ok_cong [of r' r]
  by (simp_all add: rx_same_def rx_ring_ok_def rx_id_ok_def rx_held_def)

lemma cq_advance_rx_ok: "rx_ring_ok r \<Longrightarrow> rx_ring_ok (cq_advance r)"
  and cq_advance_rx_held: "rx_held (cq_advance r) = rx_held r"
proof -
  assume ok: "rx_ring_ok r"
  then have "cq.coherent r" by (simp add: rx_ring_ok_def)
  then have c: "cq.coherent (cq_advance r)" by (rule cq.coherent_advance)
  have "rx_ring_ok (cq_advance r) = rx_ring_ok r"
    by (rule rx_same_ok) (use c \<open>cq.coherent r\<close> in \<open>simp_all add: rx_same_def frame_simps sq.coherent_def\<close>)
  with ok show "rx_ring_ok (cq_advance r)" by simp
qed (simp add: rx_held_def frame_simps)

subsection \<open>Posting a buffer\<close>

lemma rx_submit_success:
  assumes ok: "rx_ring_ok r" and s: "ena_rx_submit_one r nb pa len = (0, o_id, r')"
  defines "i \<equiv> free_req_ids r ! unat (free_req_head r)"
  shows "o_id = Some i" "free_req_count r \<noteq> 0" "hw_valid r" "0 < len" "len \<le> 0xFFFF" "nb \<noteq> None"
    "r' = sq_advance ((req_id_pop r)\<lparr>
        req_in_flight := (req_in_flight r)[unat i := 1],
        rx_bufs := (rx_bufs r)[unat i := \<lparr> rb_netbuf = nb, rb_phys_addr = pa, rb_data_len = len,
                     rb_req_id = i \<rparr>],
        rx_sq := (rx_sq r)[unat (sq_tail r AND (sq_depth r - 1)) := rx_desc_of_buf i (sq_phase r) pa len] \<rparr>)"
proof -
  have ne: "req_in_flight r \<noteq> []" by (rule rx_ring_ok_ne [OF ok])
  show "o_id = Some i" "free_req_count r \<noteq> 0" "hw_valid r" "0 < len" "len \<le> 0xFFFF" "nb \<noteq> None"
    using s by (auto simp: ena_rx_submit_one_def ena_ring_req_id_alloc_def Let_def EINVAL_def ENODEV_def
        EBUSY_def word_gt_0 not_less i_def split: if_splits)
  show "r' = sq_advance ((req_id_pop r)\<lparr>
        req_in_flight := (req_in_flight r)[unat i := 1],
        rx_bufs := (rx_bufs r)[unat i := \<lparr> rb_netbuf = nb, rb_phys_addr = pa, rb_data_len = len,
                     rb_req_id = i \<rparr>],
        rx_sq := (rx_sq r)[unat (sq_tail r AND (sq_depth r - 1)) := rx_desc_of_buf i (sq_phase r) pa len] \<rparr>)"
    using s ne by (simp add: ena_rx_submit_one_def ena_ring_req_id_alloc_def Let_def EINVAL_def ENODEV_def
        EBUSY_def frame_simps i_def split: if_splits)
qed

lemma rx_submit_ok:
  assumes ok: "rx_ring_ok r" and s: "ena_rx_submit_one r nb pa len = (0, o_id, r')"
  shows "rx_ring_ok r'" "rx_held r' = rx_held r + opt_mset nb"
    "unat (free_req_count r') = unat (free_req_count r) - 1" "hw_valid r' = hw_valid r"
proof -
  note S = rx_submit_success [OF ok s] and D = rx_ring_okD [OF ok]
  let ?i = "free_req_ids r ! unat (free_req_head r)"
  note i = pop_id_free [OF D(2) S(2)]
  let ?q = "(req_id_pop r)\<lparr>
        req_in_flight := (req_in_flight r)[unat ?i := 1],
        rx_bufs := (rx_bufs r)[unat ?i := \<lparr> rb_netbuf = nb, rb_phys_addr = pa, rb_data_len = len,
                     rb_req_id = ?i \<rparr>],
        rx_sq := (rx_sq r)[unat (sq_tail r AND (sq_depth r - 1)) := rx_desc_of_buf ?i (sq_phase r) pa len] \<rparr>"
  have p: "req_ids_ok ?q"
    using pop_ids_ok [OF D(2) S(2)] req_ids_ok_cong [of ?q "req_id_pop r"] by (simp add: frame_simps)
  have al: "req_allocated (req_id_pop r) = (req_allocated r)[unat ?i := 1]" by (rule pop_allocated [OF D(2)])
  have c: "sq.coherent ?q" "cq.coherent ?q"
    using ok coherent_cong [of ?q r] by (simp_all add: rx_ring_ok_def frame_simps)
  have "sq.coherent r'" unfolding S(7) by (rule sq.coherent_advance [OF c(1)])
  moreover have "cq.coherent r'" using c(2) unfolding S(7) by (simp add: cq.coherent_def frame_simps)
  moreover have "req_ids_ok r'" using p req_ids_ok_cong [of r' ?q] unfolding S(7) by (simp add: frame_simps)
  moreover have "rx_id_ok r' j" if "j < unat (sq_depth r)" for j
    using D(10) [OF that] D(5,8,9) that i S(4-6)
    by (auto simp: S(7) rx_id_ok_def frame_simps al nth_list_update)
  moreover have "sq_depth r' = sq_depth r" "cq_depth r' = cq_depth r" "ring_type r' = ring_type r"
    "length (rx_bufs r') = length (rx_bufs r)" "length (rx_sq r') = length (rx_sq r)" "rx_cq r' = rx_cq r"
    unfolding S(7) by (simp_all add: frame_simps)
  ultimately show "rx_ring_ok r'" using D by (simp add: rx_ring_ok_def)
  have "rb_netbuf (rx_bufs r ! unat ?i) = None"
    using D(10) [OF i(1)] i(2) by (simp add: rx_id_ok_def rx_buffer_zero_def)
  then show "rx_held r' = rx_held r + opt_mset nb"
    using rx_held_update [of "unat ?i" r "\<lparr> rb_netbuf = nb, rb_phys_addr = pa, rb_data_len = len,
                     rb_req_id = ?i \<rparr>"] D(5) i
    by (simp add: S(7) rx_held_def frame_simps)
  have "free_req_count r' = free_req_count r - 1"
    unfolding S(7) using rp.pop_fields [OF S(2)] by (simp add: frame_simps)
  with unat_pred_u16 [OF S(2)] show "unat (free_req_count r') = unat (free_req_count r) - 1" by simp
  show "hw_valid r' = hw_valid r" unfolding S(7) by (simp add: frame_simps)
qed

lemma rx_submit_fail:
  "ena_rx_submit_one r nb pa len = (rc, o_id, r') \<Longrightarrow> rc \<noteq> 0 \<Longrightarrow> r' = r \<and> o_id = None"
  by (auto simp: ena_rx_submit_one_def ena_ring_req_id_alloc_def Let_def split: if_splits)

subsection \<open>Releasing a request\<close>

text \<open>The invariant except for the state of one id.\<close>

definition rx_ok_but :: "nat \<Rightarrow> ena_ring \<Rightarrow> bool" where
  "rx_ok_but k r \<longleftrightarrow> ring_type r = ENA_RING_TYPE_RX \<and> req_ids_ok r \<and> sq.coherent r \<and> cq.coherent r \<and>
     length (rx_bufs r) = unat (sq_depth r) \<and> length (rx_sq r) = unat (sq_depth r) \<and>
     length (rx_cq r) = unat (cq_depth r) \<and>
     (\<forall>i<unat (sq_depth r). i \<noteq> k \<longrightarrow> rx_id_ok r i) \<and>
     (req_allocated r ! k = 0 \<longrightarrow> rx_bufs r ! k = rx_buffer_zero)"

lemma rx_free_ok:
  assumes ok: "rx_ok_but (unat i) r" and i: "unat i < unat (sq_depth r)"
  shows "rx_ring_ok (snd (ena_ring_req_id_free r i))"
    and "rx_held r = rx_held (snd (ena_ring_req_id_free r i)) + opt_mset (rb_netbuf (rx_bufs r ! unat i))"
proof -
  have ids: "req_ids_ok r" and ty: "ring_type r = ENA_RING_TYPE_RX"
    and l: "length (rx_bufs r) = unat (sq_depth r)" using ok by (simp_all add: rx_ok_but_def)
  note e = req_id_free_cases [OF ids i] and la = req_ids_okD(1) [OF ids]
  show "rx_ring_ok (snd (ena_ring_req_id_free r i))"
  proof (cases "req_allocated r ! unat i = 0")
    case True
    then have "rx_id_ok r j" if "j < unat (sq_depth r)" for j
      using ok that by (cases "j = unat i") (simp_all add: rx_ok_but_def rx_id_ok_def)
    with ok True e show ?thesis by (simp add: rx_ok_but_def rx_ring_ok_def)
  next
    case False
    have "rx_id_ok (req_id_push r i) j" if "j < unat (sq_depth r)" for j
      using ok that i la l ty
      by (cases "j = unat i") (simp_all add: rx_ok_but_def rx_id_ok_def frame_simps push_allocated [OF ids])
    moreover have "sq.coherent (req_id_push r i)" "cq.coherent (req_id_push r i)"
      using ok coherent_cong [of "req_id_push r i" r] by (simp_all add: rx_ok_but_def frame_simps)
    ultimately show ?thesis
      using ok e False push_ids_ok [OF ids i False]
      by (simp add: rx_ring_ok_def rx_ok_but_def frame_simps)
  qed
  show "rx_held r = rx_held (snd (ena_ring_req_id_free r i)) + opt_mset (rb_netbuf (rx_bufs r ! unat i))"
  proof (cases "req_allocated r ! unat i = 0")
    case True
    with ok e show ?thesis by (simp add: rx_ok_but_def rx_buffer_zero_def)
  next
    case False
    with rx_held_update [of "unat i" r rx_buffer_zero] l i e ty show ?thesis
      by (simp add: rx_held_def frame_simps rx_buffer_zero_def)
  qed
qed

lemma req_id_free_frame [frame_simps]:
  "req_in_flight (snd (ena_ring_req_id_free r i)) = req_in_flight r"
  "sq_depth (snd (ena_ring_req_id_free r i)) = sq_depth r" "cq_depth (snd (ena_ring_req_id_free r i)) = cq_depth r"
  "cq_head (snd (ena_ring_req_id_free r i)) = cq_head r" "cq_phase (snd (ena_ring_req_id_free r i)) = cq_phase r"
  "rx_cq (snd (ena_ring_req_id_free r i)) = rx_cq r" "hw_valid (snd (ena_ring_req_id_free r i)) = hw_valid r"
  "cq_db (snd (ena_ring_req_id_free r i)) = cq_db r"
  by (simp_all add: ena_ring_req_id_free_def frame_simps)

lemma rx_deliver_ok:
  assumes ok: "rx_ring_ok r" and i: "unat (rxc_req_id c) < unat (sq_depth r)"
    and e: "rx_deliver_one c r = (pkt, r')"
  shows "rx_ring_ok r'" "rx_held r = rx_held r' + opt_mset (pk_netbuf pkt)"
    "pkt = rx_pkt_of c (rx_bufs r ! unat (rxc_req_id c))"
proof -
  let ?i = "rxc_req_id c"
  let ?p = "rx_pkt_of c (rx_bufs r ! unat ?i)"
  let ?r = "r\<lparr> req_in_flight := (req_in_flight r)[unat ?i := 0],
                rx_packets := rx_packets r + 1, rx_bytes := rx_bytes r + ucast (pk_len ?p) \<rparr>"
  note D = rx_ring_okD [OF ok]
  have p: "pkt = ?p" and r': "r' = cq_advance (snd (ena_ring_req_id_free ?r ?i))"
    using e by (auto simp: rx_deliver_one_def Let_def)
  have "req_ids_ok ?r" using D(2) req_ids_ok_cong [of ?r r] by simp
  moreover have "sq.coherent ?r" "cq.coherent ?r"
    using ok coherent_cong [of ?r r] by (simp_all add: rx_ring_ok_def)
  moreover have "rx_id_ok ?r j" if "j < unat (sq_depth r)" "j \<noteq> unat ?i" for j
    using D(10) [OF that(1)] that by (simp add: rx_id_ok_def)
  ultimately have ok1: "rx_ok_but (unat ?i) ?r"
    using D D(10) [OF i] by (simp add: rx_ok_but_def rx_id_ok_def split: if_splits)
  have i1: "unat ?i < unat (sq_depth ?r)" using i by simp
  note F = rx_free_ok [OF ok1 i1]
  show "rx_ring_ok r'" unfolding r' by (rule cq_advance_rx_ok [OF F(1)])
  show "pkt = rx_pkt_of c (rx_bufs r ! unat (rxc_req_id c))" by (rule p)
  have "rx_held ?r = rx_held r" by (simp add: rx_held_def)
  with F(2) show "rx_held r = rx_held r' + opt_mset (pk_netbuf pkt)"
    by (simp add: r' p cq_advance_rx_held rx_pkt_of_def)
qed

lemma rx_drop_ok:
  assumes ok: "rx_ring_ok r" and i: "unat (rxc_req_id c) < unat (sq_depth r)"
    and e: "rx_drop_one c r q = (r', q', freed)"
  shows "rx_ring_ok r'" "rx_held r = rx_held r' + mset freed"
proof -
  let ?i = "rxc_req_id c"
  let ?b = "rx_bufs r ! unat ?i"
  let ?r = "r\<lparr> rx_dropped := rx_dropped r + 1,
               rx_bufs := (rx_bufs r)[unat ?i := ?b\<lparr> rb_netbuf := None \<rparr>] \<rparr>"
  note D = rx_ring_okD [OF ok]
  have r': "r' = cq_advance (snd (ena_ring_req_id_free ?r ?i))"
    and f: "mset freed = opt_mset (rb_netbuf ?b)"
    using e by (auto simp: rx_drop_one_def Let_def opt_mset_def split: option.splits)
  have "req_ids_ok ?r" using D(2) req_ids_ok_cong [of ?r r] by simp
  moreover have "sq.coherent ?r" "cq.coherent ?r"
    using ok coherent_cong [of ?r r] by (simp_all add: rx_ring_ok_def)
  moreover have "rx_id_ok ?r j" if "j < unat (sq_depth r)" "j \<noteq> unat ?i" for j
    using D(10) [OF that(1)] that by (simp add: rx_id_ok_def)
  ultimately have ok1: "rx_ok_but (unat ?i) ?r"
    using D D(10) [OF i] i by (simp add: rx_ok_but_def rx_id_ok_def rx_buffer_zero_def split: if_splits)
  have i1: "unat ?i < unat (sq_depth ?r)" using i by simp
  note F = rx_free_ok [OF ok1 i1]
  show "rx_ring_ok r'" unfolding r' by (rule cq_advance_rx_ok [OF F(1)])
  have "rx_held ?r = rx_held (snd (ena_ring_req_id_free ?r ?i))" using F(2) D(5) i by simp
  then show "rx_held r = rx_held r' + mset freed"
    using rx_held_update [of "unat ?i" r "?b\<lparr> rb_netbuf := None \<rparr>"] D(5) i
    by (simp add: r' f cq_advance_rx_held) (simp add: rx_held_def)
qed

lemma rx_one_frame:
  "rx_deliver_one c r = (pkt, r') \<Longrightarrow> cq_head r' = cq_head r + 1 \<and> cq_depth r' = cq_depth r \<and>
    rx_cq r' = rx_cq r \<and> hw_valid r' = hw_valid r \<and> sq_depth r' = sq_depth r \<and>
    req_in_flight r' = (req_in_flight r)[unat (rxc_req_id c) := 0]"
  "rx_drop_one c r q = (r', q', freed) \<Longrightarrow> cq_head r' = cq_head r + 1 \<and> cq_depth r' = cq_depth r \<and>
    rx_cq r' = rx_cq r \<and> hw_valid r' = hw_valid r \<and> sq_depth r' = sq_depth r \<and>
    req_in_flight r' = req_in_flight r"
  by (auto simp: rx_deliver_one_def rx_drop_one_def Let_def frame_simps cq.cursor_advance)

subsection \<open>The poll loop\<close>

lemma rx_poll_loop_cases:
  assumes e: "rx_poll_loop (d # devs) mx s = Some t"
  defines "r \<equiv> (rs_ring s)\<lparr> rx_cq := d (rx_cq (rs_ring s)) \<rparr>"
  defines "c \<equiv> rx_cq r ! unat (cq_head r AND (cq_depth r - 1))"
  obtains (stop) "t = s \<or> t = s\<lparr> rs_ring := r \<rparr>"
    | (skip) "rx_poll_loop devs mx (s\<lparr> rs_ring := cq_advance r \<rparr>) = Some t"
    | (drop) r1 q1 f1 where "unat (rxc_req_id c) < unat (sq_depth r)"
        "rx_drop_one c r (rs_queue s) = (r1, q1, f1)"
        "req_in_flight r ! unat (rxc_req_id c) \<noteq> 0"
        "rx_poll_loop devs mx (s\<lparr> rs_ring := r1, rs_queue := q1, rs_dropped := rs_dropped s + 1,
           rs_freed := rs_freed s @ f1 \<rparr>) = Some t"
    | (deliver) pkt r1 where "length (rs_pkts s) < mx" "unat (rxc_req_id c) < unat (sq_depth r)"
        "req_in_flight r ! unat (rxc_req_id c) \<noteq> 0"
        "ucast (rxc_length c) \<le> rb_data_len (rx_bufs r ! unat (rxc_req_id c))"
        "rx_deliver_one c r = (pkt, r1)"
        "rx_poll_loop devs mx (s\<lparr> rs_ring := r1, rs_pkts := rs_pkts s @ [pkt] \<rparr>) = Some t"
proof (cases "length (rs_pkts s) < mx")
  case False
  with e show thesis by (intro stop) simp_all
next
  case b: True
  have u: "rx_poll_loop (d # devs) mx s =
      (if rx_cdesc_phase c \<noteq> cq_phase r then Some (s\<lparr> rs_ring := r \<rparr>)
       else if sq_depth r \<le> rxc_req_id c then Some (s\<lparr> rs_ring := r \<rparr>)
       else if req_in_flight r = [] \<or> req_in_flight r ! unat (rxc_req_id c) = 0 then
         rx_poll_loop devs mx (s\<lparr> rs_ring := cq_advance r \<rparr>)
       else if rb_data_len (rx_bufs r ! unat (rxc_req_id c)) < ucast (rxc_length c) then
         (case rx_drop_one c r (rs_queue s) of (r, q, freed) \<Rightarrow>
            rx_poll_loop devs mx (s\<lparr> rs_ring := r, rs_queue := q, rs_dropped := rs_dropped s + 1,
              rs_freed := rs_freed s @ freed \<rparr>))
       else (case rx_deliver_one c r of (pkt, r) \<Rightarrow>
            rx_poll_loop devs mx (s\<lparr> rs_ring := r, rs_pkts := rs_pkts s @ [pkt] \<rparr>)))"
    using b by (simp add: Let_def r_def c_def)
  show thesis
  proof (cases "rx_cdesc_phase c \<noteq> cq_phase r \<or> sq_depth r \<le> rxc_req_id c")
    case True
    with e u show thesis by (intro stop) (auto split: if_splits)
  next
    case v: False
    then have i: "unat (rxc_req_id c) < unat (sq_depth r)" by (simp add: word_le_nat_alt)
    obtain r1 q1 f1 where t1: "rx_drop_one c r (rs_queue s) = (r1, q1, f1)"
      by (cases "rx_drop_one c r (rs_queue s)")
    obtain pkt r2 where t2: "rx_deliver_one c r = (pkt, r2)" by (cases "rx_deliver_one c r")
    show thesis
    proof (cases "req_in_flight r = [] \<or> req_in_flight r ! unat (rxc_req_id c) = 0")
      case True
      with e u v show thesis by (intro skip) simp
    next
      case w: False
      show thesis
      proof (cases "rb_data_len (rx_bufs r ! unat (rxc_req_id c)) < ucast (rxc_length c)")
        case True
        with e u v w i t1 show thesis by (intro drop) simp_all
      next
        case False
        with e u v w i b t2 show thesis by (intro deliver) simp_all
      qed
    qed
  qed
qed

definition rs_total :: "rx_poll_state \<Rightarrow> netbuf multiset" where
  "rs_total s = rx_held (rs_ring s) + mset (rs_freed s) + (\<Sum>p\<leftarrow>rs_pkts s. opt_mset (pk_netbuf p))"

lemma cq_write_rx_ok:
  assumes "rx_ring_ok r" and "length m = length (rx_cq r)"
  shows "rx_ring_ok (r\<lparr> rx_cq := m \<rparr>)" "rx_held (r\<lparr> rx_cq := m \<rparr>) = rx_held r"
proof -
  have "rx_ring_ok (r\<lparr> rx_cq := m \<rparr>) = rx_ring_ok r"
    by (rule rx_same_ok; (rule coherent_cong)?; simp add: rx_same_def assms(2))
  with assms(1) show "rx_ring_ok (r\<lparr> rx_cq := m \<rparr>)" by simp
qed (simp add: rx_held_def)

text \<open>
  The induction principle of the loop: a property of the state that every device write that
  keeps the length of the queue, every skipped entry, every drop and every delivery preserves.
\<close>

lemma rx_poll_loop_invariant:
  assumes "rx_poll_loop devs mx s = Some t" and "\<forall>d\<in>set devs. \<forall>m. length (d m) = length m"
    and "rx_ring_ok (rs_ring s)" and "P s"
    and dma: "\<And>s m. \<lbrakk>rx_ring_ok (rs_ring s); P s; length m = length (rx_cq (rs_ring s))\<rbrakk> \<Longrightarrow>
      P (s\<lparr> rs_ring := (rs_ring s)\<lparr> rx_cq := m \<rparr> \<rparr>)"
    and skip: "\<And>s. \<lbrakk>rx_ring_ok (rs_ring s); P s\<rbrakk> \<Longrightarrow> P (s\<lparr> rs_ring := cq_advance (rs_ring s) \<rparr>)"
    and drop: "\<And>s c r1 q1 f1. \<lbrakk>rx_ring_ok (rs_ring s); P s;
        unat (rxc_req_id c) < unat (sq_depth (rs_ring s)); req_in_flight (rs_ring s) ! unat (rxc_req_id c) \<noteq> 0;
        rx_drop_one c (rs_ring s) (rs_queue s) = (r1, q1, f1)\<rbrakk> \<Longrightarrow>
      P (s\<lparr> rs_ring := r1, rs_queue := q1, rs_dropped := rs_dropped s + 1, rs_freed := rs_freed s @ f1 \<rparr>)"
    and deliver: "\<And>s c r1 pkt. \<lbrakk>rx_ring_ok (rs_ring s); P s; length (rs_pkts s) < mx;
        unat (rxc_req_id c) < unat (sq_depth (rs_ring s)); req_in_flight (rs_ring s) ! unat (rxc_req_id c) \<noteq> 0;
        ucast (rxc_length c) \<le> rb_data_len (rx_bufs (rs_ring s) ! unat (rxc_req_id c));
        rx_deliver_one c (rs_ring s) = (pkt, r1)\<rbrakk> \<Longrightarrow>
      P (s\<lparr> rs_ring := r1, rs_pkts := rs_pkts s @ [pkt] \<rparr>)"
  shows "rx_ring_ok (rs_ring t) \<and> P t"
  using assms(1-4)
proof (induction devs arbitrary: s)
  case (Cons d devs)
  let ?r = "(rs_ring s)\<lparr> rx_cq := d (rx_cq (rs_ring s)) \<rparr>"
  have l: "length (d (rx_cq (rs_ring s))) = length (rx_cq (rs_ring s))" using Cons.prems(2) by simp
  have kl: "\<forall>d\<in>set devs. \<forall>m. length (d m) = length m" using Cons.prems(2) by simp
  have w: "rx_ring_ok ?r" "P (s\<lparr> rs_ring := ?r \<rparr>)"
    using cq_write_rx_ok [OF Cons.prems(3) l] dma [OF Cons.prems(3,4) l] by simp_all
  have w': "rx_ring_ok (rs_ring (s\<lparr> rs_ring := ?r \<rparr>))" using w by simp
  from Cons.prems(1) show ?case
  proof (cases rule: rx_poll_loop_cases)
    case stop
    with Cons.prems w show ?thesis by auto
  next
    case loop: skip
    from Cons.IH [OF loop kl] skip [OF w' w(2)] cq_advance_rx_ok [OF w(1)] show ?thesis by simp
  next
    case loop: (drop r1 q1 f1)
    from Cons.IH [OF loop(4) kl] drop [OF w' w(2), of _ r1 q1 f1] loop(1-3) rx_drop_ok(1) [OF w(1) loop(1,2)]
    show ?thesis by simp
  next
    case loop: (deliver pkt r1)
    from Cons.IH [OF loop(6) kl] deliver [OF w' w(2), of _ pkt r1] loop rx_deliver_ok(1) [OF w(1) loop(2,5)]
    show ?thesis by simp
  qed
qed simp

lemma rx_poll_loop_total:
  assumes "rx_poll_loop devs mx s = Some t" and "\<forall>d\<in>set devs. \<forall>m. length (d m) = length m"
    and "rx_ring_ok (rs_ring s)" and "length (rs_pkts s) \<le> mx"
  shows "rx_ring_ok (rs_ring t) \<and> rs_total t = rs_total s \<and> length (rs_pkts t) \<le> mx"
  using assms(1-3)
proof (rule rx_poll_loop_invariant [where P = "\<lambda>u. rs_total u = rs_total s \<and> length (rs_pkts u) \<le> mx"])
  show "rs_total s = rs_total s \<and> length (rs_pkts s) \<le> mx" using assms(4) by simp
next
  fix u c r1 q1 f1
  assume "rx_ring_ok (rs_ring u)" "rs_total u = rs_total s \<and> length (rs_pkts u) \<le> mx"
    "unat (rxc_req_id c) < unat (sq_depth (rs_ring u))" "rx_drop_one c (rs_ring u) (rs_queue u) = (r1, q1, f1)"
  with rx_drop_ok(2) [of "rs_ring u" c "rs_queue u" r1 q1 f1]
  show "rs_total (u\<lparr> rs_ring := r1, rs_queue := q1, rs_dropped := rs_dropped u + 1,
      rs_freed := rs_freed u @ f1 \<rparr>) = rs_total s \<and>
    length (rs_pkts (u\<lparr> rs_ring := r1, rs_queue := q1, rs_dropped := rs_dropped u + 1,
      rs_freed := rs_freed u @ f1 \<rparr>)) \<le> mx"
    by (simp add: rs_total_def ac_simps)
next
  fix u c r1 pkt
  assume "rx_ring_ok (rs_ring u)" "rs_total u = rs_total s \<and> length (rs_pkts u) \<le> mx" "length (rs_pkts u) < mx"
    "unat (rxc_req_id c) < unat (sq_depth (rs_ring u))" "rx_deliver_one c (rs_ring u) = (pkt, r1)"
  with rx_deliver_ok(2) [of "rs_ring u" c pkt r1]
  show "rs_total (u\<lparr> rs_ring := r1, rs_pkts := rs_pkts u @ [pkt] \<rparr>) = rs_total s \<and>
    length (rs_pkts (u\<lparr> rs_ring := r1, rs_pkts := rs_pkts u @ [pkt] \<rparr>)) \<le> mx"
    by (simp add: rs_total_def ac_simps)
qed (simp_all add: rs_total_def rx_held_def frame_simps)

subsection \<open>Delivered packets\<close>

text \<open>During a poll a slot of the ring either keeps its content or is cleared.\<close>

definition slots_from :: "ena_ring \<Rightarrow> ena_ring \<Rightarrow> bool" where
  "slots_from r0 r \<longleftrightarrow> sq_depth r = sq_depth r0 \<and>
    (\<forall>i<unat (sq_depth r0). rx_bufs r ! i = rx_bufs r0 ! i \<or> rx_bufs r ! i = rx_buffer_zero)"

text \<open>The packet carries the buffer posted under its request id and fits in it.\<close>

definition pkt_from :: "ena_ring \<Rightarrow> ena_rx_pkt \<Rightarrow> bool" where
  "pkt_from r0 p \<longleftrightarrow>
    (let b = rx_bufs r0 ! unat (pk_req_id p) in
     unat (pk_req_id p) < unat (sq_depth r0) \<and>
     (pk_netbuf p = rb_netbuf b \<and> pk_len p \<le> rb_data_len b \<or> pk_netbuf p = None \<and> pk_len p = 0))"

lemma slots_from_free:
  assumes "rx_ok_but (unat i) r" "unat i < unat (sq_depth r)"
    and "\<forall>j<unat (sq_depth r0). j \<noteq> unat i \<longrightarrow> rx_bufs r ! j = rx_bufs r0 ! j \<or> rx_bufs r ! j = rx_buffer_zero"
    and "sq_depth r = sq_depth r0"
  shows "slots_from r0 (cq_advance (snd (ena_ring_req_id_free r i)))"
proof -
  have ids: "req_ids_ok r" and ty: "ring_type r = ENA_RING_TYPE_RX"
    and l: "length (rx_bufs r) = unat (sq_depth r)" and z: "req_allocated r ! unat i = 0 \<Longrightarrow> rx_bufs r ! unat i = rx_buffer_zero"
    using assms(1) by (simp_all add: rx_ok_but_def)
  have "rx_bufs (snd (ena_ring_req_id_free r i)) = (rx_bufs r)[unat i := rx_buffer_zero]"
    using req_id_free_cases [OF ids assms(2)] z ty
    by (cases "req_allocated r ! unat i = 0") (simp_all add: frame_simps, metis list_update_id)
  with assms(2-4) l show ?thesis
    by (auto simp: slots_from_def frame_simps nth_list_update)
qed

lemma rx_deliver_slots:
  assumes ok: "rx_ring_ok r" and i: "unat (rxc_req_id c) < unat (sq_depth r)"
    and e: "rx_deliver_one c r = (pkt, r')" and s: "slots_from r0 r"
    and len: "ucast (rxc_length c) \<le> rb_data_len (rx_bufs r ! unat (rxc_req_id c))"
  shows "slots_from r0 r' \<and> pkt_from r0 pkt"
proof -
  let ?i = "rxc_req_id c" and ?p = "rx_pkt_of c (rx_bufs r ! unat (rxc_req_id c))"
  let ?r = "r\<lparr> req_in_flight := (req_in_flight r)[unat ?i := 0],
                rx_packets := rx_packets r + 1, rx_bytes := rx_bytes r + ucast (pk_len ?p) \<rparr>"
  note D = rx_ring_okD [OF ok]
  have p: "pkt = ?p" and r': "r' = cq_advance (snd (ena_ring_req_id_free ?r ?i))"
    using e by (auto simp: rx_deliver_one_def Let_def)
  have "req_ids_ok ?r" using D(2) req_ids_ok_cong [of ?r r] by simp
  moreover have "sq.coherent ?r" "cq.coherent ?r"
    using ok coherent_cong [of ?r r] by (simp_all add: rx_ring_ok_def)
  moreover have "rx_id_ok ?r j" if "j < unat (sq_depth r)" "j \<noteq> unat ?i" for j
    using D(10) [OF that(1)] that by (simp add: rx_id_ok_def)
  ultimately have ok1: "rx_ok_but (unat ?i) ?r"
    using D D(10) [OF i] by (simp add: rx_ok_but_def rx_id_ok_def split: if_splits)
  have "slots_from r0 r'"
    unfolding r' using ok1 i s by (intro slots_from_free) (simp_all add: slots_from_def)
  moreover have "rx_bufs r ! unat ?i = rx_bufs r0 ! unat ?i \<or> rx_bufs r ! unat ?i = rx_buffer_zero"
    using s i by (simp add: slots_from_def)
  then have "pkt_from r0 pkt"
    using s i len by (auto simp: pkt_from_def p rx_pkt_of_def slots_from_def rx_buffer_zero_def)
  ultimately show ?thesis by simp
qed

lemma rx_drop_slots:
  assumes ok: "rx_ring_ok r" and i: "unat (rxc_req_id c) < unat (sq_depth r)"
    and e: "rx_drop_one c r q = (r', q', freed)" and s: "slots_from r0 r"
  shows "slots_from r0 r'"
proof -
  let ?i = "rxc_req_id c"
  let ?r = "r\<lparr> rx_dropped := rx_dropped r + 1,
               rx_bufs := (rx_bufs r)[unat ?i := (rx_bufs r ! unat ?i)\<lparr> rb_netbuf := None \<rparr>] \<rparr>"
  note D = rx_ring_okD [OF ok]
  have r': "r' = cq_advance (snd (ena_ring_req_id_free ?r ?i))"
    using e by (auto simp: rx_drop_one_def Let_def)
  have "req_ids_ok ?r" using D(2) req_ids_ok_cong [of ?r r] by simp
  moreover have "sq.coherent ?r" "cq.coherent ?r"
    using ok coherent_cong [of ?r r] by (simp_all add: rx_ring_ok_def)
  moreover have "rx_id_ok ?r j" if "j < unat (sq_depth r)" "j \<noteq> unat ?i" for j
    using D(10) [OF that(1)] that by (simp add: rx_id_ok_def)
  ultimately have ok1: "rx_ok_but (unat ?i) ?r"
    using D D(10) [OF i] i by (simp add: rx_ok_but_def rx_id_ok_def rx_buffer_zero_def split: if_splits)
  then show ?thesis
    unfolding r' using i s by (intro slots_from_free) (simp_all add: slots_from_def)
qed

lemma rx_poll_loop_pkts:
  assumes "rx_poll_loop devs mx s = Some t" and "\<forall>d\<in>set devs. \<forall>m. length (d m) = length m"
    and "rx_ring_ok (rs_ring s)" and "rs_pkts s = []"
  shows "\<forall>p\<in>set (rs_pkts t). pkt_from (rs_ring s) p"
proof -
  let ?P = "\<lambda>u. slots_from (rs_ring s) (rs_ring u) \<and> (\<forall>p\<in>set (rs_pkts u). pkt_from (rs_ring s) p)"
  have "rx_ring_ok (rs_ring t) \<and> ?P t"
    using assms(1-3)
  proof (rule rx_poll_loop_invariant [where P = ?P])
    show "?P s" using assms(4) by (simp add: slots_from_def)
  next
    fix u c r1 q1 f1
    assume "rx_ring_ok (rs_ring u)" "?P u" "unat (rxc_req_id c) < unat (sq_depth (rs_ring u))"
      "rx_drop_one c (rs_ring u) (rs_queue u) = (r1, q1, f1)"
    then show "?P (u\<lparr> rs_ring := r1, rs_queue := q1, rs_dropped := rs_dropped u + 1, rs_freed := rs_freed u @ f1 \<rparr>)"
      using rx_drop_slots by simp
  next
    fix u c r1 pkt
    assume "rx_ring_ok (rs_ring u)" "?P u" "unat (rxc_req_id c) < unat (sq_depth (rs_ring u))"
      "ucast (rxc_length c) \<le> rb_data_len (rx_bufs (rs_ring u) ! unat (rxc_req_id c))"
      "rx_deliver_one c (rs_ring u) = (pkt, r1)"
    then show "?P (u\<lparr> rs_ring := r1, rs_pkts := rs_pkts u @ [pkt] \<rparr>)"
      using rx_deliver_slots by simp
  qed (simp_all add: slots_from_def frame_simps)
  then show ?thesis by simp
qed

text \<open>No stale in-flight flag: every id in flight is checked out.\<close>

definition rx_clean :: "ena_ring \<Rightarrow> bool" where
  "rx_clean r \<longleftrightarrow> (\<forall>i<unat (sq_depth r). req_in_flight r ! i \<noteq> 0 \<longrightarrow> req_allocated r ! i \<noteq> 0)"

lemma rx_deliver_clean:
  assumes ok: "rx_ring_ok r" and i: "unat (rxc_req_id c) < unat (sq_depth r)"
    and f: "req_in_flight r ! unat (rxc_req_id c) \<noteq> 0"
    and e: "rx_deliver_one c r = (pkt, r')" and cl: "rx_clean r"
  shows "rx_clean r' \<and> pk_netbuf pkt \<noteq> None"
proof -
  let ?i = "rxc_req_id c" and ?p = "rx_pkt_of c (rx_bufs r ! unat (rxc_req_id c))"
  let ?r = "r\<lparr> req_in_flight := (req_in_flight r)[unat ?i := 0],
                rx_packets := rx_packets r + 1, rx_bytes := rx_bytes r + ucast (pk_len ?p) \<rparr>"
  note D = rx_ring_okD [OF ok]
  have a: "req_allocated r ! unat ?i \<noteq> 0" using cl i f by (simp add: rx_clean_def)
  then have nb: "rb_netbuf (rx_bufs r ! unat ?i) \<noteq> None" using D(10) [OF i] by (simp add: rx_id_ok_def)
  have p: "pkt = ?p" and r': "r' = cq_advance (snd (ena_ring_req_id_free ?r ?i))"
    using e by (auto simp: rx_deliver_one_def Let_def)
  have ids: "req_ids_ok ?r" using D(2) req_ids_ok_cong [of ?r r] by simp
  then have "r' = cq_advance (req_id_push ?r ?i)"
    using req_id_free_cases [OF ids] i a by (simp add: r')
  with cl i D(8,9) have "rx_clean r'"
    by (auto simp: rx_clean_def frame_simps push_allocated [OF ids] nth_list_update)
  with nb show ?thesis by (simp add: p rx_pkt_of_def)
qed

lemma rx_poll_loop_clean:
  assumes "rx_poll_loop devs mx s = Some t" and "\<forall>d\<in>set devs. \<forall>m. length (d m) = length m"
    and "rx_ring_ok (rs_ring s)" and "rs_pkts s = []" and "rx_clean (rs_ring s)" and "rs_freed t = []"
  shows "rx_clean (rs_ring t) \<and> (\<forall>p\<in>set (rs_pkts t). pk_netbuf p \<noteq> None)"
proof -
  let ?P = "\<lambda>u. rs_freed u = [] \<longrightarrow> rx_clean (rs_ring u) \<and> (\<forall>p\<in>set (rs_pkts u). pk_netbuf p \<noteq> None)"
  have "rx_ring_ok (rs_ring t) \<and> ?P t"
    using assms(1-3)
  proof (rule rx_poll_loop_invariant [where P = ?P])
    fix u c r1 q1 f1
    assume u: "rx_ring_ok (rs_ring u)" "?P u" "unat (rxc_req_id c) < unat (sq_depth (rs_ring u))"
      "req_in_flight (rs_ring u) ! unat (rxc_req_id c) \<noteq> 0"
      "rx_drop_one c (rs_ring u) (rs_queue u) = (r1, q1, f1)"
    have "f1 \<noteq> [] \<or> rb_netbuf (rx_bufs (rs_ring u) ! unat (rxc_req_id c)) = None"
      using u(5) by (auto simp: rx_drop_one_def Let_def split: option.splits)
    then have "rs_freed u = [] \<Longrightarrow> f1 \<noteq> []"
      using u(2-4) rx_ring_okD(10) [OF u(1,3)] by (auto simp: rx_clean_def rx_id_ok_def split: if_splits)
    then show "?P (u\<lparr> rs_ring := r1, rs_queue := q1, rs_dropped := rs_dropped u + 1, rs_freed := rs_freed u @ f1 \<rparr>)"
      by auto
  next
    fix u c r1 pkt
    assume "rx_ring_ok (rs_ring u)" "?P u" "unat (rxc_req_id c) < unat (sq_depth (rs_ring u))"
      "req_in_flight (rs_ring u) ! unat (rxc_req_id c) \<noteq> 0"
      "rx_deliver_one c (rs_ring u) = (pkt, r1)"
    then show "?P (u\<lparr> rs_ring := r1, rs_pkts := rs_pkts u @ [pkt] \<rparr>)"
      using rx_deliver_clean by simp
  qed (use assms(4,5) in \<open>simp_all add: rx_clean_def frame_simps\<close>)
  then show ?thesis using assms(6) by simp
qed

subsection \<open>Termination of a poll\<close>

definition rx_cq_current :: "ena_ring \<Rightarrow> nat \<Rightarrow> bool" where
  "rx_cq_current r k \<longleftrightarrow>
    rx_cdesc_phase (rx_cq r ! unat ((cq_head r + of_nat k) AND (cq_depth r - 1))) =
      phase_at 1 (cq_depth r) (cq_head r + of_nat k)"

lemma rx_cq_current_step:
  "cq_head r' = cq_head r + 1 \<Longrightarrow> cq_depth r' = cq_depth r \<Longrightarrow> rx_cq r' = rx_cq r \<Longrightarrow>
    rx_cq_current r' k = rx_cq_current r (Suc k)"
  by (simp add: rx_cq_current_def algebra_simps)

lemma rx_cq_not_all_current:
  assumes "ring_depth (cq_depth r)"
  shows "\<not> rx_cq_current r 0 \<or> \<not> rx_cq_current r (unat (cq_depth r))"
  using phase_at_lap [OF assms, of 1 "cq_head r"] slot_add_lap [OF assms, of "cq_head r"]
  by (simp add: rx_cq_current_def xor_1_neq [symmetric])

lemma rx_poll_loop_returns:
  assumes "rx_ring_ok (rs_ring s)" "\<not> rx_cq_current (rs_ring s) k" "k < n"
  shows "\<exists>t. rx_poll_loop (replicate n (\<lambda>m. m)) mx s = Some t"
  using assms
proof (induction k arbitrary: n s)
  case 0
  then obtain n' where "n = Suc n'" by (cases n) auto
  moreover have "cq.coherent (rs_ring s)" using 0 by (simp add: rx_ring_ok_def)
  ultimately show ?case using 0(2) by (simp add: Let_def rx_cq_current_def cq.coherent_def)
next
  case (Suc k)
  then obtain n' where n: "n = Suc n'" and k: "k < n'" by (cases n) auto
  let ?r = "rs_ring s"
  let ?c = "rx_cq ?r ! unat (cq_head ?r AND (cq_depth ?r - 1))"
  have adv: "\<exists>t. rx_poll_loop (replicate n' (\<lambda>m. m)) mx u = Some t"
    if "rx_ring_ok (rs_ring u)" "cq_head (rs_ring u) = cq_head ?r + 1"
      "cq_depth (rs_ring u) = cq_depth ?r" "rx_cq (rs_ring u) = rx_cq ?r" for u
    using Suc.IH [OF that(1) _ k] rx_cq_current_step [OF that(2-4), of k] Suc.prems(2) by simp
  have skip: "\<exists>t. rx_poll_loop (replicate n' (\<lambda>m. m)) mx (s\<lparr> rs_ring := cq_advance ?r \<rparr>) = Some t"
    using Suc.prems(1) by (intro adv) (simp_all add: cq_advance_rx_ok cq.cursor_advance frame_simps)
  obtain r1 q1 f1 where t1: "rx_drop_one ?c ?r (rs_queue s) = (r1, q1, f1)"
    by (cases "rx_drop_one ?c ?r (rs_queue s)")
  obtain pkt r2 where t2: "rx_deliver_one ?c ?r = (pkt, r2)" by (cases "rx_deliver_one ?c ?r")
  have drop: "\<exists>t. rx_poll_loop (replicate n' (\<lambda>m. m)) mx (s\<lparr> rs_ring := r1, rs_queue := q1,
      rs_dropped := rs_dropped s + 1, rs_freed := rs_freed s @ f1 \<rparr>) = Some t"
    if "unat (rxc_req_id ?c) < unat (sq_depth ?r)"
    using rx_drop_ok(1) [OF Suc.prems(1) that t1] rx_one_frame(2) [OF t1] by (intro adv) simp_all
  have deliver: "\<exists>t. rx_poll_loop (replicate n' (\<lambda>m. m)) mx (s\<lparr> rs_ring := r2,
      rs_pkts := rs_pkts s @ [pkt] \<rparr>) = Some t"
    if "unat (rxc_req_id ?c) < unat (sq_depth ?r)"
    using rx_deliver_ok(1) [OF Suc.prems(1) that t2] rx_one_frame(1) [OF t2] by (intro adv) simp_all
  have nle: "unat (rxc_req_id ?c) < unat (sq_depth ?r)" if "\<not> sq_depth ?r \<le> rxc_req_id ?c"
    using that by (simp add: word_le_nat_alt)
  show ?case
    using skip drop deliver nle by (simp add: n Let_def t1 t2)
qed

subsection \<open>Refill\<close>

text \<open>
  A ghost account of the allocator: \<open>out a\<close> is the multiset of the buffers it ever handed out
  or released itself; a call that returns a buffer adds it.
\<close>

definition alloc_accounts :: "'a rx_alloc \<Rightarrow> ('a \<Rightarrow> netbuf multiset) \<Rightarrow> bool" where
  "alloc_accounts alloc out \<longleftrightarrow> (\<forall>a q res q' a' freed. alloc a q = (res, q', a', freed) \<longrightarrow>
     out a' = out a + opt_mset (map_option fst res) + mset freed)"

lemma rx_refill_loop_ok:
  assumes "rx_ring_ok r" "refilled \<le> cnt"
    and "rx_refill_loop alloc cnt refilled r q a = (n, r', q', a', freed)"
  shows "rx_ring_ok r' \<and>
    (alloc_accounts alloc out \<longrightarrow> rx_held r' + mset freed + out a = rx_held r + out a') \<and> n \<le> cnt \<and>
    unat (free_req_count r) + unat refilled = unat (free_req_count r') + unat n"
  using assms
proof (induction "unat (free_req_count r)" arbitrary: r refilled q a n r' q' a' freed rule: less_induct)
  case less
  obtain res q1 a1 fr where al: "alloc a q = (res, q1, a1, fr)" by (cases "alloc a q")
  then have out: "alloc_accounts alloc out \<Longrightarrow> out a1 = out a + opt_mset (map_option fst res) + mset fr"
    by (auto simp: alloc_accounts_def)
  show ?case
  proof (cases "refilled < cnt \<and> 0 < free_req_count r")
    case False
    then have "rx_refill_loop alloc cnt refilled r q a = (refilled, r, q, a, [])"
      by (subst rx_refill_loop.simps) (rule if_not_P)
    with less.prems show ?thesis by simp
  next
    case go: True
    show ?thesis
    proof (cases res)
      case None
      with go al have "rx_refill_loop alloc cnt refilled r q a = (refilled, r, q1, a1, fr)"
        by (subst rx_refill_loop.simps) simp
      with less.prems out None show ?thesis by (simp add: ac_simps)
    next
      case (Some b)
      obtain nb pa len where b: "b = (nb, pa, len)" by (cases b)
      obtain ret o_id r1 where sub: "ena_rx_submit_one r (Some nb) pa len = (ret, o_id, r1)"
        by (cases "ena_rx_submit_one r (Some nb) pa len")
      show ?thesis
      proof (cases "ret = 0")
        case False
        with go al Some b sub
        have "rx_refill_loop alloc cnt refilled r q a = (refilled, r1, rq_return_pending q1, a1, fr @ [nb])"
          by (subst rx_refill_loop.simps) simp
        moreover have "r1 = r" using rx_submit_fail [OF sub False] by simp
        ultimately show ?thesis using less.prems out Some b by (simp add: ac_simps)
      next
        case True
        with sub have sub0: "ena_rx_submit_one r (Some nb) pa len = (0, o_id, r1)" by simp
        note S = rx_submit_ok [OF less.prems(1) sub0]
        have lt: "unat (free_req_count r1) < unat (free_req_count r)" by (rule rx_submit_count [OF sub0])
        obtain n2 r2 q2 a2 f2 where rec: "rx_refill_loop alloc cnt (refilled + 1) r1
            (rq_bind_pending q1 (the o_id)) a1 = (n2, r2, q2, a2, f2)"
          by (cases "rx_refill_loop alloc cnt (refilled + 1) r1 (rq_bind_pending q1 (the o_id)) a1")
        with go al Some b sub0
        have "rx_refill_loop alloc cnt refilled r q a = (n2, r2, q2, a2, fr @ f2)"
          by (subst rx_refill_loop.simps) (simp add: Let_def)
        then have e: "n = n2" "r' = r2" "a' = a2" "freed = fr @ f2" using less.prems(3) by simp_all
        have b1: "unat (refilled + 1) = unat refilled + 1" "refilled + 1 \<le> cnt"
          using go u32_less_Suc [of refilled cnt] by simp_all
        from less.hyps [OF lt S(1) b1(2) rec]
        have I: "rx_ring_ok r2" "alloc_accounts alloc out \<Longrightarrow> rx_held r2 + mset f2 + out a1 = rx_held r1 + out a2" "n2 \<le> cnt"
          "unat (free_req_count r1) + (unat refilled + 1) = unat (free_req_count r2) + unat n2"
          using b1 by simp_all
        have "rx_held r2 + mset f2 + out a + {#nb#} + mset fr = rx_held r + {#nb#} + out a2"
          if "alloc_accounts alloc out"
          using I(2) [OF that] S(2) out [OF that] Some b by (simp add: ac_simps)
        with I S(3) lt e show ?thesis by (simp add: ac_simps)
      qed
    qed
  qed
qed

subsection \<open>A concrete ring\<close>

text \<open>A four-entry receive ring with one buffer of 2048 bytes posted under request id 0.\<close>

definition ex_rx_ring :: ena_ring where
  "ex_rx_ring = the (fst (snd (ena_ring_alloc (\<lambda>_. Some 0x1000) 0 ENA_RING_TYPE_RX 4 4 [])))"

definition ex_rx_busy :: ena_ring where
  "ex_rx_busy = snd (snd (ena_rx_submit_one ex_rx_ring (Some 7) 0x200000 2048))"

definition ex_rx_queue :: uk_netdev_rx_queue where
  "ex_rx_queue = \<lparr> rq_queue_id = 0, rq_bounce_buf = False, rq_bounce_phys = 0, rq_nb_desc = 4,
     rq_free_head = 0, rq_free_tail = 0, rq_free_count = 0, rq_free_ids = [], rq_bounce_map = [],
     rq_pending_slot = - 1, rq_chain = [] \<rparr>"

definition ex_cdesc :: "u16 \<Rightarrow> u16 \<Rightarrow> ena_eth_io_rx_cdesc_base" where
  "ex_cdesc i len = \<lparr> rxc_status = 0x0D000000, rxc_length = len, rxc_req_id = i, rxc_hash = 0,
     rxc_sub_qid = 0, rxc_offset = 0, rxc_reserved = 0 \<rparr>"

lemma ex_rx_alloc: "ena_ring_alloc (\<lambda>_. Some 0x1000) 0 ENA_RING_TYPE_RX 4 4 [] =
    (0, Some ex_rx_ring, [B_allocated, B_in_flight, B_bufs, B_free_req_ids, B_cq, B_sq, B_ring])"
  by code_simp

lemma ex_rx_submit: "ena_rx_submit_one ex_rx_ring (Some 7) 0x200000 2048 = (0, Some 0, ex_rx_busy)"
  by code_simp

lemma ex_rx_busy_ok: "rx_ring_ok ex_rx_busy"
  by (rule rx_submit_ok(1) [OF rx_alloc_ok [OF ex_rx_alloc] ex_rx_submit])

definition ex_rx_arrive :: rx_cq_write where
  "ex_rx_arrive m = m[0 := ex_cdesc 0 60]"

subsection \<open>Properties\<close>

lemma rx_poll_run:
  assumes "rx_ring_ok r" and "ena_rx_poll devs mx r q = Some (rc, t, db)"
  defines "s \<equiv> \<lparr> rs_ring = r, rs_queue = q, rs_pkts = [], rs_dropped = 0, rs_freed = [] \<rparr>"
  shows "(t = s \<and> db = [] \<and> rc \<le> 0) \<or>
    (rx_poll_loop devs mx s = Some t \<and> rc = int (length (rs_pkts t)) \<and> hw_valid r \<and> 0 < mx)"
  using assms rx_ring_okD(1) [OF assms(1)] rx_ring_ok_ne(2) [OF assms(1)]
  by (auto simp: ena_rx_poll_def Let_def EINVAL_def split: if_splits)

text \<open>C2: A receive poll keeps the ring invariant and conserves packet buffers whatever the
  device writes meanwhile: the buffers posted before are those still posted, those delivered
  and those dropped, each once; and it delivers at most the requested number of packets.\<close>

theorem rx_poll_conserves:
  assumes "rx_ring_ok r" and "\<forall>d\<in>set devs. \<forall>m. length (d m) = length m"
    and "ena_rx_poll devs mx r q = Some (rc, t, db)"
  shows "rx_ring_ok (rs_ring t) \<and> length (rs_pkts t) \<le> mx \<and>
    rx_held r = rx_held (rs_ring t) + mset (rs_freed t) + (\<Sum>p\<leftarrow>rs_pkts t. opt_mset (pk_netbuf p))"
  using rx_poll_run [OF assms(1,3)] assms(1,2)
    rx_poll_loop_total [of devs mx "\<lparr> rs_ring = r, rs_queue = q, rs_pkts = [], rs_dropped = 0, rs_freed = [] \<rparr>" t]
  by (auto simp: rs_total_def)

theorem rx_poll_conserves_witness:
  "rx_ring_ok ex_rx_busy \<and> (\<exists>t db. ena_rx_poll [ex_rx_arrive, \<lambda>m. m] 8 ex_rx_busy ex_rx_queue = Some (1, t, db) \<and>
     map pk_netbuf (rs_pkts t) = [Some 7] \<and> rx_held ex_rx_busy = rx_held (rs_ring t) + {#7#})"
proof -
  let ?p = "ena_rx_poll [ex_rx_arrive, \<lambda>m. m] 8 ex_rx_busy ex_rx_queue"
  have "map_option (\<lambda>(rc, t, db). (rc, map pk_netbuf (rs_pkts t), rs_freed t)) ?p = Some (1, [Some 7], [])"
    by code_simp
  then obtain t db where p: "?p = Some (1, t, db)" and n: "map pk_netbuf (rs_pkts t) = [Some 7]" "rs_freed t = []"
    by auto
  have "\<forall>d\<in>set [ex_rx_arrive, \<lambda>m. m]. \<forall>m. length (d m) = length m" by (simp add: ex_rx_arrive_def)
  note c = rx_poll_conserves [OF ex_rx_busy_ok this p]
  have "(\<Sum>p\<leftarrow>rs_pkts t. opt_mset (pk_netbuf p)) = sum_list (map opt_mset (map pk_netbuf (rs_pkts t)))"
    by (simp add: comp_def)
  also have "\<dots> = {#7#}" by (simp only: n) simp
  finally show ?thesis using c p n ex_rx_busy_ok by auto
qed



text \<open>C22: On a ring without a stale in-flight flag, a poll that drops nothing delivers a buffer
  with every packet and leaves no stale flag.\<close>

theorem rx_poll_delivers_buffers:
  assumes "rx_ring_ok r" and "\<forall>d\<in>set devs. \<forall>m. length (d m) = length m" and "rx_clean r"
    and "ena_rx_poll devs mx r q = Some (rc, t, db)" and "rs_freed t = []"
  shows "rx_clean (rs_ring t) \<and> (\<forall>p\<in>set (rs_pkts t). pk_netbuf p \<noteq> None)"
  using rx_poll_run [OF assms(1,4)] assms(1,2,3,5)
    rx_poll_loop_clean [of devs mx "\<lparr> rs_ring = r, rs_queue = q, rs_pkts = [], rs_dropped = 0, rs_freed = [] \<rparr>" t]
  by auto

theorem rx_poll_delivers_buffers_witness:
  "rx_clean ex_rx_busy \<and> (\<exists>t db. ena_rx_poll [ex_rx_arrive, \<lambda>m. m] 8 ex_rx_busy ex_rx_queue = Some (1, t, db) \<and>
     rx_clean (rs_ring t))"
proof -
  let ?p = "ena_rx_poll [ex_rx_arrive, \<lambda>m. m] 8 ex_rx_busy ex_rx_queue"
  have "map_option (\<lambda>(rc, t, db). (rc, rs_freed t)) ?p = Some (1, [])" by code_simp
  then obtain t db where p: "?p = Some (1, t, db)" and n: "rs_freed t = []" by auto
  have c: "rx_clean ex_rx_busy" by code_simp
  have "\<forall>d\<in>set [ex_rx_arrive, \<lambda>m. m]. \<forall>m. length (d m) = length m" by (simp add: ex_rx_arrive_def)
  from rx_poll_delivers_buffers [OF ex_rx_busy_ok this c p n] p c show ?thesis by blast
qed

text \<open>C21: A receive poll over a quiet completion queue returns after at most one lap, whatever
  the queue contains.\<close>

theorem rx_poll_terminates:
  assumes "rx_ring_ok r"
  shows "\<exists>res. ena_rx_poll (replicate (unat (cq_depth r) + 1) (\<lambda>m. m)) mx r q = Some res"
proof -
  let ?s = "\<lparr> rs_ring = r, rs_queue = q, rs_pkts = [], rs_dropped = 0, rs_freed = [] \<rparr>"
  obtain k where "\<not> rx_cq_current r k" "k < unat (cq_depth r) + 1"
    using rx_cq_not_all_current [OF rx_ring_okD(4) [OF assms]] by force
  with assms have "\<exists>t. rx_poll_loop (replicate (unat (cq_depth r) + 1) (\<lambda>m. m)) mx ?s = Some t"
    by (intro rx_poll_loop_returns) simp_all
  then show ?thesis by (auto simp: ena_rx_poll_def Let_def simp del: replicate_Suc rx_poll_loop.simps)
qed

theorem rx_poll_terminates_witness:
  "\<exists>res. ena_rx_poll (replicate 5 (\<lambda>m. m)) 8 ex_rx_busy ex_rx_queue = Some res"
proof -
  have "unat (cq_depth ex_rx_busy) + 1 = 5" by code_simp
  with rx_poll_terminates [OF ex_rx_busy_ok, of 8 ex_rx_queue] show ?thesis by (simp only:)
qed




end
