(* ===== verification/Ena_Recover_Facts.thy ===== *)
theory Ena_Recover_Facts
  imports Ena_Context Ena_Tx_Facts Ena_Rx_Facts
begin

text \<open>
  Command execution as a context of the control plane: what a command leaves alone, the
  equation that ties execution and recovery together, and the invariant of the rings through a
  recovery.
\<close>

declare rx_refill_loop.simps [simp del]

subsection \<open>The frame of a command\<close>

lemma frame_eq_refl [simp]: "frame_eq s s"
  by (simp add: frame_eq_def)

lemma frame_eq_trans: "frame_eq s t \<Longrightarrow> frame_eq t u \<Longrightarrow> frame_eq s u"
  by (simp add: frame_eq_def)

lemma frame_eq_reg_write [simp]: "frame_eq s (reg_write P off v s)"
  by (simp add: frame_eq_def)

lemma adapter_frame_queue:
  "adapter_frame (next_command_id_update f)" "adapter_frame (aq_build_entry opcode req cmd)"
  "adapter_frame aq_advance" "adapter_frame acq_advance" "adapter_frame (ad_state_update g)"
  "adapter_frame (acq_phase_update h)" "adapter_frame (\<lambda>a. a\<lparr> acq_mem := m a \<rparr>)" "adapter_frame (\<lambda>a. a\<lparr> acq_phase := k a \<rparr>)"
  by (simp_all add: adapter_frame_def aq_build_entry_def aq_advance_def acq_advance_def Let_def)

lemma frame_eq_step: "frame_eq s t \<Longrightarrow> adapter_frame f \<Longrightarrow> frame_eq s (ad_update f t)"
  by (rule frame_eq_trans [OF _ frame_eq_upd])

lemma frame_eq_write: "frame_eq s t \<Longrightarrow> frame_eq s (reg_write P off v t)"
  by (erule frame_eq_trans) (rule frame_eq_reg_write)

lemma acq_wrap_frame: "frame_eq s (acq_wrap P cmd s)"
proof (cases "cmd = 1 \<and> 0 < acq_head (ad s)")
  case True
  have "frame_eq s (if 0 < acq_depth (ad s) then
      ad_update (\<lambda>a. a\<lparr> acq_phase := 1 XOR ucast ((acq_head a div acq_depth a) AND 1) \<rparr>) s else s)" (is "frame_eq s ?t")
    by (simp add: frame_eq_upd adapter_frame_queue)
  then show ?thesis using True unfolding acq_wrap_def Let_def
    by (simp only: if_True simp_thms) (intro frame_eq_step frame_eq_write adapter_frame_queue)
qed (simp only: acq_wrap_def if_False frame_eq_refl)

lemma aq_submit_frame: "frame_eq s (aq_submit P opcode req cmd s)"
  unfolding aq_submit_def Let_def
  by (intro frame_eq_write frame_eq_step adapter_frame_queue frame_eq_trans [OF _ acq_wrap_frame] frame_eq_refl)

lemma exec_locked_frame:
  assumes "ena_admin_exec_locked P opcode req cap polls s = (rc, resp, cid, s')"
  shows "frame_eq s s'"
  using assms refl
proof (cases rule: exec_locked_cases)
  case (timeout t m d)
  have "frame_eq s t" unfolding timeout(5) using aq_submit_frame [of s P opcode req] by (simp add: frame_eq_def)
  then show ?thesis unfolding timeout(6) by (rule frame_eq_step [OF _ adapter_frame_queue(5)])
next
  case (answer t m d)
  have t: "frame_eq s t" unfolding answer(2) using aq_submit_frame [of s P opcode req] by (simp add: frame_eq_def)
  have "s' = reg_write P ENA_REGS_ACQ_TAIL_OFF (ucast (acq_head (acq_advance (ad t)))) (ad_update acq_advance t)"
    using answer(5) by (auto simp: acq_consume_def Let_def split: if_splits)
  with t show ?thesis by (simp only: frame_eq_write frame_eq_step adapter_frame_queue)
qed simp

subsection \<open>Commands while a recovery runs\<close>

lemma exec_in_recovery_frame:
  "exec_in_recovery P opcode req cap n s = (rc, resp, cid, s') \<Longrightarrow> frame_eq s s'"
  by (auto simp: exec_in_recovery_def exec_cmd_with_def split: if_splits prod.splits dest: exec_locked_frame)

lemma recover_refused: "recover_active (ad s) \<Longrightarrow> reset_and_recover_with P e s = (- EBUSY, s)"
  by (simp add: reset_and_recover_with_def)

lemma exec_cmd_active:
  assumes "recover_active (ad s)"
  shows "ena_admin_exec_cmd P opcode req cap n s = exec_in_recovery P opcode req cap n s"
proof -
  obtain rc resp cid t where e: "ena_admin_exec_locked P opcode req cap n s = (rc, resp, cid, t)"
    using prod_cases4 by blast
  have "recover_active (ad t)" using exec_locked_frame [OF e] assms by (simp add: frame_eq_def)
  then show ?thesis
    by (simp add: ena_admin_exec_cmd_def exec_in_recovery_def exec_cmd_with_def e
        ena_adapter_reset_and_recover_def recover_refused)
qed

lemma refill_queue_frame:
  "ad (snd (refill_queue P q cnt s)) = ad s \<or>
   (\<exists>r. ad (snd (refill_queue P q cnt s)) = (ad s)\<lparr> rx_rings := (rx_rings (ad s))[q := Some r] \<rparr>)"
proof (cases "ring_of ENA_RING_TYPE_RX q s")
  case (Some r)
  obtain rc r' rq d fs db where e: "ena_rx_refill (p_rx_alloc P) cnt r (rxqs s ! q) (dev s) = (rc, r', rq, d, fs, db)"
    using prod_cases6 by blast
  have "ring_at (rx_rings (ad s)) q = Some r" using Some by (simp add: ring_of_def)
  with Some e show ?thesis by (auto simp: refill_queue_def ring_upd_def)
qed (simp add: refill_queue_def)

interpretation act: recover_context "ena_admin_exec_cmd P" "exec_in_recovery P" "\<lambda>s. recover_active (ad s)" "\<lambda>_ _. True" P
  for P :: "'d platform"
proof unfold_locales
  fix s s' :: "'d sys" and opcode req cap n rc resp cid q cnt f ty
  show "recover_active (ad s) \<Longrightarrow> ena_admin_exec_cmd P opcode req cap n s = exec_in_recovery P opcode req cap n s"
    by (rule exec_cmd_active)
  show "recover_active (ad s')"
    if "recover_active (ad s)" "ena_admin_exec_cmd P opcode req cap n s = (rc, resp, cid, s')"
    using exec_in_recovery_frame [of P opcode req cap n s rc resp cid s'] that
    by (simp add: exec_cmd_active frame_eq_def)
  show "recover_active (ad s')" if "recover_active (ad s)" "frame_eq s s'" using that by (simp add: frame_eq_def)
  show "recover_active (ad (ring_upd ty q f s))" if "recover_active (ad s)" using that by simp
  show "tx_rings (ad s') = tx_rings (ad s) \<and> rx_rings (ad s') = rx_rings (ad s)"
    if "recover_active (ad s)" "ena_admin_exec_cmd P opcode req cap n s = (0, resp, cid, s')"
    using exec_in_recovery_frame [of P opcode req cap n s 0 resp cid s'] that
    by (simp add: exec_cmd_active frame_eq_def)
  show "recover_active (ad (snd (refill_queue P q cnt s)))" if "recover_active (ad s)"
    using refill_queue_frame [of P q cnt s] that by auto
qed

subsection \<open>The frame of a reset\<close>

lemma admin_fini_frame: "frame_eq s (ena_admin_fini P s)"
  by (simp add: ena_admin_fini_def Let_def frame_eq_def)

lemma admin_init_frame:
  assumes "ena_admin_init P aqd acqd aenqd s = (rc, s')"
  shows "frame_eq s s'"
proof -
  define t where "t = (if aq_mem (ad s) \<noteq> [] \<or> acq_mem (ad s) \<noteq> [] \<or> aenq_mem (ad s) \<noteq> []
    then ena_admin_fini P s else s)"
  have t: "frame_eq s t" by (simp add: t_def admin_fini_frame)
  obtain x1 s1 where a1: "dma_alloc P (unat aqd * 64) t = (x1, s1)" by fastforce
  obtain x2 s2 where a2: "dma_alloc P (unat acqd * 64) s1 = (x2, s2)" by fastforce
  obtain x3 s3 where a3: "dma_alloc P (unat aenqd * 64) s2 = (x3, s3)" by fastforce
  note f = dma_alloc_frame [OF a1] dma_alloc_frame [OF a2] dma_alloc_frame [OF a3]
  have fr: "frame_eq s u" if "ad u = ad t" "rxqs u = rxqs t" "freed u = freed t" for u :: "'a sys"
    using t that by (simp add: frame_eq_def)
  have g: "adapter_frame (admin_queues_fresh p q r aqd acqd aenqd)" for p q r
    by (simp add: adapter_frame_def admin_queues_fresh_def)
  have p: "frame_eq s (publish_queues P p q r aqd acqd aenqd (ad_update (admin_queues_fresh p q r aqd acqd aenqd) s3))" for p q r
    using fr [of s3] f g [of p q r] by (simp add: frame_eq_def adapter_frame_def)
  note d = assms [unfolded ena_admin_init_def Let_def t_def [symmetric]]
  show ?thesis
  proof (cases "bar0_base (ad s) \<and> \<not> (\<not> ena_depth_ok aqd \<or> \<not> ena_depth_ok acqd \<or> \<not> ena_depth_ok aenqd)")
    case False
    then have "s' = s \<or> s' = t" using d by (auto split: if_splits)
    then show ?thesis using t by auto
  next
    case True
    show ?thesis
    proof (cases "x1 = None \<or> x2 = None \<or> x3 = None")
      case True2: True
      then have "ad s' = ad t" "rxqs s' = rxqs t" "freed s' = freed t"
        using d True a1 a2 a3 f by (auto split: option.splits)
      then show ?thesis by (rule fr)
    next
      case False
      then obtain p1 p2 p3 where "x1 = Some p1" "x2 = Some p2" "x3 = Some p3" by auto
      then have "s' = ad_update (ad_state_update (\<lambda>_. ENA_STATE_ADMIN_READY))
          (publish_queues P p1 p2 p3 aqd acqd aenqd (ad_update (admin_queues_fresh p1 p2 p3 aqd acqd aenqd) s3))"
        using d True a1 a2 a3 by simp
      then show ?thesis by (simp only: frame_eq_step [OF p adapter_frame_queue(5)])
    qed
  qed
qed

lemma wait_reset_frame: "wait_reset_loop P n s = (rc, s') \<Longrightarrow> frame_eq s s'"
proof (induction n arbitrary: s)
  case (Suc n)
  obtain v t where r: "reg_read P ENA_REGS_DEV_STS_OFF s = (v, t)" by fastforce
  have t: "frame_eq s t" using reg_read_frame [OF r] by (simp add: frame_eq_def)
  show ?case
  proof (cases "v AND ENA_DEV_STS_FATAL_ERROR_MASK \<noteq> 0 \<or> reset_complete v")
    case True
    then have "s' = ad_update (ad_state_update (\<lambda>_. ENA_STATE_ERROR)) t \<or> s' = t" using Suc.prems r by (auto split: if_splits)
    then show ?thesis using t frame_eq_step [OF t adapter_frame_queue(5)] by blast
  next
    case False
    then show ?thesis using Suc.prems r frame_eq_trans [OF t Suc.IH] by simp
  qed
qed simp

lemma device_reset_frame: "frame_eq s (snd (ena_device_reset P s))"
proof -
  obtain v t where r: "reg_read P ENA_REGS_DEV_CTL_OFF s = (v, t)" by fastforce
  have "frame_eq s t" using reg_read_frame [OF r] by (simp add: frame_eq_def)
  then show ?thesis by (simp add: ena_device_reset_def r Let_def frame_eq_write)
qed

lemma wait_reset_complete_frame: "ena_device_wait_reset_complete P n s = (rc, s') \<Longrightarrow> frame_eq s s'"
  by (auto simp: ena_device_wait_reset_complete_def simp del: wait_reset_loop.simps split: if_splits dest: wait_reset_frame)

lemma aenq_register_frame: "frame_eq s (snd (ena_admin_aenq_register s))"
  by (simp add: ena_admin_aenq_register_def frame_eq_upd adapter_frame_def)

text \<open>Up to the frame, the reset of the device is the reset of the rings.\<close>

lemma reset_admin_frame:
  assumes "reset_admin P s = (rc, s')"
  shows "frame_eq (ena_adapter_invalidate_io_rings s) s'"
proof -
  let ?e = "ad_update (ad_state_update (\<lambda>_. ENA_STATE_ERROR)) s"
  define i where "i = ena_adapter_invalidate_io_rings ?e"
  have i: "frame_eq (ena_adapter_invalidate_io_rings s) i"
    by (simp add: i_def ena_adapter_invalidate_io_rings_def Let_def frame_eq_def)
  define t where "t = snd (ena_device_reset P i)"
  have t: "frame_eq (ena_adapter_invalidate_io_rings s) t"
    unfolding t_def by (rule frame_eq_trans [OF i device_reset_frame])
  obtain r1 u where w: "ena_device_wait_reset_complete P 1000 t = (r1, u)" by fastforce
  have u: "frame_eq (ena_adapter_invalidate_io_rings s) u"
    by (rule frame_eq_trans [OF t wait_reset_complete_frame [OF w]])
  obtain r2 v where a: "ena_admin_init P (depth_or_32 (aq_depth (ad u))) (depth_or_32 (acq_depth (ad u)))
      (depth_or_32 (aenq_depth (ad u))) u = (r2, v)" by fastforce
  have v: "frame_eq (ena_adapter_invalidate_io_rings s) v"
    by (rule frame_eq_trans [OF u admin_init_frame [OF a]])
  have "s' = u \<or> s' = v \<or> s' = snd (ena_admin_aenq_register v)"
    using assms unfolding reset_admin_def Let_def i_def [symmetric] t_def [symmetric] w prod.case a
    by (auto split: if_splits)
  then show ?thesis using u v frame_eq_trans [OF v aenq_register_frame] by blast
qed

subsection \<open>Resetting a ring\<close>

lemma reset_fields:
  fixes r :: ena_ring
  defines "r' \<equiv> snd (ena_ring_reset_sw_state r)"
  shows "ring_type r' = ring_type r" "sq_depth r' = sq_depth r" "cq_depth r' = cq_depth r"
    "sq_tail r' = 0" "sq_phase r' = 1" "cq_head r' = 0" "cq_phase r' = 1" "tx_foreign_count r' = 0"
    "tx_sq r' = tx_sq r" "tx_cq r' = tx_cq r" "rx_sq r' = rx_sq r" "rx_cq r' = rx_cq r" "tx_foreign r' = tx_foreign r"
    "hw_valid r' = False" "sq_db r' = None" "cq_db r' = None" "is_llq r' = is_llq r"
    "push_buf_virt r' = push_buf_virt r" "push_buf_size r' = push_buf_size r"
    "req_in_flight r' = zero_prefix (unat (sq_depth r)) (req_in_flight r)"
    "req_allocated r' = zero_prefix (unat (sq_depth r)) (req_allocated r)"
  by (simp_all add: r'_def ena_ring_reset_sw_state_def ring_drop_bufs_def Let_def split: prod.splits)

lemma reset_pool:
  assumes "free_req_ids r \<noteq> []"
  shows "free_req_ids (snd (ena_ring_reset_sw_state r)) =
      map of_nat [0..<unat (sq_depth r)] @ drop (unat (sq_depth r)) (free_req_ids r)"
    "free_req_head (snd (ena_ring_reset_sw_state r)) = 0" "free_req_tail (snd (ena_ring_reset_sw_state r)) = 0"
    "free_req_count (snd (ena_ring_reset_sw_state r)) = sq_depth r"
  using assms by (simp_all add: ena_ring_reset_sw_state_def ring_drop_bufs_def Let_def split: prod.splits)

lemma reset_bufs:
  "ring_type r = ENA_RING_TYPE_TX \<Longrightarrow> length (tx_bufs r) = unat (sq_depth r) \<Longrightarrow>
    tx_bufs (snd (ena_ring_reset_sw_state r)) = map tx_slot_drop (tx_bufs r) \<and>
    fst (ena_ring_reset_sw_state r) = concat (map (opt_list \<circ> tb_netbuf) (tx_bufs r))"
  "ring_type r = ENA_RING_TYPE_RX \<Longrightarrow> length (rx_bufs r) = unat (sq_depth r) \<Longrightarrow>
    rx_bufs (snd (ena_ring_reset_sw_state r)) = map rx_slot_drop (rx_bufs r) \<and>
    fst (ena_ring_reset_sw_state r) = concat (map (opt_list \<circ> rb_netbuf) (rx_bufs r))"
  by (simp_all add: ena_ring_reset_sw_state_def ring_drop_bufs_def Let_def split: prod.splits)

lemma zero_prefix_full: "length xs = d \<Longrightarrow> zero_prefix d xs = replicate d 0"
  by (auto simp: zero_prefix_def)

lemma reset_ids_ok:
  assumes "req_ids_ok r" and "ring_depth (cq_depth r)"
  shows "req_ids_ok (snd (ena_ring_reset_sw_state r))"
    "req_allocated (snd (ena_ring_reset_sw_state r)) = replicate (unat (sq_depth r)) 0"
    "req_in_flight (snd (ena_ring_reset_sw_state r)) = replicate (unat (sq_depth r)) 0"
proof -
  let ?r = "snd (ena_ring_reset_sw_state r)"
  have p: "rp.pool_ok r" and d: "ring_depth (sq_depth r)" using assms by (simp_all add: req_ids_ok_def rp.pool_ok_def)
  have l: "length (free_req_ids r) = unat (sq_depth r)" using p by (simp add: rp.pool_ok_def)
  then have ne: "free_req_ids r \<noteq> []" using ring_depth_pos [OF d] by auto
  show z: "req_allocated ?r = replicate (unat (sq_depth r)) 0" "req_in_flight ?r = replicate (unat (sq_depth r)) 0"
    using req_ids_okD(1,2) [OF assms(1)] by (simp_all add: reset_fields zero_prefix_full)
  have "req_ids_ok (?r\<lparr> hw_valid := True, sq_head := 0 \<rparr>)"
    by (rule fresh_ring_ids_ok) (use d assms(2) l z in \<open>simp add: fresh_ring_def reset_fields reset_pool [OF ne]\<close>)
  moreover have "req_ids_ok (?r\<lparr> hw_valid := True, sq_head := 0 \<rparr>) = req_ids_ok ?r" by (rule req_ids_ok_cong) simp_all
  ultimately show "req_ids_ok ?r" by simp
qed

lemma reset_coherent:
  "ring_depth (sq_depth r) \<Longrightarrow> sq.coherent (snd (ena_ring_reset_sw_state r))"
  "ring_depth (cq_depth r) \<Longrightarrow> cq.coherent (snd (ena_ring_reset_sw_state r))"
  by (simp_all add: sq.coherent_def cq.coherent_def reset_fields)

lemma mset_opt_list [simp]: "mset (opt_list x) = opt_mset x"
  by (simp add: opt_list_def opt_mset_def split: option.splits)

lemma mset_concat_opt: "mset (concat (map (opt_list \<circ> g) xs)) = (\<Sum>b\<leftarrow>xs. opt_mset (g b))"
  by (induction xs) simp_all

text \<open>The reset gives every buffer back, once, and leaves a ring that satisfies its invariant.\<close>

lemma tx_reset_ok:
  assumes ok: "tx_ring_ok r"
  shows "tx_ring_ok (snd (ena_ring_reset_sw_state r))"
    "mset (fst (ena_ring_reset_sw_state r)) = tx_held r" "tx_held (snd (ena_ring_reset_sw_state r)) = {#}"
proof -
  let ?r = "snd (ena_ring_reset_sw_state r)"
  note D = tx_ok_exceptD [OF ok [unfolded tx_ring_ok_def]]
  note b = conjunct1 [OF reset_bufs(1) [OF D(1,5)]] conjunct2 [OF reset_bufs(1) [OF D(1,5)]] and i = reset_ids_ok [OF D(2,4)]
  have n: "tb_netbuf (tx_slot_drop x) = None" for x by (simp add: tx_slot_drop_def tx_buffer_zero_def)
  have "deferred_ids ?r = []" by (simp add: deferred_ids_def reset_fields)
  then show "tx_ring_ok ?r"
    using i D reset_coherent [of r] n
    by (simp add: tx_ring_ok_def tx_ok_except_def tx_lengths_ok_def tx_id_ok_def reset_fields b)
  show "mset (fst (ena_ring_reset_sw_state r)) = tx_held r" by (simp only: b mset_concat_opt tx_held_def)
  show "tx_held ?r = {#}" by (simp add: tx_held_def b comp_def n)
qed

lemma rx_reset_ok:
  assumes ok: "rx_ring_ok r"
  shows "rx_ring_ok (snd (ena_ring_reset_sw_state r))"
    "mset (fst (ena_ring_reset_sw_state r)) = rx_held r" "rx_held (snd (ena_ring_reset_sw_state r)) = {#}"
proof -
  let ?r = "snd (ena_ring_reset_sw_state r)"
  note D = rx_ring_okD [OF ok]
  note b = conjunct1 [OF reset_bufs(2) [OF D(1,5)]] conjunct2 [OF reset_bufs(2) [OF D(1,5)]] and i = reset_ids_ok [OF D(2,4)]
  have n: "rb_netbuf (rx_slot_drop x) = None" for x by (simp add: rx_slot_drop_def rx_buffer_zero_def)
  have z: "rx_slot_drop (rx_bufs r ! k) = rx_buffer_zero" if "k < unat (sq_depth r)" for k
    using D(10) [OF that] by (auto simp: rx_id_ok_def rx_slot_drop_def split: if_splits)
  show "rx_ring_ok ?r"
    using i D reset_coherent [of r] z by (simp add: rx_ring_ok_def rx_id_ok_def reset_fields b)
  show "mset (fst (ena_ring_reset_sw_state r)) = rx_held r" by (simp only: b mset_concat_opt rx_held_def)
  show "rx_held ?r = {#}" by (simp add: rx_held_def b comp_def n)
qed

lemma db_ok_reset: "db_ok a r \<Longrightarrow> db_ok a (snd (ena_ring_reset_sw_state r))"
  by (simp add: db_ok_def reset_fields)

subsection \<open>The invariant of all rings\<close>

definition rings_ok :: "ena_adapter \<Rightarrow> bool" where
  "rings_ok a \<longleftrightarrow> (\<forall>r. Some r \<in> set (tx_rings a) \<longrightarrow> tx_ring_ok r \<and> db_ok a r) \<and>
     (\<forall>r. Some r \<in> set (rx_rings a) \<longrightarrow> rx_ring_ok r \<and> db_ok a r)"

lemma db_ok_cong: "bar0_size b = bar0_size a \<Longrightarrow> bar2_size b = bar2_size a \<Longrightarrow> db_ok b r = db_ok a r"
  by (simp add: db_ok_def)

lemma rings_ok_cong:
  assumes "rings_ok a" and "tx_rings b = tx_rings a" "rx_rings b = rx_rings a" "bar0_size b = bar0_size a" "bar2_size b = bar2_size a"
  shows "rings_ok b"
  using assms db_ok_cong [of b a] by (simp add: rings_ok_def)

lemma rings_ok_frame: "frame_eq s s' \<Longrightarrow> rings_ok (ad s) \<Longrightarrow> rings_ok (ad s')"
  by (erule rings_ok_cong) (simp_all add: frame_eq_def)

lemma ring_core_same:
  assumes "ring_core r' = ring_core r"
  shows "tx_ring_ok r' = tx_ring_ok r" "rx_ring_ok r' = rx_ring_ok r"
proof -
  have f: "g (ring_core r') = g (ring_core r)" for g :: "ena_ring \<Rightarrow> 'a" by (simp add: assms)
  have t: "tx_same r' r" "rx_same r' r"
    unfolding tx_same_def rx_same_def
    using f [of ring_type] f [of sq_depth] f [of cq_depth] f [of free_req_ids] f [of free_req_head] f [of free_req_tail]
      f [of free_req_count] f [of req_allocated] f [of req_in_flight] f [of tx_bufs] f [of tx_sq] f [of tx_cq]
      f [of tx_foreign] f [of tx_foreign_count] f [of rx_bufs] f [of rx_sq] f [of rx_cq]
    by (simp_all add: ring_core_def)
  have c: "sq.coherent r' = sq.coherent r" "cq.coherent r' = cq.coherent r"
    using f [of sq_depth] f [of cq_depth] f [of sq_tail] f [of sq_phase] f [of cq_head] f [of cq_phase]
    by (simp_all add: ring_core_def sq.coherent_def cq.coherent_def)
  show "tx_ring_ok r' = tx_ring_ok r" unfolding tx_ring_ok_def by (rule tx_same_ok [OF t(1) c])
  show "rx_ring_ok r' = rx_ring_ok r" by (rule rx_same_ok(1) [OF t(2) c])
qed

lemma ring_at_set: "ring_at rs q = Some r \<Longrightarrow> Some r \<in> set rs"
  by (auto simp: ring_at_def split: if_splits dest: nth_mem)

lemma set_update_cases: "x \<in> set (xs[i := y]) \<Longrightarrow> x = y \<or> x \<in> set xs"
  using set_update_subset_insert by fast

lemma rings_ok_step:
  assumes ok: "rings_ok (ad s)" and st: "\<And>r. ring_of ty q s = Some r \<Longrightarrow> ring_step (ad s) r (f r)"
  shows "rings_ok (ad (ring_upd ty q f s))"
proof (cases "ring_of ty q s")
  case (Some r)
  have s: "ring_step (ad s) r (f r)" by (rule st [OF Some])
  note k = ring_core_same [of "f r" r]
  show ?thesis
  proof (cases "ty = ENA_RING_TYPE_TX")
    case True
    from Some True have a: "ring_at (tx_rings (ad s)) q = Some r" by (simp add: ring_of_def)
    with ok s k ring_at_set [OF a] have n: "tx_ring_ok (f r)" "db_ok (ad s) (f r)" by (auto simp: rings_ok_def ring_step_def)
    from a True have "tx_rings (ad (ring_upd ty q f s)) = (tx_rings (ad s))[q := Some (f r)]"
      "rx_rings (ad (ring_upd ty q f s)) = rx_rings (ad s)" by (simp_all add: ring_upd_def)
    with ok n show ?thesis
      using db_ok_cong [of "ad (ring_upd ty q f s)" "ad s"] by (auto simp: rings_ok_def dest!: set_update_cases)
  next
    case False
    from Some False have a: "ring_at (rx_rings (ad s)) q = Some r" by (simp add: ring_of_def)
    with ok s k ring_at_set [OF a] have n: "rx_ring_ok (f r)" "db_ok (ad s) (f r)" by (auto simp: rings_ok_def ring_step_def)
    from a False have "rx_rings (ad (ring_upd ty q f s)) = (rx_rings (ad s))[q := Some (f r)]"
      "tx_rings (ad (ring_upd ty q f s)) = tx_rings (ad s)" by (simp_all add: ring_upd_def)
    with ok n show ?thesis
      using db_ok_cong [of "ad (ring_upd ty q f s)" "ad s"] by (auto simp: rings_ok_def dest!: set_update_cases)
  qed
next
  case None
  have "rs[q := None] = rs" if "ring_at rs q = None" for rs
    using that by (cases "q < length rs") (simp_all add: ring_at_def list_update_same_conv list_update_beyond)
  then have "rs[q := map_option f (ring_at rs q)] = rs" if "ring_at rs q = None" for rs using that by simp
  with None have "tx_rings (ad (ring_upd ty q f s)) = tx_rings (ad s)" "rx_rings (ad (ring_upd ty q f s)) = rx_rings (ad s)"
    by (auto simp: ring_of_def ring_upd_def split: if_splits)
  with ok show ?thesis by (rule rings_ok_cong) simp_all
qed

subsection \<open>Refilling a receive ring\<close>

lemma req_id_alloc_db:
  "sq_db (snd (snd (ena_ring_req_id_alloc r))) = sq_db r" "cq_db (snd (snd (ena_ring_req_id_alloc r))) = cq_db r"
  "is_llq (snd (snd (ena_ring_req_id_alloc r))) = is_llq r"
  "push_buf_virt (snd (snd (ena_ring_req_id_alloc r))) = push_buf_virt r"
  "push_buf_size (snd (snd (ena_ring_req_id_alloc r))) = push_buf_size r"
  "hw_valid (snd (snd (ena_ring_req_id_alloc r))) = hw_valid r"
  by (auto simp: ena_ring_req_id_alloc_def req_id_pop_def Let_def)

lemma rx_submit_db:
  assumes "ena_rx_submit_one r nb pa len = (ret, o_id, r')"
  shows "db_ok a r' = db_ok a r \<and> hw_valid r' = hw_valid r"
proof -
  obtain rc i t where e: "ena_ring_req_id_alloc r = (rc, i, t)" using prod_cases3 by blast
  have "sq_db t = sq_db r \<and> cq_db t = cq_db r \<and> is_llq t = is_llq r \<and> push_buf_virt t = push_buf_virt r \<and>
      push_buf_size t = push_buf_size r \<and> hw_valid t = hw_valid r"
    using req_id_alloc_db [of r] by (simp add: e)
  with assms e show ?thesis
    by (auto simp: ena_rx_submit_one_def Let_def db_ok_def sq_advance_def split: if_splits)
qed

lemma rx_refill_loop_db:
  "rx_refill_loop alloc cnt refilled r q x = (n, r', q', x', fs) \<Longrightarrow> db_ok a r' = db_ok a r \<and> hw_valid r' = hw_valid r"
proof (induction alloc cnt refilled r q x arbitrary: n r' q' x' fs rule: rx_refill_loop.induct)
  case (1 alloc cnt refilled r q x)
  obtain res q1 x1 fr where al: "alloc x q = (res, q1, x1, fr)" by (cases "alloc x q")
  show ?case
  proof (cases "refilled < cnt \<and> 0 < free_req_count r \<and> res \<noteq> None")
    case False
    then have "r' = r" using 1(2) al by (subst (asm) rx_refill_loop.simps) (cases res; auto split: if_splits)
    then show ?thesis by simp
  next
    case True
    then obtain nb pa len where res: "res = Some (nb, pa, len)" by (metis option.exhaust prod_cases3)
    obtain ret o_id r1 where sub: "ena_rx_submit_one r (Some nb) pa len = (ret, o_id, r1)"
      by (cases "ena_rx_submit_one r (Some nb) pa len")
    have d: "db_ok a r1 = db_ok a r \<and> hw_valid r1 = hw_valid r" by (rule rx_submit_db [OF sub])
    show ?thesis
    proof (cases "ret = 0")
      case False
      then have "r' = r1" using 1(2) al True res sub by (subst (asm) rx_refill_loop.simps) simp
      with d show ?thesis by simp
    next
      case ok: True
      obtain n2 r2 q2 x2 f2 where rec: "rx_refill_loop alloc cnt (refilled + 1) r1 (rq_bind_pending q1 (the o_id)) x1 = (n2, r2, q2, x2, f2)"
        using prod_cases5 by blast
      have "r' = r2" using 1(2) al True res sub ok rec by (subst (asm) rx_refill_loop.simps) (simp add: Let_def)
      moreover have "db_ok a r2 = db_ok a r1 \<and> hw_valid r2 = hw_valid r1" using 1(1) True al res sub ok rec by simp
      ultimately show ?thesis using d by simp
    qed
  qed
qed

lemma rx_refill_ok:
  assumes "rx_ring_ok r" and "ena_rx_refill alloc cnt r q x = (rc, r', q', x', fs, db)"
  shows "rx_ring_ok r'" "db_ok a r' = db_ok a r \<and> hw_valid r' = hw_valid r"
proof -
  let ?c = "if cnt = 0 then ucast (free_req_count r) else cnt"
  obtain n where l: "rx_refill_loop alloc ?c 0 r q x = (n, r', q', x', fs)"
    using assms(2) rx_ring_okD(1) [OF assms(1)]
    by (auto simp: ena_rx_refill_def Let_def split: prod.splits if_splits)
  show "rx_ring_ok r'" using rx_refill_loop_ok [OF assms(1) _ l] by simp
  show "db_ok a r' = db_ok a r \<and> hw_valid r' = hw_valid r" by (rule rx_refill_loop_db [OF l])
qed

lemma refill_queue_rings:
  assumes ok: "rings_ok (ad s)"
  shows "rings_ok (ad (snd (refill_queue P q cnt s)))"
proof (cases "ring_of ENA_RING_TYPE_RX q s")
  case (Some r)
  then have a: "ring_at (rx_rings (ad s)) q = Some r" by (simp add: ring_of_def)
  then have r: "rx_ring_ok r" "db_ok (ad s) r" using ok ring_at_set [OF a] by (simp_all add: rings_ok_def)
  obtain rc r' rq d fs db where e: "ena_rx_refill (p_rx_alloc P) cnt r (rxqs s ! q) (dev s) = (rc, r', rq, d, fs, db)"
    using prod_cases6 by blast
  note n = rx_refill_ok [OF r(1) e]
  have "rx_rings (ad (snd (refill_queue P q cnt s))) = (rx_rings (ad s))[q := Some r'] \<and>
      tx_rings (ad (snd (refill_queue P q cnt s))) = tx_rings (ad s) \<and> q < length (rxqs s) \<or> ad (snd (refill_queue P q cnt s)) = ad s"
    using Some e a by (auto simp: refill_queue_def ring_upd_def)
  moreover have "bar0_size (ad (snd (refill_queue P q cnt s))) = bar0_size (ad s)"
    "bar2_size (ad (snd (refill_queue P q cnt s))) = bar2_size (ad s)"
    using refill_queue_frame [of P q cnt s] by auto
  ultimately show ?thesis
    using ok n r db_ok_cong [of "ad (snd (refill_queue P q cnt s))" "ad s"]
    by (auto simp: rings_ok_def dest!: set_update_cases)
qed (simp add: refill_queue_def ok)

subsection \<open>Recovery keeps the invariant\<close>

interpretation inv: recover_context "exec_in_recovery P" "exec_in_recovery P"
  "\<lambda>s. recover_active (ad s) \<and> rings_ok (ad s)" "\<lambda>_ _. True" P for P :: "'d platform"
proof unfold_locales
  fix s s' :: "'d sys" and opcode req cap n rc resp cid q cnt f ty
  show "recover_active (ad s') \<and> rings_ok (ad s')"
    if "recover_active (ad s) \<and> rings_ok (ad s)" "frame_eq s s'"
    using that rings_ok_frame [of s s'] by (simp add: frame_eq_def)
  then show "recover_active (ad s') \<and> rings_ok (ad s')"
    if "recover_active (ad s) \<and> rings_ok (ad s)" "exec_in_recovery P opcode req cap n s = (rc, resp, cid, s')"
    using that exec_in_recovery_frame by blast
  show "recover_active (ad (ring_upd ty q f s)) \<and> rings_ok (ad (ring_upd ty q f s))"
    if "recover_active (ad s) \<and> rings_ok (ad s)" "\<And>r. ring_of ty q s = Some r \<Longrightarrow> ring_step (ad s) r (f r)"
    using that(1) rings_ok_step [OF _ that(2)] by simp
  show "tx_rings (ad s') = tx_rings (ad s) \<and> rx_rings (ad s') = rx_rings (ad s)"
    if "exec_in_recovery P opcode req cap n s = (0, resp, cid, s')"
    using exec_in_recovery_frame [OF that] by (simp add: frame_eq_def)
  show "recover_active (ad (snd (refill_queue P q cnt s))) \<and> rings_ok (ad (snd (refill_queue P q cnt s)))"
    if "recover_active (ad s) \<and> rings_ok (ad s)"
    using refill_queue_frame [of P q cnt s] refill_queue_rings that by auto
qed simp

lemma reset_rings_set:
  "Some r \<in> set (snd (reset_rings n rs)) \<Longrightarrow> Some r \<in> set rs \<or> (\<exists>r0. Some r0 \<in> set rs \<and> r = snd (ena_ring_reset_sw_state r0))"
  using in_set_takeD [of _ n rs] in_set_dropD [of _ n rs] by (fastforce simp: reset_rings_def eq_commute [of "Some r"])

lemma invalidate_rings_ok:
  assumes ok: "rings_ok (ad s)"
  shows "rings_ok (ad (ena_adapter_invalidate_io_rings s))"
proof -
  have "db_ok (ad (ena_adapter_invalidate_io_rings s)) r = db_ok (ad s) r" for r
    by (rule db_ok_cong) (simp_all add: ena_adapter_invalidate_io_rings_def Let_def)
  then show ?thesis
    using ok tx_reset_ok(1) rx_reset_ok(1) db_ok_reset
    unfolding rings_ok_def by (auto simp: ena_adapter_invalidate_io_rings_def Let_def dest!: reset_rings_set)
qed

lemma reset_admin_rings:
  assumes "reset_admin P s = (rc, s')"
  shows "rings_ok (ad s) \<Longrightarrow> rings_ok (ad s')" "recover_active (ad s') = recover_active (ad s)"
  using rings_ok_frame [OF reset_admin_frame [OF assms] invalidate_rings_ok] reset_admin_frame [OF assms]
  by (simp_all add: frame_eq_def ena_adapter_invalidate_io_rings_def Let_def)

lemma set_active_rings: "rings_ok (ad (set_active b s)) = rings_ok (ad s)"
  using rings_ok_cong [of "ad s" "ad (set_active b s)"] rings_ok_cong [of "ad (set_active b s)" "ad s"] by auto

lemma recover_keeps:
  assumes ok: "rings_ok (ad s)" and "ena_adapter_reset_and_recover P s = (rc, s')"
  shows "rings_ok (ad s') \<and> recover_active (ad s') = recover_active (ad s)"
proof (cases "recover_active (ad s)")
  case True
  then show ?thesis using assms by (simp add: ena_adapter_reset_and_recover_def recover_refused)
next
  case False
  obtain rr t where t: "reset_admin P (set_active True s) = (rr, t)" by fastforce
  have "rings_ok (ad (set_active True s))" unfolding set_active_rings by (rule ok)
  then have it: "recover_active (ad t) \<and> rings_ok (ad t)"
    using reset_admin_rings(1) [OF t] reset_admin_rings(2) [OF t] by simp
  define u where "u = (if \<not> ena_adapter_has_io_rings (ad t) \<and> aenq_enabled_groups (ad t) \<noteq> 0
    then snd (ena_init_config_aenq (exec_in_recovery P) t) else t)"
  have iu: "recover_active (ad u) \<and> rings_ok (ad u)" unfolding u_def using inv.config_aenq_laws [OF it] it by auto
  obtain r2 v where v: "ena_adapter_recover_io_rings P (exec_in_recovery P) u = (r2, v)" by fastforce
  have iv: "rings_ok (ad v)" using inv.recover_io_rings_laws(2) [OF iu, of P, simplified] unfolding v by simp
  have "(rc, s') = (if rr \<noteq> 0 then (rr, set_active False t) else (r2, set_active False v))"
    using assms(2) False
    unfolding ena_adapter_reset_and_recover_def reset_and_recover_with_def Let_def t prod.case u_def [symmetric] v by simp
  then have "s' = set_active False t \<or> s' = set_active False v" by (auto split: if_splits)
  then show ?thesis using it iv False set_active_rings [of False t] set_active_rings [of False v] by auto
qed

subsection \<open>Rings after a recovery that succeeds\<close>

text \<open>What is done to one ring leaves every other ring alone.\<close>

lemma ring_of_other:
  "\<not> ((ty = ENA_RING_TYPE_TX) = (ty' = ENA_RING_TYPE_TX) \<and> q = q') \<Longrightarrow> ring_of ty' q' (ring_upd ty q f s) = ring_of ty' q' s"
  by (auto simp: ring_of_def ring_upd_def ring_at_def)

lemma frame_eq_ring: "frame_eq s s' \<Longrightarrow> ring_of ty q s' = ring_of ty q s"
  by (simp add: frame_eq_def ring_of_def)

lemma refill_queue_other:
  assumes "\<not> (ty \<noteq> ENA_RING_TYPE_TX \<and> q = q')"
  shows "ring_of ty q' (snd (refill_queue P q cnt s)) = ring_of ty q' s"
proof (cases "ring_of ENA_RING_TYPE_RX q s")
  case (Some r)
  obtain rc r' rq d fs db where e: "ena_rx_refill (p_rx_alloc P) cnt r (rxqs s ! q) (dev s) = (rc, r', rq, d, fs, db)"
    using prod_cases6 by blast
  have o: "ring_of ty q' (ring_upd ENA_RING_TYPE_RX q (\<lambda>_. r') t) = ring_of ty q' t" for t
    by (rule ring_of_other) (use assms in auto)
  have "ring_of ty q' (s\<lparr> rxqs := x, dev := y, freed := z \<rparr>) = ring_of ty q' s" for x y z by (simp add: ring_of_def)
  then show ?thesis using Some e by (simp add: refill_queue_def o)
qed (simp add: refill_queue_def)

interpretation pin: recover_context "exec_in_recovery P" "exec_in_recovery P"
  "\<lambda>s. recover_active (ad s) \<and> ring_of ty' q' s = x \<and> (num_tx_rings (ad s), num_rx_rings (ad s)) = nr"
  "\<lambda>ty q. \<not> ((ty = ENA_RING_TYPE_TX) = (ty' = ENA_RING_TYPE_TX) \<and> q = q')" P for P :: "'d platform" and ty' q' x nr
proof unfold_locales
  fix s s' :: "'d sys" and opcode req cap n rc resp cid q cnt f ty
  show "recover_active (ad s') \<and> ring_of ty' q' s' = x \<and> (num_tx_rings (ad s'), num_rx_rings (ad s')) = nr"
    if "recover_active (ad s) \<and> ring_of ty' q' s = x \<and> (num_tx_rings (ad s), num_rx_rings (ad s)) = nr" "frame_eq s s'"
    using that frame_eq_ring [of s s'] by (simp add: frame_eq_def)
  then show "recover_active (ad s') \<and> ring_of ty' q' s' = x \<and> (num_tx_rings (ad s'), num_rx_rings (ad s')) = nr"
    if "recover_active (ad s) \<and> ring_of ty' q' s = x \<and> (num_tx_rings (ad s), num_rx_rings (ad s)) = nr" "exec_in_recovery P opcode req cap n s = (rc, resp, cid, s')"
    using that exec_in_recovery_frame by blast
  show "tx_rings (ad s') = tx_rings (ad s) \<and> rx_rings (ad s') = rx_rings (ad s)"
    if "exec_in_recovery P opcode req cap n s = (0, resp, cid, s')"
    using exec_in_recovery_frame [OF that] by (simp add: frame_eq_def)
  show "recover_active (ad (snd (refill_queue P q cnt s))) \<and> ring_of ty' q' (snd (refill_queue P q cnt s)) = x \<and>
      (num_tx_rings (ad (snd (refill_queue P q cnt s))), num_rx_rings (ad (snd (refill_queue P q cnt s)))) = nr"
    if "recover_active (ad s) \<and> ring_of ty' q' s = x \<and> (num_tx_rings (ad s), num_rx_rings (ad s)) = nr"
      "\<not> ((ENA_RING_TYPE_RX = ENA_RING_TYPE_TX) = (ty' = ENA_RING_TYPE_TX) \<and> q = q')"
    using refill_queue_frame [of P q cnt s] refill_queue_other [of ty' q q' P cnt s] that by auto
qed (simp_all add: ring_of_other)

definition ring_live :: "ena_ring_type \<Rightarrow> nat \<Rightarrow> 'd sys \<Rightarrow> bool" where
  "ring_live ty q s \<longleftrightarrow> (\<forall>r. ring_of ty q s = Some r \<longrightarrow> hw_valid r)"

lemma refill_queue_live:
  assumes "ring_live ty q' s"
  shows "ring_live ty q' (snd (refill_queue P q cnt s))"
proof (cases "ty \<noteq> ENA_RING_TYPE_TX \<and> q = q'")
  case False
  then show ?thesis using assms refill_queue_other [OF False, of P cnt s] by (simp add: ring_live_def)
next
  case True
  then have "ring_live ENA_RING_TYPE_RX q s" using assms by (simp add: ring_live_def ring_of_def)
  then have "ring_live ENA_RING_TYPE_RX q (snd (refill_queue P q cnt s))"
  proof (cases "ring_of ENA_RING_TYPE_RX q s")
    case (Some r)
    obtain rc r' rq d fs db where e: "ena_rx_refill (p_rx_alloc P) cnt r (rxqs s ! q) (dev s) = (rc, r', rq, d, fs, db)"
      using prod_cases6 by blast
    have "hw_valid r' = hw_valid r"
      using e rx_refill_loop_db [of "p_rx_alloc P" _ 0 r "rxqs s ! q" "dev s"]
      by (auto simp: ena_rx_refill_def Let_def split: if_splits prod.splits)
    moreover have "ring_of ENA_RING_TYPE_RX q (s\<lparr> rxqs := x, dev := y, freed := z \<rparr>) = Some r" for x y z
      using Some by (simp add: ring_of_def)
    moreover assume "ring_live ENA_RING_TYPE_RX q s"
    ultimately show ?thesis using Some e by (simp add: refill_queue_def ring_live_def)
  qed (simp add: refill_queue_def)
  with True show ?thesis by (simp add: ring_live_def ring_of_def)
qed

text \<open>Creating the queues of one ring, seen from another ring.\<close>

lemma create_hw_other:
  assumes "recover_active (ad s)" "\<not> ((ty = ENA_RING_TYPE_TX) = (ty' = ENA_RING_TYPE_TX) \<and> q = q')"
    and "ena_ring_create_hw (exec_in_recovery P) ty q v s = (rc, s')"
  shows "recover_active (ad s')" "ring_of ty' q' s' = ring_of ty' q' s"
  using pin.ring_create_hw_laws(2) [of s ty' q' "ring_of ty' q' s" "(num_tx_rings (ad s), num_rx_rings (ad s))" ty q P v] assms by simp_all

lemma create_hw_live:
  assumes "recover_active (ad s)" and "ena_ring_create_hw (exec_in_recovery P) ty q v s = (0, s')"
  shows "ring_live ty q s'"
  using pin.ring_create_hw_laws(3) [of s ty "Suc q" "ring_of ty (Suc q) s" "(num_tx_rings (ad s), num_rx_rings (ad s))" ty q P v] assms by (auto simp: ring_live_def)

lemma first_error_zero: "first_error ret r = 0 \<Longrightarrow> ret = 0 \<and> r = 0"
  by (simp add: first_error_def split: if_splits)

lemma recover_tx_other:
  assumes "recover_active (ad s)" and "ty' \<noteq> ENA_RING_TYPE_TX \<or> q' \<notin> set qs"
    and "recover_tx_loop (exec_in_recovery P) qs ret n s = (rc, m, s')"
  shows "recover_active (ad s') \<and> ring_of ty' q' s' = ring_of ty' q' s \<and> num_rx_rings (ad s') = num_rx_rings (ad s)"
proof -
  have "\<forall>q\<in>set qs. \<not> ((ENA_RING_TYPE_TX = ENA_RING_TYPE_TX) = (ty' = ENA_RING_TYPE_TX) \<and> q = q')" using assms(2) by auto
  from pin.recover_tx_laws [of s ty' q' "ring_of ty' q' s" "(num_tx_rings (ad s), num_rx_rings (ad s))", OF _ this, of P ret n] assms(1,3) show ?thesis by simp
qed

lemma recover_rx_other:
  assumes "recover_active (ad s)" and "ty' = ENA_RING_TYPE_TX \<or> q' \<notin> set qs"
    and "recover_rx_loop P (exec_in_recovery P) qs ret n s = (rc, m, s')"
  shows "recover_active (ad s') \<and> ring_of ty' q' s' = ring_of ty' q' s \<and> num_rx_rings (ad s') = num_rx_rings (ad s)"
proof -
  have "\<forall>q\<in>set qs. \<not> ((ENA_RING_TYPE_RX = ENA_RING_TYPE_TX) = (ty' = ENA_RING_TYPE_TX) \<and> q = q')" using assms(2) by auto
  from pin.recover_rx_laws [of s ty' q' "ring_of ty' q' s" "(num_tx_rings (ad s), num_rx_rings (ad s))", OF _ this, of P ret n] assms(1,3) show ?thesis by simp
qed

lemma recover_tx_live:
  "recover_active (ad s) \<Longrightarrow> distinct qs \<Longrightarrow> recover_tx_loop (exec_in_recovery P) qs ret n s = (0, m, s') \<Longrightarrow>
    ret = 0 \<and> (\<forall>q\<in>set qs. ring_live ENA_RING_TYPE_TX q s')"
proof (induction qs arbitrary: ret n s)
  case (Cons q qs)
  have other: "ring_live ENA_RING_TYPE_TX q s'"
    if "ring_live ENA_RING_TYPE_TX q t" "recover_active (ad t)" "recover_tx_loop (exec_in_recovery P) qs a b t = (0, m, s')" for t a b
    using recover_tx_other [OF that(2) _ that(3), of ENA_RING_TYPE_TX q] Cons.prems(2) that(1) by (simp add: ring_live_def)
  show ?case
  proof (cases "ring_live ENA_RING_TYPE_TX q s")
    case True
    then have l: "recover_tx_loop (exec_in_recovery P) qs ret n s = (0, m, s')"
      using Cons.prems(3) by (auto simp: ring_live_def split: option.splits)
    with Cons True other [OF True _ l] show ?thesis by simp
  next
    case False
    then obtain r where r: "ring_of ENA_RING_TYPE_TX q s = Some r" "\<not> hw_valid r" by (auto simp: ring_live_def)
    obtain rc t where c: "ena_ring_create_hw (exec_in_recovery P) ENA_RING_TYPE_TX q (queue_vector q s) s = (rc, t)" by fastforce
    have t: "recover_active (ad t)"
      by (rule create_hw_other(1) [OF Cons.prems(1) _ c, of ENA_RING_TYPE_RX q]) simp
    show ?thesis
    proof (cases "rc = 0")
      case True
      with c r Cons.prems(3) have l: "recover_tx_loop (exec_in_recovery P) qs ret (Suc n) t = (0, m, s')" by simp
      have "ring_live ENA_RING_TYPE_TX q t" using create_hw_live [OF Cons.prems(1)] c True by simp
      with Cons.IH [OF t _ l] Cons.prems(2) other [OF _ t l] show ?thesis by simp
    next
      case False
      with c r Cons.prems(3) have "recover_tx_loop (exec_in_recovery P) qs (first_error ret rc) n t = (0, m, s')" by simp
      from Cons.IH [OF t _ this] Cons.prems(2) False show ?thesis by (auto dest: first_error_zero)
    qed
  qed
qed simp

lemma recover_refill_live:
  "ring_live ty q' s \<Longrightarrow> ring_live ty q' (recover_refill P q s)"
  "recover_active (ad s) \<Longrightarrow> recover_active (ad (recover_refill P q s))"
  using refill_queue_live [of ty q' s P] act.recover_refill_keep [of s P q]
  by (simp_all add: recover_refill_def split: option.splits)

lemma recover_rx_live:
  "recover_active (ad s) \<Longrightarrow> distinct qs \<Longrightarrow> recover_rx_loop P (exec_in_recovery P) qs ret n s = (0, m, s') \<Longrightarrow>
    ret = 0 \<and> (\<forall>q\<in>set qs. ring_live ENA_RING_TYPE_RX q s')"
proof (induction qs arbitrary: ret n s)
  case (Cons q qs)
  have other: "ring_live ENA_RING_TYPE_RX q s'"
    if "ring_live ENA_RING_TYPE_RX q t" "recover_active (ad t)" "recover_rx_loop P (exec_in_recovery P) qs a b t = (0, m, s')" for t a b
    using recover_rx_other [OF that(2) _ that(3), of ENA_RING_TYPE_RX q] Cons.prems(2) that(1) by (simp add: ring_live_def)
  show ?case
  proof (cases "ring_live ENA_RING_TYPE_RX q s")
    case True
    then have l: "recover_rx_loop P (exec_in_recovery P) qs ret n s = (0, m, s')"
      using Cons.prems(3) by (auto simp: ring_live_def split: option.splits)
    with Cons True other [OF True _ l] show ?thesis by simp
  next
    case False
    then obtain r where r: "ring_of ENA_RING_TYPE_RX q s = Some r" "\<not> hw_valid r" by (auto simp: ring_live_def)
    obtain rc t where c: "ena_ring_create_hw (exec_in_recovery P) ENA_RING_TYPE_RX q (queue_vector q s) s = (rc, t)" by fastforce
    have t: "recover_active (ad t)"
      by (rule create_hw_other(1) [OF Cons.prems(1) _ c, of ENA_RING_TYPE_TX q]) simp
    note u = recover_refill_live(2) [OF t, of P q]
    show ?thesis
    proof (cases "rc = 0")
      case True
      with c r Cons.prems(3)
      have l: "recover_rx_loop P (exec_in_recovery P) qs ret (Suc n) (recover_refill P q t) = (0, m, s')" by simp
      have "ring_live ENA_RING_TYPE_RX q t" using create_hw_live [OF Cons.prems(1)] c True by simp
      then have "ring_live ENA_RING_TYPE_RX q (recover_refill P q t)" by (rule recover_refill_live)
      with Cons.IH [OF u _ l] Cons.prems(2) other [OF _ u l] show ?thesis by simp
    next
      case False
      with c r Cons.prems(3) have "recover_rx_loop P (exec_in_recovery P) qs (first_error ret rc) n t = (0, m, s')" by simp
      from Cons.IH [OF t _ this] Cons.prems(2) False show ?thesis by (auto dest: first_error_zero)
    qed
  qed
qed simp

text \<open>The settings are applied again without touching a ring.\<close>

lemma reapply_rings:
  assumes "recover_active (ad s)"
  shows "recover_active (ad (snd (ena_init_reapply_device_features P (exec_in_recovery P) s))) \<and>
    ring_of ty q (snd (ena_init_reapply_device_features P (exec_in_recovery P) s)) = ring_of ty q s"
  using pin.reapply_laws(2) [of s ty q "ring_of ty q s" "(num_tx_rings (ad s), num_rx_rings (ad s))" P] assms by simp

lemma config_aenq_rings:
  fixes P :: "'d platform"
  assumes "recover_active (ad s)"
  defines "t \<equiv> snd (ena_init_config_aenq (exec_in_recovery P) s)"
  shows "recover_active (ad t) \<and> num_tx_rings (ad t) = num_tx_rings (ad s) \<and> num_rx_rings (ad t) = num_rx_rings (ad s)"
  using pin.config_aenq_laws(2) [of s ENA_RING_TYPE_TX 0 "ring_of ENA_RING_TYPE_TX 0 s" "(num_tx_rings (ad s), num_rx_rings (ad s))" P] assms
  by simp

lemma recover_io_rings_live:
  assumes "recover_active (ad s)" and "ena_adapter_recover_io_rings P (exec_in_recovery P) s = (0, s')"
  shows "(\<forall>q<unat (num_tx_rings (ad s)). ring_live ENA_RING_TYPE_TX q s') \<and>
    (\<forall>q<unat (num_rx_rings (ad s)). ring_live ENA_RING_TYPE_RX q s')"
proof -
  let ?x = "exec_in_recovery P" and ?rs = "[0..<unat (num_rx_rings (ad s))]"
  obtain r1 n1 s1 where t: "recover_tx_loop ?x [0..<unat (num_tx_rings (ad s))] 0 0 s = (r1, n1, s1)" using prod_cases3 by blast
  obtain r2 n2 s2 where x: "recover_rx_loop P ?x ?rs r1 0 s1 = (r2, n2, s2)" using prod_cases3 by blast
  have a1: "recover_active (ad s1)" and n: "num_rx_rings (ad s1) = num_rx_rings (ad s)" using recover_tx_other [OF assms(1) _ t, of ENA_RING_TYPE_RX 0] by simp_all
  have a2: "recover_active (ad s2)" using recover_rx_other [OF a1 _ x, of ENA_RING_TYPE_TX 0] by simp
  have e: "(0, s') = (if n1 \<noteq> 0 \<or> n2 \<noteq> 0 then (case ena_init_reapply_device_features P ?x s2 of (fret, s) \<Rightarrow> (first_error r2 fret, s)) else (r2, s2))"
    using assms(2) unfolding ena_adapter_recover_io_rings_def t prod.case n x by simp
  then have r2: "r2 = 0" by (auto split: if_splits prod.splits dest: first_error_zero)
  have s': "ring_live ty q s' = ring_live ty q s2" for ty q
    using e reapply_rings [OF a2, of P ty q] by (auto simp: ring_live_def split: if_splits prod.splits)
  have lx: "r1 = 0 \<and> (\<forall>q\<in>set ?rs. ring_live ENA_RING_TYPE_RX q s2)"
    by (rule recover_rx_live [OF a1 _ x [unfolded r2]]) simp
  have lt: "\<forall>q\<in>set [0..<unat (num_tx_rings (ad s))]. ring_live ENA_RING_TYPE_TX q s1"
    using recover_tx_live [OF assms(1) _ t [unfolded conjunct1 [OF lx]]] by simp
  have "ring_live ENA_RING_TYPE_TX q s2 = ring_live ENA_RING_TYPE_TX q s1" for q
    using recover_rx_other [OF a1 _ x, of ENA_RING_TYPE_TX q] by (simp add: ring_live_def)
  with lx lt s' show ?thesis by auto
qed

end
