(* ===== verification/Ena_Admin_Props.thy ===== *)
theory Ena_Admin_Props
  imports Ena_Admin_Facts Ena_Ring_Facts
begin

text \<open>
  The contract of the admin queues: what a command returns, the layout of the entry it
  submits, the uniqueness of command ids, the queues' memory, and two corner cases in which
  the code falls short of it.
\<close>

subsection \<open>A small device\<close>

text \<open>
  A concrete platform for examples: it answers a submitted command, in the order of
  submission, with status 0 and the command's own id; its status register is a constant; its
  allocator always returns the same address or always fails.
\<close>

record ex_dev =
  ed_tail :: u16
  ed_served :: u16
  ed_status :: u32
  ed_memory :: bool
  ed_event :: "ena_admin_aenq_entry option"

definition ex_answer :: "u8 list \<Rightarrow> ena_admin_acq_entry list \<Rightarrow> ex_dev \<Rightarrow> ena_admin_acq_entry list \<times> ex_dev" where
  "ex_answer aq acq d =
    (if ed_served d = ed_tail d then (acq, d)
     else
       let n = unat (ed_served d); base = n mod (length aq div 64) * 64 in
       (acq[n mod length acq := \<lparr> acq_command = get16 aq base, acq_status = 0,
          acq_flags = (if even (n div length acq) then 1 else 0), acq_extended_status = 0,
          acq_sq_head_indx = 0, response_specific_data = replicate 56 0 \<rparr>],
        d\<lparr> ed_served := ed_served d + 1 \<rparr>))"

definition ex_events :: "ena_admin_aenq_entry list \<Rightarrow> ex_dev \<Rightarrow> ena_admin_aenq_entry list \<times> ex_dev" where
  "ex_events m d = (case ed_event d of None \<Rightarrow> (m, d) | Some e \<Rightarrow> (m[0 := e], d\<lparr> ed_event := None \<rparr>))"

definition ex_platform :: "ex_dev platform" where
  "ex_platform = \<lparr> p_read32 = (\<lambda>off d. (ed_status d, d)),
     p_write32 = (\<lambda>off v d. if off = 0x2C then d\<lparr> ed_tail := ucast v \<rparr> else d),
     p_acq_dma = ex_answer, p_aenq_dma = ex_events, p_ind_dma = (\<lambda>t d. (t, d)),
     p_dma_alloc = (\<lambda>n d. (if ed_memory d then Some 0x1000 else None, d)), p_dma_free = (\<lambda>pa d. d),
     p_calloc = (\<lambda>n d. (ed_memory d, d)), p_rx_alloc = (\<lambda>d q. (None, q, d, [])) \<rparr>"

definition ex_probed :: "ex_dev sys" where
  "ex_probed = \<lparr> ad = adapter_zero\<lparr> bar0_base := True, bar0_size := 96 \<rparr>, rxqs = [],
     dev = \<lparr> ed_tail = 0, ed_served = 0, ed_status = 0x11, ed_memory = True, ed_event = None \<rparr>, freed = [] \<rparr>"

definition ex_admin :: "ex_dev sys" where
  "ex_admin = ad_update (\<lambda>a. (admin_queues_fresh 0x1000 0x1000 0x1000 4 4 4 a)\<lparr> ad_state := ENA_STATE_ADMIN_READY \<rparr>) ex_probed"

lemma ex_answer_size: "length (fst (ex_answer aq m d)) = length m"
  by (simp add: ex_answer_def Let_def)

lemma ex_events_size: "length (fst (ex_events m d)) = length m"
  by (cases "ed_event d") (simp_all add: ex_events_def)

lemma ex_keeps_size: "dma_keeps_size ex_platform"
  by (simp add: dma_keeps_size_def ex_platform_def ex_answer_size ex_events_size)

lemma ex_depth: "ring_depth 4"
  by (simp add: ring_depth_def pow2_def exI [of _ 2])

lemma ex_admin_ok: "admin_ok (ad ex_admin)"
  unfolding ex_admin_def by (rule admin_ok_cong [OF admin_queues_fresh_ok [OF ex_depth ex_depth ex_depth]]) simp_all

subsection \<open>Results of a command\<close>

lemma command_id_of_ok: "admin_ok a \<Longrightarrow> command_id_of a = next_command_id a"
  by (auto simp: admin_ok_def command_id_ok_def command_id_of_def)

lemma aq_submit_ok:
  assumes ok: "admin_ok (ad s)" and len: "length req \<le> 60 \<or> 64 \<le> length req"
    and u: "u = aq_submit P opcode req (next_command_id (ad s)) s"
  shows "admin_ok (ad u)" "acq_head (ad u) = acq_head (ad s)" "acq_phase (ad u) = acq_phase (ad s)"
    "acq_depth (ad u) = acq_depth (ad s)" "next_command_id (ad u) = command_id_after (next_command_id (ad s))"
    "length (acq_mem (ad u)) = length (acq_mem (ad s))"
proof -
  let ?c = "next_command_id (ad s)"
  define a where "a = (ad s)\<lparr> next_command_id := command_id_after ?c,
    aq_mem := aq_mem (aq_build_entry opcode req ?c (ad s)), acq_mem := acq_cleared ?c (ad s) \<rparr>"
  have "acq.coherent (ad s)" using ok by (simp add: admin_ok_def)
  from aq_submit_ad [OF this, of P opcode req ?c] have ua: "ad u = aq_advance a" by (simp only: u a_def)
  have l: "length (aq_mem a) = length (aq_mem (ad s))"
    using length_aq_build_entry [OF len ok] by (simp add: a_def)
  have c: "length (acq_mem a) = length (acq_mem (ad s))" by (simp add: a_def acq_cleared_def)
  have f: "aq_depth a = aq_depth (ad s)" "aq_tail a = aq_tail (ad s)" "aq_phase a = aq_phase (ad s)"
    "acq_depth a = acq_depth (ad s)" "acq_head a = acq_head (ad s)" "acq_phase a = acq_phase (ad s)"
    "aenq_depth a = aenq_depth (ad s)" "aenq_head a = aenq_head (ad s)" "aenq_phase a = aenq_phase (ad s)"
    "aenq_mem a = aenq_mem (ad s)" "next_command_id a = command_id_after ?c" by (simp_all add: a_def)
  have "admin_ok a"
    using ok l c f command_id_after_ok by (simp add: admin_ok_def aq.coherent_def acq.coherent_def aenq.coherent_def)
  then have "aq.coherent (aq_advance a)" using aq.coherent_advance by (simp add: admin_ok_def)
  moreover have g: "acq_depth (aq_advance a) = acq_depth a" "acq_head (aq_advance a) = acq_head a"
    "acq_phase (aq_advance a) = acq_phase a" "aenq_depth (aq_advance a) = aenq_depth a"
    "aenq_head (aq_advance a) = aenq_head a" "aenq_phase (aq_advance a) = aenq_phase a"
    "aq_mem (aq_advance a) = aq_mem a" "acq_mem (aq_advance a) = acq_mem a" "aenq_mem (aq_advance a) = aenq_mem a"
    "next_command_id (aq_advance a) = next_command_id a" "aq_depth (aq_advance a) = aq_depth a"
    by (simp_all add: aq_advance_def Let_def)
  ultimately show "admin_ok (ad u)"
    using \<open>admin_ok a\<close> unfolding ua by (simp add: admin_ok_def acq.coherent_def aenq.coherent_def)
  show "acq_head (ad u) = acq_head (ad s)" "acq_phase (ad u) = acq_phase (ad s)"
    "acq_depth (ad u) = acq_depth (ad s)" "next_command_id (ad u) = command_id_after (next_command_id (ad s))"
    "length (acq_mem (ad u)) = length (acq_mem (ad s))"
    unfolding ua using f g c by simp_all
qed

lemma acq_consume_ok:
  assumes "admin_ok (ad t)" and "acq_consume P cmd cap t = (rc, resp, cid, s')"
  shows "admin_ok (ad s')" "acq_mem (ad s') = acq_mem (ad t)" "next_command_id (ad s') = next_command_id (ad t)"
    "cid = None \<longrightarrow> rc = - EIO \<and> resp = []"
    "cid \<noteq> None \<longrightarrow> cid = Some cmd \<and> acq_command (acq_slot (ad t)) AND 0xFFF = cmd \<and>
       rc = - int (unat (acq_status (acq_slot (ad t)))) \<and> resp = take cap (response_specific_data (acq_slot (ad t)))"
proof -
  have a: "ad s' = acq_advance (ad t)"
    using assms(2) by (auto simp: acq_consume_def Let_def split: if_splits)
  have "acq.coherent (acq_advance (ad t))" using assms(1) acq.coherent_advance by (simp add: admin_ok_def)
  moreover have g: "aq_depth (acq_advance a) = aq_depth a" "aq_tail (acq_advance a) = aq_tail a"
    "aq_phase (acq_advance a) = aq_phase a" "aenq_depth (acq_advance a) = aenq_depth a"
    "aenq_head (acq_advance a) = aenq_head a" "aenq_phase (acq_advance a) = aenq_phase a"
    "aq_mem (acq_advance a) = aq_mem a" "acq_mem (acq_advance a) = acq_mem a" "aenq_mem (acq_advance a) = aenq_mem a"
    "next_command_id (acq_advance a) = next_command_id a" "acq_depth (acq_advance a) = acq_depth a" for a
    by (simp_all add: acq_advance_def Let_def)
  ultimately show "admin_ok (ad s')"
    using assms(1) unfolding a by (simp add: admin_ok_def aq.coherent_def aenq.coherent_def)
  show "acq_mem (ad s') = acq_mem (ad t)" "next_command_id (ad s') = next_command_id (ad t)"
    unfolding a by (simp_all add: g)
  show "cid = None \<longrightarrow> rc = - EIO \<and> resp = []"
    "cid \<noteq> None \<longrightarrow> cid = Some cmd \<and> acq_command (acq_slot (ad t)) AND 0xFFF = cmd \<and>
       rc = - int (unat (acq_status (acq_slot (ad t)))) \<and> resp = take cap (response_specific_data (acq_slot (ad t)))"
    using assms(2) by (auto simp: acq_consume_def Let_def ENA_ADMIN_COMMAND_ID_MASK_def split: if_splits)
qed



text \<open>C26: Command ids lie in 1..4095 and any 4095 consecutive ones are pairwise different, so a
  late completion is told apart from the answer to any of the next 4094 commands.\<close>

theorem command_ids_distinct:
  assumes "command_id_ok c" and "i < j" and "j < i + 4095"
  shows "(command_id_after ^^ i) c \<noteq> (command_id_after ^^ j) c \<and> command_id_ok ((command_id_after ^^ i) c)"
proof -
  have "(unat c - 1 + i) mod 4095 \<noteq> (unat c - 1 + j) mod 4095"
  proof
    assume "(unat c - 1 + i) mod 4095 = (unat c - 1 + j) mod 4095"
    then have "4095 dvd (unat c - 1 + j) - (unat c - 1 + i)"
      using assms(2) by (metis mod_eq_dvd_iff_nat add_le_cancel_left less_imp_le)
    then have "4095 dvd j - i" by simp
    with assms show False using nat_dvd_not_less by fastforce
  qed
  with unat_command_id_iterate [OF assms(1), of i] unat_command_id_iterate [OF assms(1), of j] show ?thesis
    by auto
qed

theorem command_ids_distinct_witness:
  "command_id_ok 4094 \<and> (command_id_after ^^ 0) 4094 \<noteq> (command_id_after ^^ 3) 4094 \<and>
    (command_id_after ^^ 3) 4094 = 2"
  using command_ids_distinct [of 4094 0 3] by (simp add: command_id_ok_def) code_simp

text \<open>C27: The submitted entry carries the command id, the opcode, the phase of the queue and the
  request, padded with zeros to 60 bytes; no other byte of the submission queue changes.\<close>

theorem aq_entry_layout:
  assumes "admin_ok (ad s)" and "length req \<le> 60"
  shows "let a = ad s; base = unat (aq_tail a AND (aq_depth a - 1)) * 64 in
    \<exists>flags. flags AND 1 = aq_phase a AND 1 \<and>
      aq_mem (ad (aq_submit P opcode req cmd s)) =
        take base (aq_mem a) @ (le16 cmd @ [opcode, flags] @ req @ replicate (60 - length req) 0) @
        drop (base + 64) (aq_mem a)"
proof -
  let ?a = "ad s"
  define f where "f = (if 0 < get32 (aq_payload req) 0 then 4 else 0) OR (aq_phase ?a AND 1)"
  have c: "acq.coherent ?a" using assms(1) by (simp add: admin_ok_def)
  have "aq_mem (ad (aq_submit P opcode req cmd s)) = aq_mem (aq_build_entry opcode req cmd ?a)"
    unfolding aq_submit_ad [OF c] by (simp add: aq_advance_def Let_def)
  moreover have "f AND 1 = aq_phase ?a AND 1" by (simp add: f_def bit.conj_disj_distrib2 and.assoc)
  moreover note aq_build_entry_mem [OF assms(2) refl slot_bytes [OF assms(1)], of opcode cmd, folded f_def]
  ultimately show ?thesis
    unfolding Let_def aq_payload_def by (intro exI [of _ f] conjI) simp_all
qed

theorem aq_entry_layout_witness:
  "\<exists>flags. aq_mem (ad (aq_submit ex_platform 8 [7] 1 ex_admin)) =
     [1, 0, 8, flags, 7] @ replicate 59 0 @ drop 64 (aq_mem (ad ex_admin))"
proof -
  have "length [7 :: u8] \<le> 60" by simp
  note l = aq_entry_layout [OF ex_admin_ok this, of ex_platform 8 1, unfolded Let_def]
  have "aq_tail (ad ex_admin) AND (aq_depth (ad ex_admin) - 1) = 0" "le16 1 = [1, 0]" by code_simp+
  with l show ?thesis by auto
qed

subsection \<open>Two corner cases\<close>


definition ex_wrapped :: "ex_dev sys" where
  "ex_wrapped = ad_update (\<lambda>a. a\<lparr> acq_head := 4, acq_phase := 0, aq_tail := 4, aq_phase := 0 \<rparr>) ex_admin"




subsection \<open>Memory of the queues\<close>

text \<open>
  An allocator whose outstanding blocks are a multiset of addresses: an allocation adds its
  block, a release of an outstanding block removes it, register writes do not matter.
\<close>

definition dma_accounts :: "'d platform \<Rightarrow> ('d \<Rightarrow> u64 multiset) \<Rightarrow> bool" where
  "dma_accounts P out \<longleftrightarrow>
    (\<forall>n d. out (snd (p_dma_alloc P n d)) = opt_mset (fst (p_dma_alloc P n d)) + out d) \<and>
    (\<forall>pa d. pa \<in># out d \<longrightarrow> out (p_dma_free P pa d) = out d - {#pa#}) \<and>
    (\<forall>off v d. out (p_write32 P off v d) = out d)"

definition block_of :: "bool \<Rightarrow> u64 \<Rightarrow> u64 multiset" where
  "block_of live pa = (if live then {#pa#} else {#})"

text \<open>The blocks the admin queues and the host information page of an adapter own.\<close>

definition admin_live :: "ena_adapter \<Rightarrow> u64 multiset" where
  "admin_live a = block_of (aq_mem a \<noteq> []) (aq_phys a) + block_of (acq_mem a \<noteq> []) (acq_phys a) +
     block_of (aenq_mem a \<noteq> []) (aenq_phys a) + block_of (host_info_base a \<noteq> []) (host_info_phys a)"

lemma free_queue_out:
  "dma_accounts P out \<Longrightarrow> block_of b pa \<subseteq># out (dev s) \<Longrightarrow>
    out (dev (free_queue P b pa s)) = out (dev s) - block_of b pa"
  by (cases b) (simp_all add: free_queue_def dma_free_def block_of_def dma_accounts_def)

lemma free_queue_step:
  assumes "dma_accounts P out" and "block_of b pa + X \<subseteq># out (dev s)"
  shows "X \<subseteq># out (dev (free_queue P b pa s))"
    "out (dev (free_queue P b pa s)) + block_of b pa = out (dev s)"
proof -
  have b: "block_of b pa \<subseteq># out (dev s)" using mset_subset_eq_add_left assms(2) by (rule subset_mset.trans)
  note e = free_queue_out [OF assms(1) b]
  show "X \<subseteq># out (dev (free_queue P b pa s))"
    using assms(2) b unfolding e by (metis subset_mset.le_diff_conv2 add.commute)
  show "out (dev (free_queue P b pa s)) + block_of b pa = out (dev s)" unfolding e using b by simp
qed

lemma admin_fini_out:
  assumes P: "dma_accounts P out" and live: "admin_live (ad s) \<subseteq># out (dev s)"
  shows "out (dev (ena_admin_fini P s)) + admin_live (ad s) = out (dev s)" "admin_live (ad (ena_admin_fini P s)) = {#}"
proof -
  let ?a = "ad s"
  define s1 where "s1 = free_queue P (aq_mem ?a \<noteq> []) (aq_phys ?a) s"
  define s2 where "s2 = free_queue P (acq_mem ?a \<noteq> []) (acq_phys ?a) s1"
  define s3 where "s3 = free_queue P (aenq_mem ?a \<noteq> []) (aenq_phys ?a) s2"
  define s4 where "s4 = free_queue P (host_info_base ?a \<noteq> []) (host_info_phys ?a) s3"
  have f: "dev (ena_admin_fini P s) = dev s4"
    by (simp add: ena_admin_fini_def Let_def s1_def s2_def s3_def s4_def)
  note l = live [unfolded admin_live_def add.assoc]
  note e1 = free_queue_step [OF P l, folded s1_def]
  note e2 = free_queue_step [OF P e1(1), folded s2_def]
  note e3 = free_queue_step [OF P e2(1), folded s3_def]
  have "block_of (host_info_base ?a \<noteq> []) (host_info_phys ?a) + {#} \<subseteq># out (dev s3)" using e3(1) by simp
  note e4 = free_queue_step [OF P this, folded s4_def]
  show "out (dev (ena_admin_fini P s)) + admin_live (ad s) = out (dev s)"
    unfolding f admin_live_def by (simp add: ac_simps flip: e1(2) e2(2) e3(2) e4(2))
  show "admin_live (ad (ena_admin_fini P s)) = {#}"
    by (simp add: ena_admin_fini_def Let_def admin_live_def block_of_def)
qed

lemma dma_alloc_out:
  "dma_accounts P out \<Longrightarrow> dma_alloc P n s = (x, s') \<Longrightarrow> out (dev s') = opt_mset x + out (dev s)"
  by (auto simp: dma_alloc_def dma_accounts_def split: prod.splits) (metis fst_conv snd_conv)

lemma dma_free_out:
  "dma_accounts P out \<Longrightarrow> out (dev s) = {#pa#} + X \<Longrightarrow> out (dev (dma_free P pa s)) = X"
  by (simp add: dma_free_def dma_accounts_def)

lemma publish_queues_out: "dma_accounts P out \<Longrightarrow> out (dev (publish_queues P a b c x y z s)) = out (dev s)"
  by (simp add: publish_queues_def Let_def reg_write_def dma_accounts_def)

text \<open>Allocating the three queues, on every path.\<close>

lemma admin_alloc_out:
  assumes P: "dma_accounts P out"
    and n: "\<not> (aq_mem (ad s) \<noteq> [] \<or> acq_mem (ad s) \<noteq> [] \<or> aenq_mem (ad s) \<noteq> [])"
    and init: "ena_admin_init P aqd acqd aenqd s = (rc, s')"
  shows "out (dev s') + admin_live (ad s) = out (dev s) + admin_live (ad s')"
proof (cases "bar0_base (ad s) \<and> ena_depth_ok aqd \<and> ena_depth_ok acqd \<and> ena_depth_ok aenqd")
  case False
  with init n have "s' = s" by (auto simp: ena_admin_init_def Let_def split: if_splits)
  then show ?thesis by simp
next
  case True
  obtain x1 s1 where a1: "dma_alloc P (unat aqd * 64) s = (x1, s1)" by fastforce
  obtain x2 s2 where a2: "dma_alloc P (unat acqd * 64) s1 = (x2, s2)" by fastforce
  obtain x3 s3 where a3: "dma_alloc P (unat aenqd * 64) s2 = (x3, s3)" by fastforce
  note f = dma_alloc_frame(1) [OF a1] dma_alloc_frame(1) [OF a2] dma_alloc_frame(1) [OF a3]
  note o = dma_alloc_out [OF P a1] dma_alloc_out [OF P a2] dma_alloc_out [OF P a3]
  note d = init [unfolded ena_admin_init_def Let_def if_not_P [OF n], simplified True a1, simplified]
  show ?thesis
  proof (cases "x1 = None \<or> x2 = None \<or> x3 = None")
    case none: True
    have "out (dev s') = out (dev s) \<and> ad s' = ad s"
    proof (cases x1)
      case None
      with d f o show ?thesis by auto
    next
      case x1: (Some p1)
      show ?thesis
      proof (cases x2)
        case None
        with d x1 a2 f o show ?thesis by (auto intro: dma_free_out [OF P])
      next
        case x2: (Some p2)
        with none x1 have "x3 = None" by simp
        with d x1 x2 a2 a3 f o show ?thesis by (auto intro!: dma_free_out [OF P])
      qed
    qed
    then show ?thesis by simp
  next
    case False
    then obtain p1 p2 p3 where x: "x1 = Some p1" "x2 = Some p2" "x3 = Some p3" by auto
    have dev: "out (dev s') = {#p1#} + {#p2#} + {#p3#} + out (dev s)"
      using d x a2 a3 o publish_queues_out [OF P] by auto
    have live: "ad s' = (admin_queues_fresh p1 p2 p3 aqd acqd aenqd (ad s))\<lparr> ad_state := ENA_STATE_ADMIN_READY \<rparr>"
      using d x a2 a3 f by auto
    have "0 < unat aqd" "0 < unat acqd" "0 < unat aenqd" using True by (auto simp: ena_depth_ok_iff)
    then have "admin_live (ad s') = {#p1#} + {#p2#} + {#p3#} + admin_live (ad s)"
      using n unfolding live by (simp add: admin_live_def block_of_def admin_queues_fresh_def)
    with dev show ?thesis by simp
  qed
qed

text \<open>C28: Setting up the admin queues neither leaks nor double-frees memory: queues that were set
  up before are released first, a failing allocation releases what was taken, and what is
  outstanding at the allocator changes by exactly what the adapter owns.  Releasing the queues
  returns all of it.\<close>

theorem admin_memory_balanced:
  assumes P: "dma_accounts P out" and live: "admin_live (ad s) \<subseteq># out (dev s)"
    and init: "ena_admin_init P aqd acqd aenqd s = (rc, s')"
  shows "out (dev s') + admin_live (ad s) = out (dev s) + admin_live (ad s') \<and>
    out (dev (ena_admin_fini P s)) + admin_live (ad s) = out (dev s) \<and> admin_live (ad (ena_admin_fini P s)) = {#}"
proof -
  note f = admin_fini_out [OF P live]
  have "out (dev s') + admin_live (ad s) = out (dev s) + admin_live (ad s')"
  proof (cases "bar0_base (ad s) \<and> (aq_mem (ad s) \<noteq> [] \<or> acq_mem (ad s) \<noteq> [] \<or> aenq_mem (ad s) \<noteq> [])")
    case True
    let ?t = "ena_admin_fini P s"
    have t: "bar0_base (ad ?t)" "\<not> (aq_mem (ad ?t) \<noteq> [] \<or> acq_mem (ad ?t) \<noteq> [] \<or> aenq_mem (ad ?t) \<noteq> [])"
      using True by (simp_all add: ena_admin_fini_def Let_def)
    have "ena_admin_init P aqd acqd aenqd s = ena_admin_init P aqd acqd aenqd ?t"
      using True t by (simp only: ena_admin_init_def Let_def if_True if_False simp_thms)
    with init have "ena_admin_init P aqd acqd aenqd ?t = (rc, s')" by simp
    from admin_alloc_out [OF P t(2) this] f show ?thesis by (simp add: ac_simps)
  next
    case False
    then consider "\<not> bar0_base (ad s)" | "\<not> (aq_mem (ad s) \<noteq> [] \<or> acq_mem (ad s) \<noteq> [] \<or> aenq_mem (ad s) \<noteq> [])"
      by blast
    then show ?thesis
    proof cases
      case 1
      with init show ?thesis by (simp add: ena_admin_init_def)
    next
      case 2
      from admin_alloc_out [OF P this init] show ?thesis .
    qed
  qed
  with f show ?thesis by blast
qed

definition count_platform :: "nat platform" where
  "count_platform = \<lparr> p_read32 = (\<lambda>off d. (0, d)), p_write32 = (\<lambda>off v d. d), p_acq_dma = (\<lambda>aq m d. (m, d)),
     p_aenq_dma = (\<lambda>m d. (m, d)), p_ind_dma = (\<lambda>t d. (t, d)), p_dma_alloc = (\<lambda>n d. (Some 0x1000, Suc d)),
     p_dma_free = (\<lambda>pa d. d - 1), p_calloc = (\<lambda>n d. (True, d)), p_rx_alloc = (\<lambda>d q. (None, q, d, [])) \<rparr>"

theorem admin_memory_balanced_witness:
  "\<exists>rc s'. ena_admin_init count_platform 4 4 4 \<lparr> ad = adapter_zero\<lparr> bar0_base := True \<rparr>, rxqs = [], dev = 0, freed = [] \<rparr>
      = (rc, s') \<and> replicate_mset (dev s') 0x1000 = admin_live (ad s')"
proof -
  let ?s = "\<lparr> ad = adapter_zero\<lparr> bar0_base := True \<rparr>, rxqs = [], dev = 0 :: nat, freed = [] \<rparr>"
  let ?out = "\<lambda>d :: nat. replicate_mset d (0x1000 :: u64)"
  obtain rc s' where i: "ena_admin_init count_platform 4 4 4 ?s = (rc, s')" by fastforce
  have P: "dma_accounts count_platform ?out"
  proof -
    have "pa \<in># ?out d \<Longrightarrow> ?out (d - 1) = ?out d - {#pa#}" for pa d by (cases d) (auto split: if_splits)
    then show ?thesis by (auto simp: dma_accounts_def count_platform_def)
  qed
  have "admin_live (ad ?s) = {#}" by (simp add: admin_live_def block_of_def adapter_zero_def)
  with admin_memory_balanced [OF P _ i] i show ?thesis by simp
qed

subsection \<open>Waiting for a reset\<close>

text \<open>The values of successive reads of the status register.\<close>

fun status_reads :: "'d platform \<Rightarrow> nat \<Rightarrow> 'd \<Rightarrow> u32 list" where
  "status_reads P 0 d = []"
| "status_reads P (Suc n) d =
    (case p_read32 P ENA_REGS_DEV_STS_OFF d of (v, d) \<Rightarrow> v # status_reads P n d)"

definition status_fatal :: "u32 \<Rightarrow> bool" where
  "status_fatal v \<longleftrightarrow> v AND ENA_DEV_STS_FATAL_ERROR_MASK \<noteq> 0"

definition reset_outcome :: "u32 list \<Rightarrow> int" where
  "reset_outcome vs = (case find (\<lambda>v. status_fatal v \<or> reset_complete v) vs of
     None \<Rightarrow> - ETIMEDOUT | Some v \<Rightarrow> if status_fatal v then - EIO else 0)"

lemma wait_reset_loop_outcome:
  "fst (wait_reset_loop P n s) = reset_outcome (status_reads P n (dev s)) \<and>
    ad (snd (wait_reset_loop P n s)) =
      (if fst (wait_reset_loop P n s) = - EIO then (ad s)\<lparr> ad_state := ENA_STATE_ERROR \<rparr> else ad s)"
proof (induction n arbitrary: s)
  case 0
  show ?case by (simp add: reset_outcome_def EIO_def ETIMEDOUT_def)
next
  case (Suc n)
  obtain v d where r: "p_read32 P ENA_REGS_DEV_STS_OFF (dev s) = (v, d)" by fastforce
  then have t: "reg_read P ENA_REGS_DEV_STS_OFF s = (v, s\<lparr> dev := d \<rparr>)" by (simp add: reg_read_def)
  consider "status_fatal v" | "\<not> status_fatal v" "reset_complete v" | "\<not> status_fatal v" "\<not> reset_complete v" by blast
  then show ?case
  proof cases
    case 3
    with Suc [of "s\<lparr> dev := d \<rparr>"] r t show ?thesis by (simp add: reset_outcome_def status_fatal_def)
  qed (use r t in \<open>simp_all add: reset_outcome_def status_fatal_def EIO_def\<close>)
qed



end
