(* ===== verification/Ena_Recover_Props.thy ===== *)
theory Ena_Recover_Props
  imports Ena_Recover_Facts Ena_Admin_Props
begin

text \<open>
  The contract of recovery: command execution and recovery solve the recursive equations of the
  code, a recovery keeps every ring well formed and its doorbells inside the register window,
  gives all packet buffers back, and a recovery that reports success leaves live queues.  One
  corner case remains: the completion queues are not cleared.
\<close>

subsection \<open>Buffers of the rings\<close>

definition ring_held :: "ena_ring option \<Rightarrow> netbuf multiset" where
  "ring_held x = (case x of None \<Rightarrow> {#} | Some r \<Rightarrow> if ring_type r = ENA_RING_TYPE_TX then tx_held r else rx_held r)"

definition adapter_held :: "ena_adapter \<Rightarrow> netbuf multiset" where
  "adapter_held a = (\<Sum>x\<leftarrow>tx_rings a. ring_held x) + (\<Sum>x\<leftarrow>rx_rings a. ring_held x)"

lemma ring_held_reset:
  assumes "tx_ring_ok r \<or> rx_ring_ok r"
  shows "mset (fst (ena_ring_reset_sw_state r)) = ring_held (Some r)"
    "ring_held (Some (snd (ena_ring_reset_sw_state r))) = {#}"
proof -
  have t: "tx_ring_ok r \<Longrightarrow> ring_type r = ENA_RING_TYPE_TX"
    by (simp add: tx_ring_ok_def tx_ok_exceptD(1))
  show "mset (fst (ena_ring_reset_sw_state r)) = ring_held (Some r)"
    "ring_held (Some (snd (ena_ring_reset_sw_state r))) = {#}"
    using assms t tx_reset_ok(2,3) rx_reset_ok(2,3) rx_ring_okD(1)
    by (auto simp: ring_held_def reset_fields)
qed

lemma reset_rings_held:
  assumes "\<forall>r. Some r \<in> set rs \<longrightarrow> tx_ring_ok r \<or> rx_ring_ok r"
  shows "mset (fst (reset_rings n rs)) + (\<Sum>x\<leftarrow>snd (reset_rings n rs). ring_held x) = (\<Sum>x\<leftarrow>rs. ring_held x)"
proof -
  let ?f = "\<lambda>x. case x of None \<Rightarrow> [] | Some r \<Rightarrow> fst (ena_ring_reset_sw_state r)"
  let ?g = "map_option (\<lambda>r. snd (ena_ring_reset_sw_state r))"
  have "mset (concat (map ?f xs)) + (\<Sum>x\<leftarrow>map ?g xs. ring_held x) = (\<Sum>x\<leftarrow>xs. ring_held x)"
    if "\<forall>r. Some r \<in> set xs \<longrightarrow> tx_ring_ok r \<or> rx_ring_ok r" for xs
    using that
  proof (induction xs)
    case (Cons x xs)
    then show ?case
      using ring_held_reset by (cases x) (auto simp: ring_held_def ac_simps)
  qed simp
  from this [of "take n rs"] assms
  have "mset (concat (map ?f (take n rs))) + (\<Sum>x\<leftarrow>map ?g (take n rs). ring_held x) = (\<Sum>x\<leftarrow>take n rs. ring_held x)"
    by (auto dest: in_set_takeD)
  moreover have "(\<Sum>x\<leftarrow>rs. ring_held x) = (\<Sum>x\<leftarrow>take n rs. ring_held x) + (\<Sum>x\<leftarrow>drop n rs. ring_held x)"
    by (simp flip: sum_list_append map_append)
  ultimately show ?thesis by (simp add: reset_rings_def ac_simps)
qed

subsection \<open>An adapter with two rings\<close>

definition ex_live_ring :: "ena_ring_type \<Rightarrow> ena_ring" where
  "ex_live_ring ty = the (fst (snd (ena_ring_alloc (\<lambda>_. Some 0x1000) 0 ty 4 4 [])))"

definition ex_posted :: ena_ring where
  "ex_posted = snd (snd (ena_rx_submit_one (ex_live_ring ENA_RING_TYPE_RX) (Some 7) 0x200000 2048))"

definition ex_running :: "ex_dev sys" where
  "ex_running = ad_update (\<lambda>a. a\<lparr> tx_rings := [Some (ex_live_ring ENA_RING_TYPE_TX)], num_tx_rings := 1,
     rx_rings := [Some ex_posted], num_rx_rings := 1 \<rparr>) ex_admin"

lemma ex_live_alloc:
  "\<exists>live. ena_ring_alloc (\<lambda>_. Some 0x1000) 0 ENA_RING_TYPE_TX 4 4 [] = (0, Some (ex_live_ring ENA_RING_TYPE_TX), live)"
  "\<exists>live. ena_ring_alloc (\<lambda>_. Some 0x1000) 0 ENA_RING_TYPE_RX 4 4 [] = (0, Some (ex_live_ring ENA_RING_TYPE_RX), live)"
proof -
  have "fst (ena_ring_alloc (\<lambda>_. Some 0x1000) 0 ENA_RING_TYPE_TX 4 4 []) = 0 \<and>
      fst (snd (ena_ring_alloc (\<lambda>_. Some 0x1000) 0 ENA_RING_TYPE_TX 4 4 [])) \<noteq> None"
    "fst (ena_ring_alloc (\<lambda>_. Some 0x1000) 0 ENA_RING_TYPE_RX 4 4 []) = 0 \<and>
      fst (snd (ena_ring_alloc (\<lambda>_. Some 0x1000) 0 ENA_RING_TYPE_RX 4 4 [])) \<noteq> None"
    by code_simp+
  then show
    "\<exists>live. ena_ring_alloc (\<lambda>_. Some 0x1000) 0 ENA_RING_TYPE_TX 4 4 [] = (0, Some (ex_live_ring ENA_RING_TYPE_TX), live)"
    "\<exists>live. ena_ring_alloc (\<lambda>_. Some 0x1000) 0 ENA_RING_TYPE_RX 4 4 [] = (0, Some (ex_live_ring ENA_RING_TYPE_RX), live)"
    by (cases "ena_ring_alloc (\<lambda>_. Some 0x1000) 0 ENA_RING_TYPE_TX 4 4 []",
        cases "ena_ring_alloc (\<lambda>_. Some 0x1000) 0 ENA_RING_TYPE_RX 4 4 []", auto simp: ex_live_ring_def)+
qed

lemma ex_live_ok: "tx_ring_ok (ex_live_ring ENA_RING_TYPE_TX)" "rx_ring_ok (ex_live_ring ENA_RING_TYPE_RX)"
  using ex_live_alloc tx_alloc_ok rx_alloc_ok by blast+

lemma ex_posted_ok: "rx_ring_ok ex_posted"
proof -
  let ?p = "ena_rx_submit_one (ex_live_ring ENA_RING_TYPE_RX) (Some 7) 0x200000 2048"
  have "fst ?p = 0" by code_simp
  then obtain i where "?p = (0, i, ex_posted)" by (cases ?p) (auto simp: ex_posted_def)
  from rx_submit_ok(1) [OF ex_live_ok(2) this] show ?thesis .
qed

lemma ex_running_ok: "rings_ok (ad ex_running)"
proof -
  have "sq_db (ex_live_ring ENA_RING_TYPE_TX) = None \<and> cq_db (ex_live_ring ENA_RING_TYPE_TX) = None \<and>
      \<not> is_llq (ex_live_ring ENA_RING_TYPE_TX)"
    "sq_db ex_posted = None \<and> cq_db ex_posted = None \<and> \<not> is_llq ex_posted"
    by code_simp+
  then show ?thesis using ex_live_ok(1) ex_posted_ok by (auto simp: rings_ok_def ex_running_def db_ok_def)
qed

subsection \<open>Properties\<close>

text \<open>C32: Executing a command and recovering the device call each other in the code.  The
  model's functions solve these two equations: a command that times out runs the recovery, the
  recovery runs its commands through the same execution function, and the flag of a running
  recovery keeps it from nesting.\<close>

theorem recovery_never_nests:
  "ena_admin_exec_cmd P = exec_cmd_with P (ena_adapter_reset_and_recover P) \<and>
   ena_adapter_reset_and_recover P = reset_and_recover_with P (ena_admin_exec_cmd P)"
proof -
  have "reset_and_recover_with P (exec_in_recovery P) s = reset_and_recover_with P (ena_admin_exec_cmd P) s" for s
  proof (rule act.reset_and_recover_laws)
    show "recover_active (ad s')" if "reset_admin P (set_active True s) = (0, s')" for s'
      using reset_admin_rings(2) [OF that] by simp
  qed simp
  then have "ena_adapter_reset_and_recover P = reset_and_recover_with P (ena_admin_exec_cmd P)"
    unfolding ena_adapter_reset_and_recover_def by (rule ext)
  then show ?thesis by (simp add: ena_admin_exec_cmd_def)
qed

text \<open>C3: A recovery, whatever the device answers, keeps every ring well formed, keeps the
  doorbells of the rings aligned and inside the register window and their push areas inside the
  memory window, and leaves the flag of a running recovery as it found it.\<close>

theorem recovery_keeps_rings:
  assumes "rings_ok (ad s)" and "ena_adapter_reset_and_recover P s = (rc, s')"
  shows "rings_ok (ad s') \<and> recover_active (ad s') = recover_active (ad s)"
  using assms by (rule recover_keeps)

theorem recovery_keeps_rings_witness:
  "\<exists>rc s'. ena_adapter_reset_and_recover ex_platform ex_running = (rc, s') \<and> rings_ok (ad s') \<and> \<not> recover_active (ad s')"
proof -
  obtain rc s' where e: "ena_adapter_reset_and_recover ex_platform ex_running = (rc, s')" by fastforce
  have "\<not> recover_active (ad ex_running)" by code_simp
  with recovery_keeps_rings [OF ex_running_ok e] e show ?thesis by blast
qed

text \<open>C33: Resetting the rings releases every packet buffer the rings in use hold, once: what the
  rings held before is what was released plus what the rings hold afterwards, and a ring that was
  reset holds nothing and takes no more packets.\<close>

theorem invalidate_returns_buffers:
  assumes "rings_ok (ad s)"
  defines "s' \<equiv> ena_adapter_invalidate_io_rings s"
  shows "mset (freed s') + adapter_held (ad s') = mset (freed s) + adapter_held (ad s) \<and>
    (q < unat (num_tx_rings (ad s)) \<longrightarrow> ring_at (tx_rings (ad s')) q = Some r \<longrightarrow> tx_held r = {#} \<and> \<not> hw_valid r) \<and>
    (q < unat (num_rx_rings (ad s)) \<longrightarrow> ring_at (rx_rings (ad s')) q = Some r \<longrightarrow> rx_held r = {#} \<and> \<not> hw_valid r)"
proof -
  have ok: "\<forall>r. Some r \<in> set (tx_rings (ad s)) \<longrightarrow> tx_ring_ok r" "\<forall>r. Some r \<in> set (rx_rings (ad s)) \<longrightarrow> rx_ring_ok r"
    using assms(1) by (simp_all add: rings_ok_def)
  have at: "ring_at (snd (reset_rings n rs)) q = map_option (\<lambda>r. snd (ena_ring_reset_sw_state r)) (ring_at rs q)" if "q < n" for n rs
    using that by (auto simp: reset_rings_def ring_at_def nth_append)
  have "mset (freed s') + adapter_held (ad s') = mset (freed s) + adapter_held (ad s)"
    using reset_rings_held [of "tx_rings (ad s)" "unat (num_tx_rings (ad s))"]
      reset_rings_held [of "rx_rings (ad s)" "unat (num_rx_rings (ad s))"] ok
    by (simp add: s'_def ena_adapter_invalidate_io_rings_def Let_def adapter_held_def ac_simps)
  moreover have "tx_held r = {#} \<and> \<not> hw_valid r"
    if "q < unat (num_tx_rings (ad s))" "ring_at (tx_rings (ad s')) q = Some r"
    using that at ok(1) tx_reset_ok(3) ring_at_set
    by (auto simp: s'_def ena_adapter_invalidate_io_rings_def Let_def reset_fields)
  moreover have "rx_held r = {#} \<and> \<not> hw_valid r"
    if "q < unat (num_rx_rings (ad s))" "ring_at (rx_rings (ad s')) q = Some r"
    using that at ok(2) rx_reset_ok(3) ring_at_set
    by (auto simp: s'_def ena_adapter_invalidate_io_rings_def Let_def reset_fields)
  ultimately show ?thesis by blast
qed

theorem invalidate_returns_buffers_witness:
  "freed (ena_adapter_invalidate_io_rings ex_running) = [7] \<and>
   mset [7] + adapter_held (ad (ena_adapter_invalidate_io_rings ex_running)) = adapter_held (ad ex_running)"
proof -
  have "freed (ena_adapter_invalidate_io_rings ex_running) = [7]" "freed ex_running = []" by code_simp+
  with invalidate_returns_buffers [OF ex_running_ok] show ?thesis by simp
qed

text \<open>C11: When a recovery reports success, every transmit and receive ring in use has live
  hardware queues again.\<close>

theorem recovery_success_live:
  assumes "ena_adapter_reset_and_recover P s = (0, s')"
  shows "(q < unat (num_tx_rings (ad s)) \<longrightarrow> ring_live ENA_RING_TYPE_TX q s') \<and>
    (q < unat (num_rx_rings (ad s)) \<longrightarrow> ring_live ENA_RING_TYPE_RX q s')"
proof -
  have na: "\<not> recover_active (ad s)"
    using assms by (auto simp: ena_adapter_reset_and_recover_def recover_refused EBUSY_def)
  obtain rr t where t: "reset_admin P (set_active True s) = (rr, t)" by fastforce
  have ft: "frame_eq (ena_adapter_invalidate_io_rings (set_active True s)) t" by (rule reset_admin_frame [OF t])
  then have n: "recover_active (ad t)" "num_tx_rings (ad t) = num_tx_rings (ad s)" "num_rx_rings (ad t) = num_rx_rings (ad s)"
    by (simp_all add: frame_eq_def ena_adapter_invalidate_io_rings_def Let_def)
  define u where "u = (if \<not> ena_adapter_has_io_rings (ad t) \<and> aenq_enabled_groups (ad t) \<noteq> 0
    then snd (ena_init_config_aenq (exec_in_recovery P) t) else t)"
  have u: "recover_active (ad u) \<and> num_tx_rings (ad u) = num_tx_rings (ad s) \<and> num_rx_rings (ad u) = num_rx_rings (ad s)"
    using n config_aenq_rings [OF n(1), of P] by (simp add: u_def)
  obtain r2 v where v: "ena_adapter_recover_io_rings P (exec_in_recovery P) u = (r2, v)" by fastforce
  have e: "(0, s') = (if rr \<noteq> 0 then (rr, set_active False t) else (r2, set_active False v))"
    using assms na
    unfolding ena_adapter_reset_and_recover_def reset_and_recover_with_def Let_def t prod.case u_def [symmetric] v by simp
  then have "r2 = 0" and s': "s' = set_active False v" by (auto split: if_splits)
  have "ring_live ty q s' = ring_live ty q v" for ty by (simp add: s' ring_live_def ring_of_def)
  with recover_io_rings_live [OF conjunct1 [OF u] v [unfolded \<open>r2 = 0\<close>]] u show ?thesis by simp
qed

theorem recovery_success_live_witness:
  "\<exists>s'. ena_adapter_reset_and_recover ex_platform ex_running = (0, s') \<and>
    ring_live ENA_RING_TYPE_TX 0 s' \<and> ring_live ENA_RING_TYPE_RX 0 s'"
proof -
  have "fst (ena_adapter_reset_and_recover ex_platform ex_running) = 0" by code_simp
  then obtain s' where e: "ena_adapter_reset_and_recover ex_platform ex_running = (0, s')"
    by (cases "ena_adapter_reset_and_recover ex_platform ex_running") simp
  have "unat (num_tx_rings (ad ex_running)) = 1" "unat (num_rx_rings (ad ex_running)) = 1" by code_simp+
  with recovery_success_live [OF e, of 0] e show ?thesis by auto
qed


end
