(* ===== verification/Ena_Intr.thy ===== *)
theory Ena_Intr
  imports Ena_Recover
begin

text \<open>
  Interrupt vectors and the polling sweep (\<^verbatim>\<open>src/src/ena_intr.c\<close>).

  The platform's MSI-X services are a record of functions: the probe for vectors, arming the
  capability (absent in a build without it) and disarming it.  A polling sweep takes, for every
  ring, the writes of the device to its completion queue during the poll, and has no result
  when they run out before the poll of that ring ends.  The completion callback of a transmit
  ring works on a state \<open>'q\<close> shared by all transmit queues.
\<close>

definition ENA_MAX_MSIX_VECTORS :: u32 where [ena_consts]: "ENA_MAX_MSIX_VECTORS = 32"
definition ENA_ETH_IO_INTR_REG_INTR_UNMASK_MASK :: u32 where
  [ena_consts]: "ENA_ETH_IO_INTR_REG_INTR_UNMASK_MASK = 0x40000000"

subsection \<open>The vector table\<close>

definition irq_vector_init :: "nat \<Rightarrow> ena_irq_vector" where
  "irq_vector_init i =
    (if i = 0 then \<lparr> vector_id = 0, queue_id = 0, is_admin = True, iv_masked = True,
       moderation_interval_usec = 0, intr_count = 0 \<rparr>
     else \<lparr> vector_id = of_nat i, queue_id = of_nat (i - 1), is_admin = False, iv_masked = True,
       moderation_interval_usec = 20, intr_count = 0 \<rparr>)"

definition ena_intr_msix_init :: "'d platform \<Rightarrow> u32 \<Rightarrow> 'd sys \<Rightarrow> int \<times> 'd sys" where
  "ena_intr_msix_init P num_vectors s =
    (if num_vectors = 0 \<or> ENA_MAX_MSIX_VECTORS < num_vectors then (- EINVAL, s)
     else case p_calloc P (unat num_vectors * 16) (dev s) of (ok, d) \<Rightarrow>
       let s = s\<lparr> dev := d \<rparr> in
       if \<not> ok then (- ENOMEM, ad_update (irq_vectors_update (\<lambda>_. [])) s)
       else (0, ad_update (\<lambda>a. a\<lparr> irq_vectors := map irq_vector_init [0..<unat num_vectors],
                  num_irq_vectors := num_vectors \<rparr>) s))"

definition vector_upd :: "u32 \<Rightarrow> (ena_irq_vector \<Rightarrow> ena_irq_vector) \<Rightarrow> 'd sys \<Rightarrow> 'd sys" where
  "vector_upd v f = ad_update (\<lambda>a. a\<lparr> irq_vectors := (irq_vectors a)[unat v := f (irq_vectors a ! unat v)] \<rparr>)"

definition vector_bad :: "u32 \<Rightarrow> 'd sys \<Rightarrow> bool" where
  "vector_bad v s \<longleftrightarrow> irq_vectors (ad s) = [] \<or> num_irq_vectors (ad s) \<le> v"

definition ena_intr_mask_vector :: "'d platform \<Rightarrow> u32 \<Rightarrow> 'd sys \<Rightarrow> int \<times> 'd sys" where
  "ena_intr_mask_vector P v s =
    (if vector_bad v s then (- EINVAL, s)
     else
       let s = vector_upd v (iv_masked_update (\<lambda>_. True)) s
       in (0, if bar0_base (ad s) \<and> v = 0 then reg_write P ENA_REGS_INTR_MASK_OFF 1 s else s))"

text \<open>The unmask register of the completion queue of a ring, if the ring has one.\<close>

definition unmask_queue :: "'d platform \<Rightarrow> ena_ring option \<Rightarrow> 'd sys \<Rightarrow> 'd sys" where
  "unmask_queue P x s =
    (case x of None \<Rightarrow> s
     | Some r \<Rightarrow> if cq_unmask_db_offset r \<noteq> 0
         then reg_write P (cq_unmask_db_offset r) ENA_ETH_IO_INTR_REG_INTR_UNMASK_MASK s else s)"

definition ena_intr_unmask_vector :: "'d platform \<Rightarrow> u32 \<Rightarrow> 'd sys \<Rightarrow> int \<times> 'd sys" where
  "ena_intr_unmask_vector P v s =
    (if vector_bad v s then (- EINVAL, s)
     else
       let s = vector_upd v (iv_masked_update (\<lambda>_. False)) s; a = ad s
       in if \<not> bar0_base a then (0, s)
       else if v = 0 then (0, reg_write P ENA_REGS_INTR_MASK_OFF 0 s)
       else
         let qid = queue_id (irq_vectors a ! unat v);
             num_tx = (if num_tx_rings a \<noteq> 0 then num_tx_rings a else max_tx_queues a);
             num_rx = (if num_rx_rings a \<noteq> 0 then num_rx_rings a else max_rx_queues a);
             s = (if qid < num_rx then unmask_queue P (ring_at (rx_rings a) (unat qid)) s else s)
         in (0, if qid < num_tx then unmask_queue P (ring_at (tx_rings a) (unat qid)) s else s))"

definition ena_intr_mask_all :: "'d platform \<Rightarrow> 'd sys \<Rightarrow> 'd sys" where
  "ena_intr_mask_all P s =
    (if irq_vectors (ad s) = [] then s
     else fold (\<lambda>i s. snd (ena_intr_mask_vector P (of_nat i) s)) [0..<unat (num_irq_vectors (ad s))] s)"

definition ena_intr_unmask_all :: "'d platform \<Rightarrow> 'd sys \<Rightarrow> 'd sys" where
  "ena_intr_unmask_all P s =
    (if irq_vectors (ad s) = [] then s
     else fold (\<lambda>i s. snd (ena_intr_unmask_vector P (of_nat i) s)) [0..<unat (num_irq_vectors (ad s))] s)"

definition ena_intr_set_coalesce :: "u32 \<Rightarrow> u32 \<Rightarrow> 'd sys \<Rightarrow> int \<times> 'd sys" where
  "ena_intr_set_coalesce v usecs s =
    (if vector_bad v s then (- EINVAL, s)
     else (0, vector_upd v (moderation_interval_usec_update (\<lambda>_. usecs)) s))"

subsection \<open>Set-up\<close>

record ena_msix_req =
  mr_nvec :: u32
  mr_lcpu :: "u32 list"

record 'd msix_plat =
  mp_probe :: "'d \<Rightarrow> int \<times> u32 \<times> 'd"
  mp_arm :: "(ena_msix_req \<Rightarrow> 'd \<Rightarrow> int \<times> 'd) option"
  mp_disarm :: "'d \<Rightarrow> 'd"
  mp_ncpus :: u32

text \<open>A vector fires: it counts, and a queue vector is unmasked again.\<close>

definition msix_on_fire :: "'d platform \<Rightarrow> u32 \<Rightarrow> 'd sys \<Rightarrow> 'd sys" where
  "msix_on_fire P v s =
    (if num_irq_vectors (ad s) \<le> v then s
     else
       let s = vector_upd v (intr_count_update (\<lambda>n. n + 1)) s
       in if \<not> is_admin (irq_vectors (ad s) ! unat v) then snd (ena_intr_unmask_vector P v s) else s)"

definition msix_lcpu :: "u32 \<Rightarrow> nat \<Rightarrow> u32" where
  "msix_lcpu ncpus i = (let n = (if ncpus < 1 then 1 else ncpus) in if i = 0 then 0 else of_nat (i - 1) mod n)"

definition msix_arm_device :: "'d msix_plat \<Rightarrow> (ena_msix_req \<Rightarrow> 'd \<Rightarrow> int \<times> 'd) \<Rightarrow> 'd sys \<Rightarrow> int \<times> 'd sys" where
  "msix_arm_device M arm s =
    (let nvec = num_irq_vectors (ad s) in
     if nvec = 0 then (- ENODEV, s)
     else case arm \<lparr> mr_nvec = nvec, mr_lcpu = map (msix_lcpu (mp_ncpus M)) [0..<unat nvec] \<rparr> (dev s) of
       (ret, d) \<Rightarrow> (ret, s\<lparr> dev := d \<rparr>))"

definition ena_intr_msix_fini :: "'d platform \<Rightarrow> 'd msix_plat \<Rightarrow> 'd sys \<Rightarrow> 'd sys" where
  "ena_intr_msix_fini P M s =
    (if irq_vectors (ad s) = [] then s
     else
       let s = s\<lparr> dev := mp_disarm M (dev s) \<rparr>; s = ena_intr_mask_all P s
       in ad_update (\<lambda>a. a\<lparr> irq_vectors := [], num_irq_vectors := 0 \<rparr>) s)"

definition ena_intr_setup :: "'d platform \<Rightarrow> 'd msix_plat \<Rightarrow> 'd sys \<Rightarrow> int \<times> 'd sys" where
  "ena_intr_setup P M s =
    (if irq_vectors (ad s) \<noteq> [] then (0, s)
     else case mp_probe M (dev s) of (ret, nvec, d) \<Rightarrow>
       let s = s\<lparr> dev := d \<rparr> in
       if ret \<noteq> 0 then (ret, s)
       else if nvec = 0 then (- ENOTSUP, s)
       else
         let nvec = (if ENA_MAX_MSIX_VECTORS < nvec then ENA_MAX_MSIX_VECTORS else nvec)
         in case ena_intr_msix_init P nvec s of (ret, s) \<Rightarrow>
           if ret \<noteq> 0 then (ret, s)
           else
             let s = snd (ena_intr_unmask_vector P 0 s)
             in case mp_arm M of
                  None \<Rightarrow> (0, s)
                | Some arm \<Rightarrow>
                  (case msix_arm_device M arm s of (ret, s) \<Rightarrow>
                     if ret \<noteq> 0 then (ret, ena_intr_msix_fini P M s) else (0, s)))"

subsection \<open>The polling sweep\<close>

record ena_poll_ctx =
  tx_budget :: u32
  rx_budget :: u32
  total_tx_cleaned :: u64
  total_rx_received :: u64
  rx_handler :: bool

definition rxq_null :: uk_netdev_rx_queue where
  "rxq_null = \<lparr> rq_queue_id = 0, rq_bounce_buf = False, rq_bounce_phys = 0, rq_nb_desc = 0,
     rq_free_head = 0, rq_free_tail = 0, rq_free_count = 0, rq_free_ids = [], rq_bounce_map = [],
     rq_pending_slot = - 1, rq_chain = [] \<rparr>"

definition rxq_at :: "nat \<Rightarrow> 'd sys \<Rightarrow> uk_netdev_rx_queue" where
  "rxq_at q s = (if q < length (rxqs s) then rxqs s ! q else rxq_null)"

text \<open>One transmit ring: the requests cleaned, the callback state, the system.\<close>

definition poll_tx_ring ::
  "tx_cq_write list \<Rightarrow> u32 \<Rightarrow> ('q \<Rightarrow> u16 \<Rightarrow> 'q) \<Rightarrow> u32 \<Rightarrow> nat \<Rightarrow> 'd sys \<Rightarrow> 'q \<Rightarrow> (u32 \<times> 'd sys \<times> 'q) option" where
  "poll_tx_ring devs cpu cb budget q s x =
    (case ring_of ENA_RING_TYPE_TX q s of
       None \<Rightarrow> Some (0, s, x)
     | Some r \<Rightarrow>
       (case ena_tx_poll_completions devs cpu cb budget r x of
          None \<Rightarrow> None
        | Some (rc, n, r', x', fs) \<Rightarrow>
          Some (case n of None \<Rightarrow> 0 | Some c \<Rightarrow> c,
            ring_upd ENA_RING_TYPE_TX q (\<lambda>_. r') (s\<lparr> freed := freed s @ fs \<rparr>), x')))"

fun poll_tx_loop ::
  "(nat \<Rightarrow> tx_cq_write list) \<Rightarrow> u32 \<Rightarrow> (nat \<Rightarrow> 'q \<Rightarrow> u16 \<Rightarrow> 'q) \<Rightarrow> u32 \<Rightarrow> nat list \<Rightarrow> u32 \<Rightarrow> u64 \<Rightarrow> 'd sys \<Rightarrow> 'q \<Rightarrow>
   (u32 \<times> u64 \<times> 'd sys \<times> 'q) option" where
  "poll_tx_loop devs cpu cb budget [] tot cleaned s x = Some (tot, cleaned, s, x)"
| "poll_tx_loop devs cpu cb budget (q # qs) tot cleaned s x =
    (case poll_tx_ring (devs q) cpu (cb q) budget q s x of
       None \<Rightarrow> None
     | Some (n, s, x) \<Rightarrow> poll_tx_loop devs cpu cb budget qs (tot + n) (cleaned + ucast n) s x)"

text \<open>One receive ring: the packets received, and the system.  They reach the handler if there is one.\<close>

definition poll_rx_ring ::
  "'d platform \<Rightarrow> rx_cq_write list \<Rightarrow> u32 \<Rightarrow> nat \<Rightarrow> 'd sys \<Rightarrow> (ena_rx_pkt list \<times> 'd sys) option" where
  "poll_rx_ring P devs budget q s =
    (case ring_of ENA_RING_TYPE_RX q s of
       None \<Rightarrow> Some ([], s)
     | Some r \<Rightarrow>
       (case ena_rx_poll devs (unat (if 32 < budget then 32 else budget)) r (rxq_at q s) of
          None \<Rightarrow> None
        | Some (rc, t, db) \<Rightarrow>
          Some (if 0 < rc then rs_pkts t else [],
            ring_upd ENA_RING_TYPE_RX q (\<lambda>_. rs_ring t)
              (s\<lparr> rxqs := (rxqs s)[q := rs_queue t], dev := apply_db P db (dev s), freed := freed s @ rs_freed t \<rparr>))))"

fun poll_rx_loop ::
  "'d platform \<Rightarrow> (nat \<Rightarrow> rx_cq_write list) \<Rightarrow> bool \<Rightarrow> u32 \<Rightarrow> nat list \<Rightarrow> u32 \<Rightarrow> u64 \<Rightarrow> (nat \<times> ena_rx_pkt) list \<Rightarrow> 'd sys \<Rightarrow>
   (u32 \<times> u64 \<times> (nat \<times> ena_rx_pkt) list \<times> 'd sys) option" where
  "poll_rx_loop P devs handler budget [] tot rcvd out s = Some (tot, rcvd, out, s)"
| "poll_rx_loop P devs handler budget (q # qs) tot rcvd out s =
    (case poll_rx_ring P (devs q) budget q s of
       None \<Rightarrow> None
     | Some (ps, s) \<Rightarrow>
       poll_rx_loop P devs handler budget qs (tot + of_nat (length ps)) (rcvd + of_nat (length ps))
         (if handler then out @ map (Pair q) ps else out) s)"

definition ena_poll_step ::
  "'d platform \<Rightarrow> (nat \<Rightarrow> tx_cq_write list) \<Rightarrow> (nat \<Rightarrow> rx_cq_write list) \<Rightarrow> u32 \<Rightarrow> (nat \<Rightarrow> 'q \<Rightarrow> u16 \<Rightarrow> 'q) \<Rightarrow>
   ena_poll_ctx \<Rightarrow> 'd sys \<Rightarrow> 'q \<Rightarrow>
   (int \<times> u32 \<times> (nat \<times> ena_rx_pkt) list \<times> ena_poll_ctx \<times> 'd sys \<times> 'q) option" where
  "ena_poll_step P txw rxw cpu cb ctx s x =
    (let ctx = (if tx_budget ctx = 0 then ctx\<lparr> tx_budget := 32 \<rparr> else ctx);
         ctx = (if rx_budget ctx = 0 then ctx\<lparr> rx_budget := 32 \<rparr> else ctx);
         num_tx = num_tx_rings (ad s); num_rx = num_rx_rings (ad s)
     in if num_tx = 0 \<and> num_rx = 0 then Some (0, 0, [], ctx, s, x)
        else case poll_tx_loop txw cpu cb (tx_budget ctx) [0..<unat num_tx] 0 (total_tx_cleaned ctx) s x of
          None \<Rightarrow> None
        | Some (tot, cleaned, s, x) \<Rightarrow>
          (case poll_rx_loop P rxw (rx_handler ctx) (rx_budget ctx) [0..<unat num_rx] tot (total_rx_received ctx) [] s of
             None \<Rightarrow> None
           | Some (tot, rcvd, out, s) \<Rightarrow>
             Some (sint tot, tot, out, ctx\<lparr> total_tx_cleaned := cleaned, total_rx_received := rcvd \<rparr>, s, x)))"

end
