(* ===== verification/Ena_Llq.thy ===== *)
theory Ena_Llq
  imports Ena_Recover
begin

text \<open>
  Low-latency queues (\<^verbatim>\<open>src/src/ena_llq.c\<close>): negotiating the entry layout, and pushing a
  descriptor with an inline header into the device memory behind BAR 2.

  A push returns its effects next to the ring: the 64-bit writes to BAR 2 (byte offset and
  eight bytes), the doorbell writes to BAR 0, and the header it copies into a packet buffer when
  it falls back to host memory.  The data pointer of a packet buffer belongs to the network
  stack; \<open>has_data\<close> says whether it is set.  The header is the memory behind the pointer the
  caller passes, \<open>None\<close> for a null pointer.
\<close>

subsection \<open>Negotiation\<close>

definition llq_desc_of_bytes :: "u8 list \<Rightarrow> ena_admin_feature_llq_desc" where
  "llq_desc_of_bytes bs = \<lparr> fl_max_llq_num = get32 bs 0, fl_max_llq_depth = get32 bs 4,
     header_location_ctrl_supported = get16 bs 8, entry_size_ctrl_supported = get16 bs 12 \<rparr>"

definition ena_llq_negotiate :: "'d exec_fn \<Rightarrow> 'd sys \<Rightarrow> int \<times> 'd sys" where
  "ena_llq_negotiate exec s =
    (let s = ad_update (llq_info_update (\<lambda>_. llq_info_zero)) s
     in if \<not> bar2_base (ad s) \<or> bar2_size (ad s) = 0 then (0, s)
        else case exec ENA_ADMIN_GET_FEATURE (get_feat_inline ENA_ADMIN_LLQ) 32 100 s of
          (ret, resp, _, s) \<Rightarrow>
          if ret \<noteq> 0 then (0, s)
          else
            let desc = llq_desc_of_bytes (resp @ replicate (32 - length resp) 0)
            in case ena_llq_select_params desc of
                 (_, None) \<Rightarrow> (0, s)
               | (_, Some (entry_size, header_len)) \<Rightarrow>
                 (0, ad_update (llq_info_update (\<lambda>_. \<lparr> llq_supported = True, llq_enabled = True,
                    max_llq_num = fl_max_llq_num desc, max_llq_depth = fl_max_llq_depth desc,
                    llq_info_header_len = header_len, llq_info_entry_size = entry_size \<rparr>)) s))"

subsection \<open>Pushing a packet\<close>

definition llq_entry_size_of :: "ena_ring \<Rightarrow> u32" where
  "llq_entry_size_of r = (if llq_entry_size r \<noteq> 0 then llq_entry_size r else 128)"

definition llq_header_cap :: "ena_ring \<Rightarrow> u32" where
  "llq_header_cap r = llq_entry_size_of r - 2 * 16"

text \<open>The push area is missing or too small for the whole ring.\<close>

definition llq_unusable :: "ena_ring \<Rightarrow> bool" where
  "llq_unusable r \<longleftrightarrow> \<not> is_llq r \<or> push_buf_virt r = None \<or>
     (0 < push_buf_size r \<and> unat (push_buf_size r) < unat (sq_depth r) * unat (llq_entry_size_of r))"

text \<open>The descriptor: as for host memory, without segmentation, with the header length.\<close>

definition llq_desc :: "u16 \<Rightarrow> u8 \<Rightarrow> ena_tx_pkt \<Rightarrow> u16 \<Rightarrow> ena_eth_io_tx_desc" where
  "llq_desc req_id ph pkt hdr_len =
    \<lparr> len_ctrl = tx_len_ctrl (tp_len pkt) req_id ph,
      meta_ctrl = tx_meta_ctrl req_id (pkt\<lparr> tp_tso_en := False \<rparr>),
      txd_buff_addr_lo = ucast (tp_phys_addr pkt),
      buff_addr_hi_hdr_sz = ucast (drop_bit 32 (tp_phys_addr pkt) AND 0xFFFF) OR push_bit 24 (ucast hdr_len) \<rparr>"

text \<open>The entry is built in a buffer of 256 bytes; a header that does not fit runs past its end.\<close>

definition llq_entry :: "ena_eth_io_tx_desc \<Rightarrow> u8 list option \<Rightarrow> u16 \<Rightarrow> u8 list" where
  "llq_entry d hdr hdr_len =
    (let buf = mem_write 0 (tx_desc_bytes d) (replicate 256 0)
     in case hdr of None \<Rightarrow> buf
        | Some h \<Rightarrow> if 0 < hdr_len then mem_write 16 (take (unat hdr_len) h) buf else buf)"

definition llq_copy :: "nat \<Rightarrow> u32 \<Rightarrow> u8 list \<Rightarrow> (nat \<times> u8 list) list" where
  "llq_copy dest entry_size buf =
    map (\<lambda>i. (dest + 8 * i, take 8 (drop (8 * i) buf))) [0..<unat entry_size div 8]"

record llq_effects =
  le_push :: "(nat \<times> u8 list) list"
  le_doorbell :: "(u32 \<times> u32) list"
  le_netbuf :: "(netbuf \<times> u8 list) list"

definition llq_no_effects :: llq_effects where
  "llq_no_effects = \<lparr> le_push = [], le_doorbell = [], le_netbuf = [] \<rparr>"

definition llq_fallback ::
  "u32 \<Rightarrow> (netbuf \<Rightarrow> bool) \<Rightarrow> ena_ring \<Rightarrow> ena_tx_pkt \<Rightarrow> u8 list option \<Rightarrow> u16 \<Rightarrow>
   int \<times> u16 option \<times> ena_ring \<times> llq_effects" where
  "llq_fallback cpu has_data r pkt hdr hdr_len =
    (let copied = (case (hdr, tp_netbuf pkt) of
           (Some h, Some nb) \<Rightarrow> if 0 < hdr_len \<and> has_data nb then [(nb, take (unat hdr_len) h)] else []
         | _ \<Rightarrow> [])
     in case ena_tx_submit cpu r pkt of (ret, o_id, r) \<Rightarrow>
       (ret, o_id, r, llq_no_effects\<lparr> le_netbuf := copied, le_doorbell := if ret = 0 then ena_tx_doorbell r else [] \<rparr>))"

definition ena_llq_tx_push ::
  "u32 \<Rightarrow> (netbuf \<Rightarrow> bool) \<Rightarrow> ena_ring \<Rightarrow> ena_tx_pkt \<Rightarrow> u8 list option \<Rightarrow> u16 \<Rightarrow>
   int \<times> u16 option \<times> ena_ring \<times> llq_effects" where
  "ena_llq_tx_push cpu has_data r pkt hdr hdr_len =
    (if ring_type r \<noteq> ENA_RING_TYPE_TX then (- EINVAL, None, r, llq_no_effects)
     else if llq_header_cap r < ucast hdr_len then (- EINVAL, None, r, llq_no_effects)
     else if llq_unusable r then llq_fallback cpu has_data r pkt hdr hdr_len
     else if free_req_count r = 0 then (- EBUSY, None, r, llq_no_effects)
     else
       let slot_idx = unat (sq_tail r AND (sq_depth r - 1)); entry_size = llq_entry_size_of r
       in if 0 < push_buf_size r \<and> unat (push_buf_size r) < (slot_idx + 1) * unat entry_size
          then (- EINVAL, None, r, llq_no_effects)
          else case ena_ring_req_id_alloc r of (ret, req_id, r) \<Rightarrow>
            if ret \<noteq> 0 then (ret, None, r, llq_no_effects)
            else
              let r = (if req_in_flight r \<noteq> []
                       then r\<lparr> req_in_flight := (req_in_flight r)[unat req_id := 1] \<rparr> else r);
                  r = r\<lparr> tx_bufs := (tx_bufs r)[unat req_id := tx_buffer_of_pkt req_id pkt] \<rparr>;
                  buf = llq_entry (llq_desc req_id (sq_phase r) pkt hdr_len) hdr hdr_len;
                  dest = unat (the (push_buf_virt r)) + slot_idx * unat entry_size;
                  r = sq_advance r;
                  r = r\<lparr> tx_packets := tx_packets r + 1, tx_bytes := tx_bytes r + ucast (tp_len pkt) \<rparr>
              in (0, Some req_id, r, llq_no_effects\<lparr> le_push := llq_copy dest entry_size buf,
                    le_doorbell := ena_tx_doorbell r \<rparr>))"

end
