(* ===== verification/Ena_Bounce.thy ===== *)
theory Ena_Bounce
  imports Ena_Intr Ena_Llq
begin

text \<open>
  Packet buffers, the bounce pools of the queues, and the packet handlers of
  \<^verbatim>\<open>src/src/ena_netdev.c\<close> in the Unikraft build.

  A packet buffer belongs to the network stack.  Its header is a record in a store; the bytes
  behind its data pointer are \<open>nb_payload\<close>, and the three flags the driver reads or sets are
  booleans.  The bytes the device left in the bounce memory of a queue, the translation of
  addresses and the application's allocator are arguments.  Copies into the bounce memory are
  returned as pairs of a byte offset and the bytes.

  A handler that polls completion queues takes the writes of the device during each poll; it
  has no result when they run out, or when the event queue is gone under it.
\<close>

definition ENA_RX_BUF_SIZE :: u32 where [ena_consts]: "ENA_RX_BUF_SIZE = 2048"
definition ENA_TX_BOUNCE_SIZE :: u64 where [ena_consts]: "ENA_TX_BOUNCE_SIZE = 4096"
definition ENA_TX_BOUNCE_STALL_LIMIT :: u32 where [ena_consts]: "ENA_TX_BOUNCE_STALL_LIMIT = 256"
definition ENA_DMA_LOW_MEM_LIMIT :: u64 where [ena_consts]: "ENA_DMA_LOW_MEM_LIMIT = 0x100000"
definition ENA_NETDEV_MAX_QUEUES :: u16 where [ena_consts]: "ENA_NETDEV_MAX_QUEUES = 8"
definition ENA_MIN_RING_DESC :: u16 where [ena_consts]: "ENA_MIN_RING_DESC = 4"
definition ENA_DEFAULT_RING_DESC :: u16 where [ena_consts]: "ENA_DEFAULT_RING_DESC = 256"
definition ENA_MAX_RING_DESC :: u16 where [ena_consts]: "ENA_MAX_RING_DESC = 4096"
definition ENA_NETDEV_AENQ_POLL_BUDGET :: nat where [ena_consts]: "ENA_NETDEV_AENQ_POLL_BUDGET = 8"
definition ENA_NETDEV_TX_POLL_BUDGET :: u32 where [ena_consts]: "ENA_NETDEV_TX_POLL_BUDGET = 32"
definition UK_NETDEV_STATUS_SUCCESS :: int where [ena_consts]: "UK_NETDEV_STATUS_SUCCESS = 1"
definition UK_NETDEV_STATUS_MORE :: int where [ena_consts]: "UK_NETDEV_STATUS_MORE = 2"
definition ENA_ETH_IO_L3_PROTO_UNKNOWN :: u8 where [ena_consts]: "ENA_ETH_IO_L3_PROTO_UNKNOWN = 0"
definition ENA_ETH_IO_L3_PROTO_IPV4 :: u8 where [ena_consts]: "ENA_ETH_IO_L3_PROTO_IPV4 = 8"
definition ENA_ETH_IO_L3_PROTO_IPV6 :: u8 where [ena_consts]: "ENA_ETH_IO_L3_PROTO_IPV6 = 11"
definition ENA_ETH_IO_L4_PROTO_UNKNOWN :: u8 where [ena_consts]: "ENA_ETH_IO_L4_PROTO_UNKNOWN = 0"
definition ENA_ETH_IO_L4_PROTO_TCP :: u8 where [ena_consts]: "ENA_ETH_IO_L4_PROTO_TCP = 12"
definition ENA_ETH_IO_L4_PROTO_UDP :: u8 where [ena_consts]: "ENA_ETH_IO_L4_PROTO_UDP = 13"

record uk_netbuf =
  nb_data :: "u64 option"
  nb_payload :: "u8 list"
  nb_len :: u64
  nb_buflen :: u64
  nb_data_valid :: bool
  nb_partial_csum :: bool
  nb_gso_tcpv4 :: bool

subsection \<open>Descriptor counts\<close>

definition builtin_clz :: "u32 \<Rightarrow> nat" where
  "builtin_clz v = length (takeWhile (\<lambda>i. \<not> bit v i) (rev [0..<32]))"

definition ena_netdev_round_down_pow2 :: "u32 \<Rightarrow> u32" where
  "ena_netdev_round_down_pow2 v = (if v = 0 then 0 else push_bit (31 - builtin_clz v) 1)"

definition ena_netdev_clamp_desc_count :: "u16 \<Rightarrow> u16 \<Rightarrow> u16" where
  "ena_netdev_clamp_desc_count nb_desc max_ring_size =
    (let n = (if nb_desc = 0 then if max_ring_size \<noteq> 0 then max_ring_size else ENA_DEFAULT_RING_DESC else nb_desc);
         n = (if max_ring_size \<noteq> 0 \<and> max_ring_size < n then max_ring_size else n);
         n = (if ENA_MAX_RING_DESC < n then ENA_MAX_RING_DESC else n);
         n = (if n < ENA_MIN_RING_DESC then ENA_MIN_RING_DESC else n)
     in ucast (ena_netdev_round_down_pow2 (ucast n)))"

subsection \<open>Classifying a packet\<close>

definition tx_pkt_zero :: ena_tx_pkt where
  "tx_pkt_zero = \<lparr> tp_netbuf = None, tp_phys_addr = 0, tp_len = 0, tp_l3_proto = 0, tp_l4_proto = 0,
     tp_l3_csum_en = False, tp_l4_csum_en = False, tp_df = False, tp_tso_en = False \<rparr>"

definition l4_proto_of :: "u8 \<Rightarrow> u8" where
  "l4_proto_of proto = (if proto = 6 then ENA_ETH_IO_L4_PROTO_TCP
     else if proto = 17 then ENA_ETH_IO_L4_PROTO_UDP else ENA_ETH_IO_L4_PROTO_UNKNOWN)"

definition ethertype_at :: "u8 list \<Rightarrow> nat \<Rightarrow> u16" where
  "ethertype_at bs i = push_bit 8 (ucast (bs ! i)) OR ucast (bs ! (i + 1))"

definition ena_netdev_classify_tx_pkt :: "uk_netbuf \<Rightarrow> ena_tx_pkt \<Rightarrow> ena_tx_pkt" where
  "ena_netdev_classify_tx_pkt nb pkt =
    (let pkt = pkt\<lparr> tp_l3_proto := ENA_ETH_IO_L3_PROTO_UNKNOWN, tp_l4_proto := ENA_ETH_IO_L4_PROTO_UNKNOWN,
                    tp_l3_csum_en := False, tp_l4_csum_en := False \<rparr>
     in if nb_data nb = None \<or> nb_len nb < 14 then pkt
        else
          let bs = nb_payload nb; len = unat (nb_len nb);
              vlan = ethertype_at bs 12 = 0x8100 \<and> 18 \<le> len;
              ethertype = (if vlan then ethertype_at bs 16 else ethertype_at bs 12);
              l3_off = (if vlan then 18 else 14);
              pkt = (if ethertype = 0x0800 then
                       pkt\<lparr> tp_l3_proto := ENA_ETH_IO_L3_PROTO_IPV4,
                            tp_l4_proto := if l3_off + 20 \<le> len then l4_proto_of (bs ! (l3_off + 9)) else tp_l4_proto pkt \<rparr>
                     else if ethertype = 0x86DD then
                       pkt\<lparr> tp_l3_proto := ENA_ETH_IO_L3_PROTO_IPV6,
                            tp_l4_proto := if l3_off + 40 \<le> len then l4_proto_of (bs ! (l3_off + 6)) else tp_l4_proto pkt \<rparr>
                     else pkt);
              pkt = (if nb_partial_csum nb then
                       pkt\<lparr> tp_l3_csum_en := tp_l3_proto pkt = ENA_ETH_IO_L3_PROTO_IPV4,
                            tp_l4_csum_en := tp_l4_proto pkt = ENA_ETH_IO_L4_PROTO_TCP \<or>
                              tp_l4_proto pkt = ENA_ETH_IO_L4_PROTO_UDP \<rparr>
                     else pkt)
          in if nb_gso_tcpv4 nb then pkt\<lparr> tp_tso_en := True \<rparr> else pkt)"

subsection \<open>Bounce pools\<close>

record uk_netdev_tx_queue =
  tq_queue_id :: u16
  tq_bounce_buf :: bool
  tq_bounce_phys :: u64
  tq_in_use :: bool
  tq_req_id :: u16
  tq_wait_polls :: u32
  tq_nb_desc :: u16
  tq_free_head :: u16
  tq_free_tail :: u16
  tq_free_count :: u16
  tq_free_ids :: "u16 list"
  tq_bounce_map :: "int list"

definition tq_pop :: "uk_netdev_tx_queue \<Rightarrow> uk_netdev_tx_queue" where
  "tq_pop q = q\<lparr> tq_free_head := (tq_free_head q + 1) AND (tq_nb_desc q - 1),
     tq_free_count := tq_free_count q - 1 \<rparr>"

definition tq_push :: "uk_netdev_tx_queue \<Rightarrow> u16 \<Rightarrow> uk_netdev_tx_queue" where
  "tq_push q slot = q\<lparr> tq_free_ids := (tq_free_ids q)[unat (tq_free_tail q) := slot],
     tq_free_tail := (tq_free_tail q + 1) AND (tq_nb_desc q - 1), tq_free_count := tq_free_count q + 1 \<rparr>"

interpretation tqp: fifo_pool tq_nb_desc tq_free_ids tq_free_head tq_free_tail tq_free_count tq_pop tq_push
  by unfold_locales (simp_all add: tq_pop_def tq_push_def)

definition tq_mark :: "uk_netdev_tx_queue \<Rightarrow> uk_netdev_tx_queue" where
  "tq_mark q = q\<lparr> tq_in_use := tq_free_count q < tq_nb_desc q \<rparr>"

text \<open>The completion callback of a transmit ring.\<close>

definition ena_netdev_txq_reclaim_slot :: "uk_netdev_tx_queue \<Rightarrow> u16 \<Rightarrow> uk_netdev_tx_queue" where
  "ena_netdev_txq_reclaim_slot q req_id =
    (if tq_bounce_map q = [] \<or> tq_nb_desc q \<le> req_id then q
     else if tq_bounce_map q ! unat req_id < 0 then q
     else
       let slot = tq_bounce_map q ! unat req_id;
           q = q\<lparr> tq_bounce_map := (tq_bounce_map q)[unat req_id := - 1] \<rparr>;
           q = (if tq_free_ids q \<noteq> [] \<and> 0 < tq_nb_desc q then tq_push q (word_of_int slot) else q)
       in tq_mark (q\<lparr> tq_wait_polls := 0 \<rparr>))"

definition ena_netdev_free_rxq_bounce :: "'d platform \<Rightarrow> uk_netdev_rx_queue \<Rightarrow> 'd sys \<Rightarrow> uk_netdev_rx_queue \<times> 'd sys" where
  "ena_netdev_free_rxq_bounce P q s =
    (q\<lparr> rq_bounce_buf := False, rq_bounce_phys := if rq_bounce_buf q then 0 else rq_bounce_phys q,
        rq_free_ids := [], rq_bounce_map := [], rq_free_head := 0, rq_free_tail := 0, rq_free_count := 0,
        rq_pending_slot := - 1, rq_nb_desc := 0, rq_chain := [] \<rparr>,
     if rq_bounce_buf q then dma_free P (rq_bounce_phys q) s else s)"

definition ena_netdev_free_txq_bounce :: "'d platform \<Rightarrow> uk_netdev_tx_queue \<Rightarrow> 'd sys \<Rightarrow> uk_netdev_tx_queue \<times> 'd sys" where
  "ena_netdev_free_txq_bounce P q s =
    (q\<lparr> tq_bounce_buf := False, tq_bounce_phys := if tq_bounce_buf q then 0 else tq_bounce_phys q,
        tq_free_ids := [], tq_bounce_map := [], tq_in_use := False, tq_req_id := 0, tq_wait_polls := 0,
        tq_free_head := 0, tq_free_tail := 0, tq_free_count := 0, tq_nb_desc := 0 \<rparr>,
     if tq_bounce_buf q then dma_free P (tq_bounce_phys q) s else s)"

text \<open>Releasing the fragments of a partial frame, and forgetting them.\<close>

definition ena_netdev_rxq_drop_chain :: "uk_netdev_rx_queue \<Rightarrow> netbuf list \<times> uk_netdev_rx_queue" where
  "ena_netdev_rxq_drop_chain q = (rq_chain q, q\<lparr> rq_chain := [] \<rparr>)"

definition ena_netdev_clear_rx_chains :: "uk_netdev_rx_queue list \<Rightarrow> u16 \<Rightarrow> uk_netdev_rx_queue list" where
  "ena_netdev_clear_rx_chains qs nq =
    (let n = min (unat nq) (unat ENA_NETDEV_MAX_QUEUES)
     in map (rq_chain_update (\<lambda>_. [])) (take n qs) @ drop n qs)"

text \<open>
  The allocator of a receive queue: a buffer of the application, in low memory behind a bounce
  slot.  Without a free slot the buffer is released.
\<close>

definition ena_netbuf_phys_addr :: "(u64 \<Rightarrow> u64) \<Rightarrow> uk_netbuf \<Rightarrow> u64" where
  "ena_netbuf_phys_addr virt_to_phys nb = virt_to_phys (case nb_data nb of None \<Rightarrow> 0 | Some a \<Rightarrow> a)"

definition ena_netbuf_alloc_helper ::
  "('d \<Rightarrow> (netbuf \<times> uk_netbuf) option \<times> 'd) \<Rightarrow> (u64 \<Rightarrow> u64) \<Rightarrow> 'd rx_alloc" where
  "ena_netbuf_alloc_helper alloc_rxpkts virt_to_phys d q =
    (case alloc_rxpkts d of
       (None, d) \<Rightarrow> (None, q, d, [])
     | (Some (nb, info), d) \<Rightarrow>
       let phys = ena_netbuf_phys_addr virt_to_phys info
       in if phys < ENA_DMA_LOW_MEM_LIMIT \<and> rq_bounce_buf q then
            (if rq_free_count q = 0 then (None, q, d, [nb])
             else
               let slot = rq_free_ids q ! unat (rq_free_head q);
                   q = (rq_pop q)\<lparr> rq_pending_slot := sint slot \<rparr>
               in (Some (nb, rq_bounce_phys q + ucast slot * ucast ENA_RX_BUF_SIZE,
                     if nb_buflen info < ucast ENA_RX_BUF_SIZE then ucast (nb_buflen info) else ENA_RX_BUF_SIZE), q, d, []))
          else (Some (nb, phys, ucast (nb_buflen info)), q, d, []))"

subsection \<open>Transmitting a packet\<close>

definition ena_netdev_tx_xmit_one ::
  "u32 \<Rightarrow> (netbuf \<Rightarrow> bool) \<Rightarrow> ena_ring \<Rightarrow> ena_tx_pkt \<Rightarrow> u8 list option \<Rightarrow> int \<times> u16 option \<times> ena_ring \<times> llq_effects" where
  "ena_netdev_tx_xmit_one cpu has_data r pkt hdr =
    (if is_llq r then
       let max_hdr = (if llq_header_len r \<noteq> 0 then llq_header_len r else 96);
           hdr_len = ucast (if tp_len pkt < max_hdr then tp_len pkt else max_hdr)
       in ena_llq_tx_push cpu has_data r pkt hdr hdr_len
     else case ena_tx_submit cpu r pkt of (ret, o_id, r) \<Rightarrow>
       (ret, o_id, r, llq_no_effects\<lparr> le_doorbell := if ret = 0 then ena_tx_doorbell r else [] \<rparr>))"

definition tx_stall_check :: "uk_netdev_tx_queue \<Rightarrow> uk_netdev_tx_queue" where
  "tx_stall_check q =
    (if tq_free_count q = 0 \<and> 0 < tq_nb_desc q \<and> tq_wait_polls q < ENA_TX_BOUNCE_STALL_LIMIT
     then q\<lparr> tq_wait_polls := tq_wait_polls q + 1 \<rparr> else q)"

text \<open>
  One packet on one ring and its queue: the result, the ring, the queue, the copies into the
  bounce memory and the effects of the submission.
\<close>

definition tx_one_submit ::
  "u32 \<Rightarrow> (netbuf \<Rightarrow> uk_netbuf) \<Rightarrow> (u64 \<Rightarrow> u64) \<Rightarrow> ena_ring \<Rightarrow> uk_netdev_tx_queue \<Rightarrow> netbuf \<Rightarrow>
   int \<times> ena_ring \<times> uk_netdev_tx_queue \<times> (nat \<times> u8 list) list \<times> llq_effects" where
  "tx_one_submit cpu nbs virt_to_phys r q nb =
    (let q = tx_stall_check q; info = nbs nb; phys = ena_netbuf_phys_addr virt_to_phys info;
         bytes = take (unat (nb_len info)) (nb_payload info);
         has_data = (\<lambda>nb. nb_data (nbs nb) \<noteq> None);
         low = phys < ENA_DMA_LOW_MEM_LIMIT
     in if low \<and> tq_free_count q = 0 then (- EBUSY, r\<lparr> tx_dropped := tx_dropped r + 1 \<rparr>, q, [], llq_no_effects)
        else if low \<and> ENA_TX_BOUNCE_SIZE < nb_len info
        then (- EINVAL, r\<lparr> tx_dropped := tx_dropped r + 1 \<rparr>, q, [], llq_no_effects)
        else
          let slot = tq_free_ids q ! unat (tq_free_head q);
              q = (if low then tq_mark (tq_pop q) else q);
              phys = (if low then tq_bounce_phys q + ucast slot * ENA_TX_BOUNCE_SIZE else phys);
              copies = (if low then [(unat slot * unat ENA_TX_BOUNCE_SIZE, bytes)] else []);
              pkt = ena_netdev_classify_tx_pkt info
                (tx_pkt_zero\<lparr> tp_netbuf := Some nb, tp_len := ucast (nb_len info), tp_phys_addr := phys \<rparr>);
              hdr = (if low then Some bytes else map_option (\<lambda>_. bytes) (nb_data info))
          in case ena_netdev_tx_xmit_one cpu has_data r pkt hdr of (ret, o_id, r, eff) \<Rightarrow>
            if ret = 0 then
              (UK_NETDEV_STATUS_SUCCESS, r,
               if low then tq_mark (q\<lparr> tq_bounce_map := (tq_bounce_map q)[unat (the o_id) := sint slot],
                      tq_req_id := the o_id, tq_wait_polls := 0 \<rparr>) else q, copies, eff)
            else
              (ret, r\<lparr> tx_dropped := tx_dropped r + 1 \<rparr>, if low then tq_mark (tq_push q slot) else q, copies, eff))"

subsection \<open>Receiving a packet\<close>

definition ena_netdev_rx_status :: "ena_ring \<Rightarrow> int" where
  "ena_netdev_rx_status r =
    (if rx_cq r \<noteq> [] \<and> rx_cdesc_phase (rx_cq r ! unat (cq_head r AND (cq_depth r - 1))) = cq_phase r
     then UK_NETDEV_STATUS_SUCCESS + UK_NETDEV_STATUS_MORE else UK_NETDEV_STATUS_SUCCESS)"

definition rx_slot_of :: "uk_netdev_rx_queue \<Rightarrow> u16 \<Rightarrow> int" where
  "rx_slot_of q req_id = (if rq_bounce_map q \<noteq> [] \<and> req_id < rq_nb_desc q then rq_bounce_map q ! unat req_id else - 1)"

text \<open>
  The payload of a received packet: out of its bounce slot, or the data pointer moved to the
  packet.  The result says whether the packet is dropped; \<open>bounce\<close> is the bounce memory.
\<close>

definition rx_payload ::
  "(nat \<Rightarrow> nat \<Rightarrow> u8 list) \<Rightarrow> ena_rx_pkt \<Rightarrow> uk_netbuf \<Rightarrow> uk_netdev_rx_queue \<Rightarrow> bool \<times> uk_netbuf \<times> uk_netdev_rx_queue" where
  "rx_payload bounce p info q =
    (let slot = rx_slot_of q (pk_req_id p);
         info = info\<lparr> nb_len := ucast (pk_len p),
           nb_data_valid := nb_data_valid info \<or> (\<not> pk_l3_csum_err p \<and> \<not> pk_l4_csum_err p \<and> pk_l4_csum_checked p) \<rparr>
     in if 0 \<le> slot then
          let q = q\<lparr> rq_bounce_map := (rq_bounce_map q)[unat (pk_req_id p) := - 1] \<rparr>;
              copyable = rq_bounce_buf q \<and> (word_of_int slot :: u16) < rq_nb_desc q \<and> nb_data info \<noteq> None;
              fits = ucast (pk_len p) \<le> nb_buflen info \<and> ucast (pk_offset p) + pk_len p \<le> ENA_RX_BUF_SIZE;
              n = unat (pk_len p);
              info = (if copyable \<and> fits
                then info\<lparr> nb_payload := bounce (nat slot * unat ENA_RX_BUF_SIZE + unat (pk_offset p)) n @ drop n (nb_payload info) \<rparr>
                else info);
              q = (if rq_free_ids q \<noteq> [] \<and> 0 < rq_nb_desc q then rq_push q (word_of_int slot) else q)
          in (copyable \<and> \<not> fits, info, q)
        else if pk_offset p \<noteq> 0 then
          (case nb_data info of
             None \<Rightarrow> (False, info, q)
           | Some a \<Rightarrow>
             if ucast (ucast (pk_offset p) + pk_len p :: u32) \<le> nb_buflen info
             then (False, info\<lparr> nb_data := Some (a + ucast (pk_offset p)),
                     nb_payload := drop (unat (pk_offset p)) (nb_payload info) \<rparr>, q)
             else (True, info, q))
        else (False, info, q))"

text \<open>What a receive handler works on: ring, queue, buffer headers, allocator, effects.\<close>

record 'd rx_ctx =
  rc_ring :: ena_ring
  rc_queue :: uk_netdev_rx_queue
  rc_nbs :: "netbuf \<Rightarrow> uk_netbuf"
  rc_dev :: 'd
  rc_freed :: "netbuf list"
  rc_db :: "(u32 \<times> u32) list"

definition ena_netdev_rx_refill_helper :: "'d rx_alloc \<Rightarrow> 'd rx_ctx \<Rightarrow> 'd rx_ctx" where
  "ena_netdev_rx_refill_helper alloc c =
    (let r = rc_ring c;
         to_refill = (if sq_depth r \<le> free_req_count r then ucast (sq_depth r) - 1 else ucast (free_req_count r))
     in case ena_rx_refill alloc to_refill r (rc_queue c) (rc_dev c) of (rc, r, q, d, fs, db) \<Rightarrow>
       let r = (if rc < 0 \<or> (1 < free_req_count r \<and> rc = 0) then r\<lparr> rx_refill_err := rx_refill_err r + 1 \<rparr> else r)
       in c\<lparr> rc_ring := r, rc_queue := q, rc_dev := d, rc_freed := rc_freed c @ fs, rc_db := rc_db c @ db \<rparr>)"

definition rx_drop_chain :: "'d rx_ctx \<Rightarrow> 'd rx_ctx" where
  "rx_drop_chain c =
    (case ena_netdev_rxq_drop_chain (rc_queue c) of (fs, q) \<Rightarrow> c\<lparr> rc_queue := q, rc_freed := rc_freed c @ fs \<rparr>)"

text \<open>
  The receive loop: one element of the first argument per completion poll.  The result is the
  status and the frame, the list of its fragments.
\<close>

fun rx_one_loop ::
  "'d rx_alloc \<Rightarrow> (nat \<Rightarrow> nat \<Rightarrow> u8 list) \<Rightarrow> rx_cq_write list list \<Rightarrow> 'd rx_ctx \<Rightarrow>
   (int \<times> netbuf list \<times> 'd rx_ctx) option" where
  "rx_one_loop alloc bounce [] c = None"
| "rx_one_loop alloc bounce (devs # rest) c =
    (case ena_rx_poll devs 1 (rc_ring c) (rc_queue c) of
       None \<Rightarrow> None
     | Some (ret, t, db) \<Rightarrow>
       let c = c\<lparr> rc_ring := rs_ring t, rc_queue := rs_queue t, rc_freed := rc_freed c @ rs_freed t, rc_db := rc_db c @ db \<rparr>;
           c = (if 0 < rs_dropped t then rx_drop_chain c else c)
       in if ret \<le> 0 then Some (0, [], ena_netdev_rx_refill_helper alloc c)
          else
            let p = rs_pkts t ! 0
            in case pk_netbuf p of
                 None \<Rightarrow> Some (0, [], ena_netdev_rx_refill_helper alloc c)
               | Some nb \<Rightarrow>
                 (case rx_payload bounce p (rc_nbs c nb) (rc_queue c) of (dropped, info, q) \<Rightarrow>
                    let c = c\<lparr> rc_queue := q, rc_nbs := (rc_nbs c)(nb := info) \<rparr>
                    in if dropped then
                         let c = c\<lparr> rc_ring := (rc_ring c)\<lparr> rx_dropped := rx_dropped (rc_ring c) + 1 \<rparr>,
                                    rc_freed := rc_freed c @ [nb] \<rparr>
                         in Some (0, [], ena_netdev_rx_refill_helper alloc (rx_drop_chain c))
                       else
                         let c = ena_netdev_rx_refill_helper alloc c; q = rc_queue c
                         in if rq_chain q = [] then
                              if pk_first p \<and> \<not> pk_last p
                              then rx_one_loop alloc bounce rest (c\<lparr> rc_queue := q\<lparr> rq_chain := [nb] \<rparr> \<rparr>)
                              else Some (ena_netdev_rx_status (rc_ring c), [nb], c)
                            else if pk_last p
                            then Some (ena_netdev_rx_status (rc_ring c), rq_chain q @ [nb], c\<lparr> rc_queue := q\<lparr> rq_chain := [] \<rparr> \<rparr>)
                            else rx_one_loop alloc bounce rest (c\<lparr> rc_queue := q\<lparr> rq_chain := rq_chain q @ [nb] \<rparr> \<rparr>)))"

end
