(* ===== verification/Ena_Netdev.thy ===== *)
theory Ena_Netdev
  imports Ena_Bounce
begin

text \<open>
  The network device of \<^verbatim>\<open>src/src/ena_netdev.c\<close> in the Unikraft build: configuring the device
  and its queues, starting and stopping, the receive and transmit operations on a device, its
  release, and the accessors.

  The state of the network stack's device object is an argument where the driver reads it.
  A ring is named by its direction and index, and a queue works on the ring of its index: the
  second pointer that the code keeps in the queue is not modelled.  A missing ring array is the
  empty list.  The memory of a ring comes from an argument and its release is the subject of
  \<^verbatim>\<open>Ena_Ring\<close>; here a released ring is gone from its array.  The allocator of receive buffers is
  part of the platform.  The build has receive-side scaling (\<^verbatim>\<open>CONFIG_LIBENA_RSS\<close>).
\<close>

record 'd netdev =
  nd_sys :: "'d sys"
  nd_txqs :: "uk_netdev_tx_queue list"
  nd_nbs :: "netbuf \<Rightarrow> uk_netbuf"

abbreviation nd_sys_map :: "('d sys \<Rightarrow> 'd sys) \<Rightarrow> 'd netdev \<Rightarrow> 'd netdev" where
  "nd_sys_map f \<equiv> nd_sys_update f"

abbreviation nd_ad :: "'d netdev \<Rightarrow> ena_adapter" where
  "nd_ad n \<equiv> ad (nd_sys n)"

datatype uk_netdev_state = UK_NETDEV_UNCONFIGURED | UK_NETDEV_CONFIGURED | UK_NETDEV_RUNNING | UK_NETDEV_STOPPED

subsection \<open>Configuration\<close>

definition ena_netdev_alloc_ring_arrays :: "'d platform \<Rightarrow> u16 \<Rightarrow> u16 \<Rightarrow> 'd sys \<Rightarrow> int \<times> 'd sys" where
  "ena_netdev_alloc_ring_arrays P nb_rx nb_tx s =
    (let (ok, s) = (if rx_rings (ad s) \<noteq> [] then (True, s)
           else case p_calloc P (unat nb_rx * 8) (dev s) of (ok, d) \<Rightarrow>
             (ok, ad_update (rx_rings_update (\<lambda>_. if ok then replicate (unat nb_rx) None else [])) (s\<lparr> dev := d \<rparr>)))
     in if \<not> ok then (- ENOMEM, s)
        else
          let s = ad_update (num_rx_rings_update (\<lambda>_. nb_rx)) s;
              (ok, s) = (if tx_rings (ad s) \<noteq> [] then (True, s)
                else case p_calloc P (unat nb_tx * 8) (dev s) of (ok, d) \<Rightarrow>
                  (ok, ad_update (tx_rings_update (\<lambda>_. if ok then replicate (unat nb_tx) None else [])) (s\<lparr> dev := d \<rparr>)))
          in if \<not> ok then (- ENOMEM, s)
             else (0, ad_update (num_tx_rings_update (\<lambda>_. nb_tx)) s))"

definition queue_count_bad :: "u16 \<Rightarrow> u16 \<Rightarrow> bool" where
  "queue_count_bad n mx \<longleftrightarrow> n = 0 \<or> (mx \<noteq> 0 \<and> mx < n) \<or> ENA_NETDEV_MAX_QUEUES < n"

definition ena_netdev_configure :: "'d platform \<Rightarrow> uk_netdev_state \<Rightarrow> u16 \<Rightarrow> u16 \<Rightarrow> 'd sys \<Rightarrow> int \<times> 'd sys" where
  "ena_netdev_configure P st nb_rx nb_tx s =
    (if st = UK_NETDEV_RUNNING then (- EBUSY, s)
     else if queue_count_bad nb_rx (max_rx_queues (ad s)) then (- EINVAL, s)
     else if queue_count_bad nb_tx (max_tx_queues (ad s)) then (- EINVAL, s)
     else ena_netdev_alloc_ring_arrays P nb_rx nb_tx s)"

definition ring_put :: "ena_ring_type \<Rightarrow> nat \<Rightarrow> ena_ring option \<Rightarrow> 'd sys \<Rightarrow> 'd sys" where
  "ring_put ty q x = ad_update (if ty = ENA_RING_TYPE_TX
     then tx_rings_update (\<lambda>rs. rs[q := x]) else rx_rings_update (\<lambda>rs. rs[q := x]))"

text \<open>
  The bounce memory and the two arrays of a queue, in this order: how far the allocation came
  (0 to 3) and the address of the memory.
\<close>

definition bounce_alloc :: "'d platform \<Rightarrow> nat \<Rightarrow> nat \<Rightarrow> 'd sys \<Rightarrow> nat \<times> u64 \<times> 'd sys" where
  "bounce_alloc P nb_desc slot_size s =
    (case dma_alloc P (nb_desc * slot_size) s of
       (None, s) \<Rightarrow> (0, 0, s)
     | (Some pa, s) \<Rightarrow>
       (case p_calloc P (nb_desc * 2) (dev s) of (ok1, d) \<Rightarrow>
          if \<not> ok1 then (1, pa, s\<lparr> dev := d \<rparr>)
          else case p_calloc P (nb_desc * 2) d of (ok2, d) \<Rightarrow>
            (if ok2 then 3 else 2, pa, s\<lparr> dev := d \<rparr>)))"

definition ena_netdev_rxq_configure ::
  "'d platform \<Rightarrow> (ring_block \<Rightarrow> u64 option) \<Rightarrow> uk_netdev_state \<Rightarrow> u16 \<Rightarrow> u16 \<Rightarrow> 'd netdev \<Rightarrow> bool \<times> 'd netdev" where
  "ena_netdev_rxq_configure P mem st qi nb_desc n =
    (let a = nd_ad n; q = unat qi in
     if ENA_NETDEV_MAX_QUEUES \<le> qi \<or> (num_rx_rings a \<noteq> 0 \<and> num_rx_rings a \<le> qi) then (False, n)
     else if st = UK_NETDEV_RUNNING then (False, n)
     else
       let nb_desc = ena_netdev_clamp_desc_count nb_desc (max_rx_ring_size a);
           s = ring_put ENA_RING_TYPE_RX q None (nd_sys n);
           (rq, s) = ena_netdev_free_rxq_bounce P (rxqs s ! q) s;
           s = s\<lparr> rxqs := (rxqs s)[q := rq] \<rparr>
       in case ena_ring_alloc mem qi ENA_RING_TYPE_RX nb_desc nb_desc [] of
            (_, None, _) \<Rightarrow> (False, n\<lparr> nd_sys := s \<rparr>)
          | (_, Some r, _) \<Rightarrow>
            let r = r\<lparr> drop_netbuf_cb := True, refill_netbuf := True \<rparr>;
                rq = rq\<lparr> rq_queue_id := qi, rq_nb_desc := nb_desc \<rparr>
            in case bounce_alloc P (unat nb_desc) (unat ENA_RX_BUF_SIZE) s of (k, pa, s) \<Rightarrow>
                 if k < 3 then
                   let (rq', s) = (if k = 0 then (rq, s)
                         else ena_netdev_free_rxq_bounce P (rq\<lparr> rq_bounce_buf := True, rq_bounce_phys := pa \<rparr>) s)
                   in (False, n\<lparr> nd_sys := ring_put ENA_RING_TYPE_RX q None (s\<lparr> rxqs := (rxqs s)[q := rq'] \<rparr>) \<rparr>)
                 else
                   let rq = rq\<lparr> rq_bounce_buf := True, rq_bounce_phys := pa,
                         rq_free_ids := map of_nat [0..<unat nb_desc], rq_bounce_map := replicate (unat nb_desc) (- 1),
                         rq_free_head := 0, rq_free_tail := 0, rq_free_count := nb_desc, rq_pending_slot := - 1 \<rparr>
                   in (True, n\<lparr> nd_sys := ring_put ENA_RING_TYPE_RX q (Some r) (s\<lparr> rxqs := (rxqs s)[q := rq] \<rparr>) \<rparr>))"

definition ena_netdev_txq_configure ::
  "'d platform \<Rightarrow> (ring_block \<Rightarrow> u64 option) \<Rightarrow> uk_netdev_state \<Rightarrow> u16 \<Rightarrow> u16 \<Rightarrow> 'd netdev \<Rightarrow> bool \<times> 'd netdev" where
  "ena_netdev_txq_configure P mem st qi nb_desc n =
    (let a = nd_ad n; q = unat qi in
     if ENA_NETDEV_MAX_QUEUES \<le> qi \<or> (num_tx_rings a \<noteq> 0 \<and> num_tx_rings a \<le> qi) then (False, n)
     else if st = UK_NETDEV_RUNNING then (False, n)
     else
       let nb_desc = ena_netdev_clamp_desc_count nb_desc (max_tx_ring_size a);
           s = ring_put ENA_RING_TYPE_TX q None (nd_sys n);
           (tq, s) = ena_netdev_free_txq_bounce P (nd_txqs n ! q) s;
           n = n\<lparr> nd_sys := s, nd_txqs := (nd_txqs n)[q := tq] \<rparr>
       in case ena_ring_alloc mem qi ENA_RING_TYPE_TX nb_desc nb_desc [] of
            (_, None, _) \<Rightarrow> (False, n)
          | (_, Some r, _) \<Rightarrow>
            let r = r\<lparr> tx_complete_cb := True \<rparr>;
                tq = tq\<lparr> tq_queue_id := qi, tq_in_use := False, tq_req_id := 0, tq_wait_polls := 0, tq_nb_desc := nb_desc \<rparr>
            in case bounce_alloc P (unat nb_desc) (unat ENA_TX_BOUNCE_SIZE) s of (k, pa, s) \<Rightarrow>
                 if k < 3 then
                   let (tq', s) = (if k = 0 then (tq, s)
                         else ena_netdev_free_txq_bounce P (tq\<lparr> tq_bounce_buf := True, tq_bounce_phys := pa \<rparr>) s)
                   in (False, n\<lparr> nd_sys := ring_put ENA_RING_TYPE_TX q None s, nd_txqs := (nd_txqs n)[q := tq'] \<rparr>)
                 else
                   let tq = tq\<lparr> tq_bounce_buf := True, tq_bounce_phys := pa,
                         tq_free_ids := map of_nat [0..<unat nb_desc], tq_bounce_map := replicate (unat nb_desc) (- 1),
                         tq_free_head := 0, tq_free_tail := 0, tq_free_count := nb_desc \<rparr>
                   in (True, n\<lparr> nd_sys := ring_put ENA_RING_TYPE_TX q (Some r) s, nd_txqs := (nd_txqs n)[q := tq] \<rparr>))"

subsection \<open>Start and stop\<close>

text \<open>Creating queues until one fails: the result, the number created, the system.\<close>

fun start_loop :: "'d exec_fn \<Rightarrow> ena_ring_type \<Rightarrow> nat list \<Rightarrow> nat \<Rightarrow> 'd sys \<Rightarrow> int \<times> nat \<times> 'd sys" where
  "start_loop exec ty [] created s = (0, created, s)"
| "start_loop exec ty (q # qs) created s =
    (case ring_of ty q s of
       None \<Rightarrow> start_loop exec ty qs created s
     | Some r \<Rightarrow>
       (case ena_ring_create_hw exec ty q (queue_vector q s) s of (ret, s) \<Rightarrow>
          if ret \<noteq> 0 then (ret, created, s) else start_loop exec ty qs (Suc created) s))"

fun destroy_loop :: "'d exec_fn \<Rightarrow> ena_ring_type \<Rightarrow> nat list \<Rightarrow> 'd sys \<Rightarrow> 'd sys" where
  "destroy_loop exec ty [] s = s"
| "destroy_loop exec ty (q # qs) s =
    (case ring_of ty q s of
       None \<Rightarrow> destroy_loop exec ty qs s
     | Some r \<Rightarrow> destroy_loop exec ty qs (snd (ena_ring_destroy_hw exec ty q s)))"

definition ena_netdev_start_rings_hw :: "'d platform \<Rightarrow> 'd exec_fn \<Rightarrow> u16 \<Rightarrow> u16 \<Rightarrow> 'd sys \<Rightarrow> int \<times> 'd sys" where
  "ena_netdev_start_rings_hw P exec nb_rx nb_tx s =
    (case start_loop exec ENA_RING_TYPE_TX [0..<unat nb_tx] 0 s of (ret, tx_created, s) \<Rightarrow>
       if ret \<noteq> 0 then (ret, destroy_loop exec ENA_RING_TYPE_TX [0..<tx_created] s)
       else case start_loop exec ENA_RING_TYPE_RX [0..<unat nb_rx] 0 s of (ret, rx_created, s) \<Rightarrow>
         if ret \<noteq> 0 then
           (ret, destroy_loop exec ENA_RING_TYPE_TX [0..<tx_created] (destroy_loop exec ENA_RING_TYPE_RX [0..<rx_created] s))
         else (0, if irq_vectors (ad s) \<noteq> [] then ena_intr_unmask_all P s else s))"

definition ena_netdev_start :: "'d platform \<Rightarrow> 'd exec_fn \<Rightarrow> 'd sys \<Rightarrow> int \<times> 'd sys" where
  "ena_netdev_start P exec s =
    (case ena_netdev_start_rings_hw P exec (num_rx_rings (ad s)) (num_tx_rings (ad s)) s of (ret, s) \<Rightarrow>
       if ret \<noteq> 0 then (ret, s)
       else
         let s = (case ring_of ENA_RING_TYPE_RX 0 s of None \<Rightarrow> s
                | Some r \<Rightarrow> snd (refill_queue P 0 (ucast (sq_depth r) - 1) s));
             s = (if 1 < num_rx_rings (ad s) then snd (ena_rss_configure P exec (num_rx_rings (ad s)) s) else s)
         in (0, ad_update (link_up_update (\<lambda>_. True)) s))"

fun stop_drain_loop ::
  "(nat \<Rightarrow> tx_cq_write list) \<Rightarrow> u32 \<Rightarrow> nat list \<Rightarrow> 'd netdev \<Rightarrow> 'd netdev option" where
  "stop_drain_loop devs cpu [] n = Some n"
| "stop_drain_loop devs cpu (q # qs) n =
    (case poll_tx_ring (devs q) cpu ena_netdev_txq_reclaim_slot 0 q (nd_sys n) (nd_txqs n ! q) of
       None \<Rightarrow> None
     | Some (_, s, tq) \<Rightarrow> stop_drain_loop devs cpu qs (n\<lparr> nd_sys := s, nd_txqs := (nd_txqs n)[q := tq] \<rparr>))"

definition ena_netdev_stop_rings_hw ::
  "'d exec_fn \<Rightarrow> (nat \<Rightarrow> tx_cq_write list) \<Rightarrow> u32 \<Rightarrow> u16 \<Rightarrow> u16 \<Rightarrow> 'd netdev \<Rightarrow> (int \<times> 'd netdev) option" where
  "ena_netdev_stop_rings_hw exec devs cpu nb_rx nb_tx n =
    (case stop_drain_loop devs cpu [0..<unat nb_tx] n of
       None \<Rightarrow> None
     | Some n \<Rightarrow>
       Some (0, nd_sys_map (\<lambda>s. destroy_loop exec ENA_RING_TYPE_TX [0..<unat nb_tx]
         (destroy_loop exec ENA_RING_TYPE_RX [0..<unat nb_rx] s)) n))"

definition ena_netdev_stop ::
  "'d exec_fn \<Rightarrow> (nat \<Rightarrow> tx_cq_write list) \<Rightarrow> u32 \<Rightarrow> 'd netdev \<Rightarrow> (int \<times> 'd netdev) option" where
  "ena_netdev_stop exec devs cpu n =
    (let n = nd_sys_map (\<lambda>s. (ad_update (link_up_update (\<lambda>_. False)) s)
               \<lparr> rxqs := ena_netdev_clear_rx_chains (rxqs s) ENA_NETDEV_MAX_QUEUES \<rparr>) n
     in ena_netdev_stop_rings_hw exec devs cpu (num_rx_rings (nd_ad n)) (num_tx_rings (nd_ad n)) n)"

subsection \<open>Release\<close>

definition ena_netdev_cleanup_adapter_rings :: "'d platform \<Rightarrow> 'd sys \<Rightarrow> 'd sys" where
  "ena_netdev_cleanup_adapter_rings P s =
    (let s = (if rx_rings (ad s) \<noteq> [] then ad_update (\<lambda>a. a\<lparr> rx_rings := [], num_rx_rings := 0 \<rparr>) s else s);
         s = (if tx_rings (ad s) \<noteq> [] then ad_update (\<lambda>a. a\<lparr> tx_rings := [], num_tx_rings := 0 \<rparr>) s else s)
     in ena_rss_fini P s)"

fun free_bounce_loop :: "'d platform \<Rightarrow> nat list \<Rightarrow> 'd netdev \<Rightarrow> 'd netdev" where
  "free_bounce_loop P [] n = n"
| "free_bounce_loop P (q # qs) n =
    (case ena_netdev_free_rxq_bounce P (rxqs (nd_sys n) ! q) (nd_sys n) of (rq, s) \<Rightarrow>
     case ena_netdev_free_txq_bounce P (nd_txqs n ! q) (s\<lparr> rxqs := (rxqs s)[q := rq] \<rparr>) of (tq, s) \<Rightarrow>
       free_bounce_loop P qs (n\<lparr> nd_sys := s, nd_txqs := (nd_txqs n)[q := tq] \<rparr>))"

definition ena_netdev_teardown ::
  "'d platform \<Rightarrow> 'd msix_plat \<Rightarrow> 'd exec_fn \<Rightarrow> (nat \<Rightarrow> tx_cq_write list) \<Rightarrow> u32 \<Rightarrow> 'd netdev \<Rightarrow> 'd netdev option" where
  "ena_netdev_teardown P M exec devs cpu n =
    (case ena_netdev_stop exec devs cpu n of
       None \<Rightarrow> None
     | Some (_, n) \<Rightarrow>
       let n = free_bounce_loop P [0..<unat ENA_NETDEV_MAX_QUEUES] n
       in Some (nd_sys_map (\<lambda>s. ena_admin_fini P (ena_intr_msix_fini P M (ena_netdev_cleanup_adapter_rings P s))) n))"

subsection \<open>Receive and transmit\<close>

definition ena_netdev_drain_aenq :: "'d platform \<Rightarrow> 'd sys \<Rightarrow> (int \<times> 'd sys) option" where
  "ena_netdev_drain_aenq P s = ena_admin_aenq_poll P (ena_aenq_default_handler P) ENA_NETDEV_AENQ_POLL_BUDGET s"

definition ena_netdev_poll_tx_completions_queue ::
  "tx_cq_write list \<Rightarrow> u32 \<Rightarrow> u16 \<Rightarrow> 'd netdev \<Rightarrow> 'd netdev option" where
  "ena_netdev_poll_tx_completions_queue devs cpu qi n =
    (if qi < num_tx_rings (nd_ad n) then
       (case poll_tx_ring devs cpu ena_netdev_txq_reclaim_slot ENA_NETDEV_TX_POLL_BUDGET (unat qi)
               (nd_sys n) (nd_txqs n ! unat qi) of
          None \<Rightarrow> None
        | Some (_, s, tq) \<Rightarrow> Some (n\<lparr> nd_sys := s, nd_txqs := (nd_txqs n)[unat qi := tq] \<rparr>))
     else Some n)"

definition ena_netdev_rx_one ::
  "'d platform \<Rightarrow> (nat \<Rightarrow> nat \<Rightarrow> u8 list) \<Rightarrow> tx_cq_write list \<Rightarrow> rx_cq_write list list \<Rightarrow> u32 \<Rightarrow> u16 \<Rightarrow> 'd netdev \<Rightarrow>
   (int \<times> netbuf list \<times> 'd netdev) option" where
  "ena_netdev_rx_one P bounce txw rxw cpu qi n =
    (let q = unat qi in
     case ring_of ENA_RING_TYPE_RX q (nd_sys n) of
       None \<Rightarrow> Some (- EINVAL, [], n)
     | Some _ \<Rightarrow>
       (case (if qi = 0 then map_option (\<lambda>(_, s). n\<lparr> nd_sys := s \<rparr>) (ena_netdev_drain_aenq P (nd_sys n)) else Some n) of
          None \<Rightarrow> None
        | Some n \<Rightarrow>
          (case ena_netdev_poll_tx_completions_queue txw cpu qi n of
             None \<Rightarrow> None
           | Some n \<Rightarrow>
             (case ring_of ENA_RING_TYPE_RX q (nd_sys n) of
                None \<Rightarrow> Some (- EINVAL, [], n)
              | Some r \<Rightarrow>
                let s = nd_sys n;
                    c = \<lparr> rc_ring = r, rc_queue = rxqs s ! q, rc_nbs = nd_nbs n, rc_dev = dev s, rc_freed = freed s, rc_db = [] \<rparr>
                in map_option (\<lambda>(ret, frame, c).
                     (ret, frame, n\<lparr> nd_nbs := rc_nbs c,
                        nd_sys := ring_upd ENA_RING_TYPE_RX q (\<lambda>_. rc_ring c)
                          (s\<lparr> rxqs := (rxqs s)[q := rc_queue c], dev := apply_db P (rc_db c) (rc_dev c), freed := rc_freed c \<rparr>) \<rparr>))
                     (rx_one_loop (p_rx_alloc P) bounce rxw (ena_netdev_rx_refill_helper (p_rx_alloc P) c))))))"

definition ena_netdev_tx_one ::
  "'d platform \<Rightarrow> (u64 \<Rightarrow> u64) \<Rightarrow> tx_cq_write list \<Rightarrow> u32 \<Rightarrow> u16 \<Rightarrow> netbuf \<Rightarrow> 'd netdev \<Rightarrow>
   (int \<times> (nat \<times> u8 list) list \<times> (nat \<times> u8 list) list \<times> 'd netdev) option" where
  "ena_netdev_tx_one P virt_to_phys txw cpu qi nb n =
    (let q = unat qi in
     case ring_of ENA_RING_TYPE_TX q (nd_sys n) of
       None \<Rightarrow> Some (- EINVAL, [], [], n)
     | Some r \<Rightarrow>
       (case ena_tx_poll_completions txw cpu ena_netdev_txq_reclaim_slot 32 r (nd_txqs n ! q) of
          None \<Rightarrow> None
        | Some (_, _, r, tq, fs) \<Rightarrow>
          (case tx_one_submit cpu (nd_nbs n) virt_to_phys r tq nb of (ret, r, tq, copies, eff) \<Rightarrow>
             let s = nd_sys n
             in Some (ret, copies, le_push eff,
                  n\<lparr> nd_sys := ring_upd ENA_RING_TYPE_TX q (\<lambda>_. r)
                       (s\<lparr> dev := apply_db P (le_doorbell eff) (dev s), freed := freed s @ fs \<rparr>),
                     nd_txqs := (nd_txqs n)[q := tq],
                     nd_nbs := fold (\<lambda>(nb, bs) f. f(nb := (f nb)\<lparr> nb_payload := mem_write 0 bs (nb_payload (f nb)) \<rparr>))
                       (le_netbuf eff) (nd_nbs n) \<rparr>))))"

subsection \<open>Accessors\<close>

definition ENA_DEFAULT_MTU :: u16 where [ena_consts]: "ENA_DEFAULT_MTU = 1500"
definition ENA_NETDEV_IOALIGN :: u16 where [ena_consts]: "ENA_NETDEV_IOALIGN = 64"

definition or_default :: "u16 \<Rightarrow> u16 \<Rightarrow> u16" where
  "or_default v d = (if v \<noteq> 0 then v else d)"

datatype uk_netdev_feature = UK_NETDEV_F_PARTIAL_CSUM | UK_NETDEV_F_LRO

record uk_netdev_info =
  in_max_rx_queues :: u16
  in_max_tx_queues :: u16
  in_max_mtu :: u16
  in_nb_encap_tx :: u16
  in_nb_encap_rx :: u16
  in_ioalign :: u16
  in_in_queue_pairs :: bool
  in_features :: "uk_netdev_feature list"

definition ena_netdev_info_get :: "ena_adapter \<Rightarrow> uk_netdev_info" where
  "ena_netdev_info_get a = \<lparr> in_max_rx_queues = or_default (max_rx_queues a) 1,
     in_max_tx_queues = or_default (max_tx_queues a) 1, in_max_mtu = or_default (max_mtu a) ENA_DEFAULT_MTU,
     in_nb_encap_tx = 0, in_nb_encap_rx = 0, in_ioalign = ENA_NETDEV_IOALIGN, in_in_queue_pairs = True,
     in_features = [UK_NETDEV_F_PARTIAL_CSUM, UK_NETDEV_F_LRO] \<rparr>"

text \<open>The minimum and maximum number of descriptors of a queue.\<close>

definition ena_netdev_rxq_info_get :: "ena_adapter \<Rightarrow> u16 \<times> u16" where
  "ena_netdev_rxq_info_get a = (32, or_default (max_rx_ring_size a) ENA_DEFAULT_RING_DESC)"

definition ena_netdev_txq_info_get :: "ena_adapter \<Rightarrow> u16 \<times> u16" where
  "ena_netdev_txq_info_get a = (32, or_default (max_tx_ring_size a) ENA_DEFAULT_RING_DESC)"

definition ena_netdev_mtu_get :: "ena_adapter \<Rightarrow> u16" where
  "ena_netdev_mtu_get a = (if ad_mtu a \<noteq> 0 then ucast (ad_mtu a) else ENA_DEFAULT_MTU)"

definition ena_netdev_link_state_get :: "ena_adapter \<Rightarrow> int" where
  "ena_netdev_link_state_get a = (if link_up a then 1 else 0)"

definition rx_ring_in_use :: "ena_adapter \<Rightarrow> u16 \<Rightarrow> ena_ring option" where
  "rx_ring_in_use a q = (if num_rx_rings a \<le> q then None else ring_at (rx_rings a) (unat q))"

definition tx_ring_in_use :: "ena_adapter \<Rightarrow> u16 \<Rightarrow> ena_ring option" where
  "tx_ring_in_use a q = (if num_tx_rings a \<le> q then None else ring_at (tx_rings a) (unat q))"

definition ena_netdev_rx_posted :: "ena_adapter \<Rightarrow> u16 \<Rightarrow> u32" where
  "ena_netdev_rx_posted a q =
    (case rx_ring_in_use a q of None \<Rightarrow> 0xFFFFFFFF
     | Some r \<Rightarrow> ucast ((sq_tail r - sq_head r) AND (sq_depth r - 1)))"

definition in_flight_count :: "ena_ring \<Rightarrow> u32" where
  "in_flight_count r = of_nat (length (filter (\<lambda>x. x \<noteq> 0) (take (unat (sq_depth r)) (req_in_flight r))))"

definition ena_netdev_tx_ring_state :: "ena_adapter \<Rightarrow> u16 \<Rightarrow> u32 \<times> u32 \<times> u32 \<times> u32" where
  "ena_netdev_tx_ring_state a q =
    (case tx_ring_in_use a q of None \<Rightarrow> (0, 0, 0, 0)
     | Some r \<Rightarrow> (ucast (free_req_count r), in_flight_count r, ucast (sq_tail r), ucast (cq_head r)))"

definition ena_netdev_rx_ring_state :: "ena_adapter \<Rightarrow> u16 \<Rightarrow> u32 \<times> u32 \<times> u32 \<times> u32 \<times> u32" where
  "ena_netdev_rx_ring_state a q =
    (case rx_ring_in_use a q of None \<Rightarrow> (0, 0, 0, 0, 0)
     | Some r \<Rightarrow> (ucast (free_req_count r), in_flight_count r, ucast (sq_tail r), ucast (sq_head r), ucast (cq_head r)))"

definition ena_netdev_rx_kick :: "'d platform \<Rightarrow> u16 \<Rightarrow> 'd sys \<Rightarrow> 'd sys" where
  "ena_netdev_rx_kick P q s =
    (case rx_ring_in_use (ad s) q of None \<Rightarrow> s
     | Some r \<Rightarrow> s\<lparr> dev := apply_db P (ena_rx_doorbell r) (dev s) \<rparr>)"

definition ena_netdev_rearm_cq_intr :: "'d platform \<Rightarrow> u16 \<Rightarrow> 'd sys \<Rightarrow> 'd sys" where
  "ena_netdev_rearm_cq_intr P q s =
    (if irq_vectors (ad s) = [] \<or> num_irq_vectors (ad s) \<le> ucast q + 1 then s
     else snd (ena_intr_unmask_vector P (ucast q + 1) s))"

definition ena_netdev_rx_dropped :: "ena_adapter \<Rightarrow> u16 \<Rightarrow> u64" where
  "ena_netdev_rx_dropped a q = (case rx_ring_in_use a q of None \<Rightarrow> 0 | Some r \<Rightarrow> rx_dropped r)"

definition ena_netdev_rx_refill_err :: "ena_adapter \<Rightarrow> u16 \<Rightarrow> u64" where
  "ena_netdev_rx_refill_err a q = (case rx_ring_in_use a q of None \<Rightarrow> 0 | Some r \<Rightarrow> rx_refill_err r)"

definition ena_netdev_rxq_pkts :: "ena_adapter \<Rightarrow> u16 \<Rightarrow> u64" where
  "ena_netdev_rxq_pkts a q = (case rx_ring_in_use a q of None \<Rightarrow> 0 | Some r \<Rightarrow> rx_packets r)"

definition ena_netdev_txq_pkts :: "ena_adapter \<Rightarrow> u16 \<Rightarrow> u64" where
  "ena_netdev_txq_pkts a q = (case tx_ring_in_use a q of None \<Rightarrow> 0 | Some r \<Rightarrow> tx_packets r)"

definition ena_netdev_cq_unmask_off :: "ena_adapter \<Rightarrow> u16 \<Rightarrow> u32" where
  "ena_netdev_cq_unmask_off a q =
    (case rx_ring_in_use a q of None \<Rightarrow> 0xFFFFFFFF | Some r \<Rightarrow> cq_unmask_db_offset r)"

definition ena_netdev_ring_stats :: "ena_adapter \<Rightarrow> u16 \<Rightarrow> u32 \<times> u32 \<times> u32" where
  "ena_netdev_ring_stats a q =
    (case tx_ring_in_use a q of None \<Rightarrow> 0 | Some r \<Rightarrow> ucast (free_req_count r),
     case rx_ring_in_use a q of None \<Rightarrow> 0 | Some r \<Rightarrow> ucast (sq_tail r) - ucast (cq_head r), 0)"

definition ena_netdev_aen_report :: "ena_adapter \<Rightarrow> u32 \<times> u64 \<times> u64" where
  "ena_netdev_aen_report a = (aen_keepalives a, aen_rx_drops a, aen_tx_drops a)"

text \<open>
  The counters of the device: received and sent packets that were dropped, received and sent
  packets, and the five allowance counters where the device has them.
\<close>

definition high_low :: "u8 list \<Rightarrow> nat \<Rightarrow> u64" where
  "high_low bs i = push_bit 32 (ucast (get32 bs (i + 4))) OR ucast (get32 bs i)"

definition ena_netdev_dev_stats ::
  "'d platform \<Rightarrow> 'd sys \<Rightarrow> int \<times> (u64 \<times> u64 \<times> u64 \<times> u64) option \<times> u64 list option \<times> 'd sys" where
  "ena_netdev_dev_stats P s =
    (case ena_admin_get_basic_stats P s of (ret, b, s) \<Rightarrow>
       if ret \<noteq> 0 then (ret, None, None, s)
       else
         let basic = Some (high_low b 32, high_low b 40, high_low b 24, high_low b 8)
         in if attr_caps (ad s) AND 1 = 0 then (0, basic, None, s)
            else case ena_admin_get_eni_stats P s of (ret, e, s) \<Rightarrow>
              (0, basic, if ret = 0 then Some (map (\<lambda>k. get64 e (8 * k)) [0..<5]) else None, s))"

subsection \<open>The remaining callbacks\<close>

definition ena_netdev_promisc_get :: "ena_adapter \<Rightarrow> u32" where
  "ena_netdev_promisc_get a = 0"

definition ena_netdev_mac_get :: "ena_adapter \<Rightarrow> u8 list" where
  "ena_netdev_mac_get a = mac_addr a"

definition ena_netdev_free ::
  "'d platform \<Rightarrow> 'd msix_plat \<Rightarrow> 'd exec_fn \<Rightarrow> (nat \<Rightarrow> tx_cq_write list) \<Rightarrow> u32 \<Rightarrow> 'd netdev option \<Rightarrow> 'd netdev option option" where
  "ena_netdev_free P M exec devs cpu nd =
    (case nd of None \<Rightarrow> Some None | Some n \<Rightarrow> map_option Some (ena_netdev_teardown P M exec devs cpu n))"

end
