(* ===== verification/Ena_Tx_Poll.thy ===== *)
theory Ena_Tx_Poll
  imports Ena_Tx_Facts
begin

text \<open>
  Correctness of the completion poll \<^verbatim>\<open>ena_tx_poll_completions\<close>: invariant, conservation of
  packet buffers, the meaning of the returned count, releases on the right core, and
  termination over a quiet completion queue.
\<close>

subsection \<open>One completion\<close>

lemma tx_release_frame [frame_simps]:
  "req_in_flight (fst (tx_release r i)) = req_in_flight r" "sq_depth (fst (tx_release r i)) = sq_depth r"
  "tx_cq (fst (tx_release r i)) = tx_cq r" "cq_depth (fst (tx_release r i)) = cq_depth r"
  "cq_head (fst (tx_release r i)) = cq_head r" "cq_phase (fst (tx_release r i)) = cq_phase r"
  "tx_owner_cpu (fst (tx_release r i)) = tx_owner_cpu r" "hw_valid (fst (tx_release r i)) = hw_valid r"
  "tx_complete_cb (fst (tx_release r i)) = tx_complete_cb r"
  by (simp_all add: tx_release_def ena_ring_req_id_free_def Let_def frame_simps)

lemma clear_in_flight_ok:
  assumes ok: "tx_ring_ok r" and i: "unat i < unat (sq_depth r)" "req_in_flight r ! unat i \<noteq> 0"
  shows "tx_ok_except {unat i}
    (r\<lparr> req_in_flight := (req_in_flight r)[unat i := 0], sq_head := h \<rparr>)" (is "tx_ok_except _ ?r")
proof -
  note D = tx_ok_exceptD [OF ok [unfolded tx_ring_ok_def]]
  have "req_ids_ok ?r" using D(2) req_ids_ok_cong [of ?r r] by simp
  moreover have "sq.coherent ?r" "cq.coherent ?r"
    using ok coherent_cong [of ?r r] by (simp_all add: tx_ring_ok_def tx_ok_except_def)
  moreover have df: "deferred_ids ?r = deferred_ids r" by (simp add: deferred_ids_def)
  moreover have "tx_id_ok {unat i} ?r j" if "j < unat (sq_depth r)" for j
    using D(13) [OF that] D(13) [OF i(1)] D(9) i that df by (auto simp: tx_id_ok_def nth_list_update)
  ultimately show ?thesis
    using D(1,5-8,11,12,14) by (simp add: tx_ok_except_def tx_lengths_ok_def)
qed

lemma report_frame:
  "tx_ok_except S (ena_tx_report_foreign_reaper r cpu) = tx_ok_except S r"
  "tx_held (ena_tx_report_foreign_reaper r cpu) = tx_held r"
  "sq_depth (ena_tx_report_foreign_reaper r cpu) = sq_depth r"
  "tx_bufs (ena_tx_report_foreign_reaper r cpu) = tx_bufs r"
proof -
  show "tx_ok_except S (ena_tx_report_foreign_reaper r cpu) = tx_ok_except S r"
    by (rule tx_same_ok [OF report_same]; rule coherent_cong;
        simp add: ena_tx_report_foreign_reaper_def)
qed (simp_all add: ena_tx_report_foreign_reaper_def tx_held_def)

text \<open>
  The outcome of one completion of an id in flight: the id leaves the in-flight set, and its
  buffer is either released (only on the owning core) or deferred.
\<close>

lemma tx_complete_one_ok:
  assumes ok: "tx_ring_ok r"
    and i: "unat (txc_req_id c) < unat (sq_depth r)" "req_in_flight r ! unat (txc_req_id c) \<noteq> 0"
    and e: "tx_complete_one cpu cb c r q = (r', q', freed)"
  shows "tx_ring_ok r'" "tx_held r = tx_held r' + mset freed"
    "cpu \<noteq> tx_owner_cpu r \<Longrightarrow> freed = []"
    "q' = (if tx_complete_cb r then cb q (txc_req_id c) else q)"
proof -
  let ?i = "txc_req_id c"
  let ?r = "r\<lparr> req_in_flight := (req_in_flight r)[unat ?i := 0],
              sq_head := sq_head_idx c AND (sq_depth r - 1) \<rparr>"
  let ?s = "ena_tx_report_foreign_reaper ?r cpu"
  have ok1: "tx_ok_except {unat ?i} ?r" by (rule clear_in_flight_ok [OF ok i])
  have h: "tx_held ?r = tx_held r" by (simp add: tx_held_def)
  have i1: "unat ?i < unat (sq_depth ?r)" using i by simp
  note rel = tx_release_ok [OF ok1 i1]
  have ok2: "tx_ok_except {unat ?i} ?s" and i2: "unat ?i < unat (sq_depth ?s)"
    and h2: "tx_held ?s = tx_held r"
    using ok1 i h by (simp_all add: report_frame)
  note rel2 = tx_release_ok [OF ok2 i2] and st = stage_ok [OF ok2 i2, of "tx_owner_cpu r"]
  have adv: "tx_ring_ok t \<Longrightarrow> tx_ring_ok (cq_advance t)" "tx_held (cq_advance t) = tx_held t" for t
    by (simp_all add: tx_ring_ok_def cq_advance_tx_ok tx_held_def frame_simps)
  consider (own) "cpu = tx_owner_cpu r"
    | (late) "cpu \<noteq> tx_owner_cpu r" "tb_netbuf (tx_bufs r ! unat ?i) \<noteq> None"
    | (none) "cpu \<noteq> tx_owner_cpu r" "tb_netbuf (tx_bufs r ! unat ?i) = None" by blast
  then have "tx_ring_ok r' \<and> tx_held r = tx_held r' + mset freed \<and>
      (cpu \<noteq> tx_owner_cpu r \<longrightarrow> freed = [])"
  proof cases
    case own
    then have "r' = cq_advance (fst (tx_release ?r ?i))" "freed = snd (tx_release ?r ?i)"
      using e by (simp_all add: tx_complete_one_def Let_def case_prod_beta)
    with rel h own show ?thesis by (simp add: adv)
  next
    case late
    then have "r' = cq_advance (snd (ena_tx_stage_foreign_free ?s ?i (tx_owner_cpu r)))" "freed = []"
      using e st(1) by (simp_all add: tx_complete_one_def Let_def report_frame)
    with st(2) late h2 show ?thesis by (simp add: adv report_frame)
  next
    case none
    then have n: "snd (tx_release ?s ?i) = []"
      by (simp add: tx_release_def Let_def report_frame)
    have "r' = cq_advance (fst (tx_release ?s ?i))" "freed = snd (tx_release ?s ?i)"
      using none e st(1) by (simp_all add: tx_complete_one_def Let_def report_frame case_prod_beta)
    with rel2 h2 n show ?thesis by (simp add: adv)
  qed
  then show "tx_ring_ok r'" "tx_held r = tx_held r' + mset freed"
    "cpu \<noteq> tx_owner_cpu r \<Longrightarrow> freed = []" by simp_all
  show "q' = (if tx_complete_cb r then cb q (txc_req_id c) else q)"
    using e by (simp add: tx_complete_one_def Let_def case_prod_beta split: if_splits)
qed

lemma tx_complete_one_frame:
  assumes "tx_complete_one cpu cb c r q = (r', q', freed)"
  shows "req_in_flight r' = (req_in_flight r)[unat (txc_req_id c) := 0]" "sq_depth r' = sq_depth r"
    "tx_cq r' = tx_cq r" "cq_depth r' = cq_depth r" "cq_head r' = cq_head r + 1"
    "cq_phase r' = (if (cq_head r + 1) AND (cq_depth r - 1) = 0 then cq_phase r XOR 1 else cq_phase r)"
    "tx_owner_cpu r' = tx_owner_cpu r" "hw_valid r' = hw_valid r" "tx_complete_cb r' = tx_complete_cb r"
proof -
  have st: "req_in_flight (snd (ena_tx_stage_foreign_free t i p)) = req_in_flight t"
    "sq_depth (snd (ena_tx_stage_foreign_free t i p)) = sq_depth t"
    "tx_cq (snd (ena_tx_stage_foreign_free t i p)) = tx_cq t"
    "cq_depth (snd (ena_tx_stage_foreign_free t i p)) = cq_depth t"
    "cq_head (snd (ena_tx_stage_foreign_free t i p)) = cq_head t"
    "cq_phase (snd (ena_tx_stage_foreign_free t i p)) = cq_phase t"
    "tx_owner_cpu (snd (ena_tx_stage_foreign_free t i p)) = tx_owner_cpu t"
    "hw_valid (snd (ena_tx_stage_foreign_free t i p)) = hw_valid t"
    "tx_complete_cb (snd (ena_tx_stage_foreign_free t i p)) = tx_complete_cb t" for t i p
    by (simp_all add: ena_tx_stage_foreign_free_def)
  have rp: "req_in_flight (ena_tx_report_foreign_reaper t p) = req_in_flight t"
    "sq_depth (ena_tx_report_foreign_reaper t p) = sq_depth t"
    "tx_cq (ena_tx_report_foreign_reaper t p) = tx_cq t"
    "cq_depth (ena_tx_report_foreign_reaper t p) = cq_depth t"
    "cq_head (ena_tx_report_foreign_reaper t p) = cq_head t"
    "cq_phase (ena_tx_report_foreign_reaper t p) = cq_phase t"
    "tx_owner_cpu (ena_tx_report_foreign_reaper t p) = tx_owner_cpu t"
    "hw_valid (ena_tx_report_foreign_reaper t p) = hw_valid t"
    "tx_complete_cb (ena_tx_report_foreign_reaper t p) = tx_complete_cb t" for t p
    by (simp_all add: ena_tx_report_foreign_reaper_def)
  let ?r = "r\<lparr> req_in_flight := (req_in_flight r)[unat (txc_req_id c) := 0],
              sq_head := sq_head_idx c AND (sq_depth r - 1) \<rparr>"
  let ?t = "snd (ena_tx_stage_foreign_free (ena_tx_report_foreign_reaper ?r cpu) (txc_req_id c)
              (tx_owner_cpu r))"
  have "r' = cq_advance ?t \<or> r' = cq_advance (fst (tx_release ?t (txc_req_id c))) \<or>
      r' = cq_advance (fst (tx_release ?r (txc_req_id c)))"
    using assms by (simp add: tx_complete_one_def Let_def case_prod_beta split: if_splits)
  then show "req_in_flight r' = (req_in_flight r)[unat (txc_req_id c) := 0]" "sq_depth r' = sq_depth r"
    "tx_cq r' = tx_cq r" "cq_depth r' = cq_depth r" "cq_head r' = cq_head r + 1"
    "cq_phase r' = (if (cq_head r + 1) AND (cq_depth r - 1) = 0 then cq_phase r XOR 1 else cq_phase r)"
    "tx_owner_cpu r' = tx_owner_cpu r" "hw_valid r' = hw_valid r" "tx_complete_cb r' = tx_complete_cb r"
    by (elim disjE; simp add: frame_simps st rp cq.cursor_advance cq.phase_advance)+
qed

subsection \<open>The loop: safety under any device behaviour\<close>

abbreviation keeps_length :: "('a list \<Rightarrow> 'a list) list \<Rightarrow> bool" where
  "keeps_length devs \<equiv> \<forall>d\<in>set devs. \<forall>m. length (d m) = length m"

lemma cq_write_ok:
  assumes "tx_ring_ok r" and "length m = length (tx_cq r)"
  shows "tx_ring_ok (r\<lparr> tx_cq := m \<rparr>)" "tx_held (r\<lparr> tx_cq := m \<rparr>) = tx_held r"
    "in_flight_ids (r\<lparr> tx_cq := m \<rparr>) = in_flight_ids r"
proof -
  have "tx_ok_except {} (r\<lparr> tx_cq := m \<rparr>) = tx_ok_except {} r"
    by (rule tx_same_ok; (rule coherent_cong)?; simp add: tx_same_def assms(2))
  with assms(1) show "tx_ring_ok (r\<lparr> tx_cq := m \<rparr>)" by (simp add: tx_ring_ok_def)
qed (simp_all add: tx_held_def in_flight_ids_def)

lemma in_flight_complete:
  assumes "tx_ring_ok r" and "tx_complete_one cpu cb c r q = (r', q', freed)"
    and "unat (txc_req_id c) < unat (sq_depth r)" "req_in_flight r ! unat (txc_req_id c) \<noteq> 0"
  shows "in_flight_ids r' = in_flight_ids r - {unat (txc_req_id c)}"
    "unat (txc_req_id c) \<in> in_flight_ids r"
  using tx_complete_one_frame(1,2) [OF assms(2)] assms(3,4)
    tx_ok_exceptD(9) [OF assms(1) [unfolded tx_ring_ok_def]]
  by (auto simp: in_flight_ids_def nth_list_update)

lemma finite_in_flight [simp]: "finite (in_flight_ids r)"
  by (simp add: in_flight_ids_def)

lemma tx_poll_loop_cases:
  assumes e: "tx_poll_loop (d # devs) cpu cb budget cleaned r q = Some (n, r', q', freed)"
  defines "s \<equiv> r\<lparr> tx_cq := d (tx_cq r) \<rparr>"
  defines "c \<equiv> tx_cq s ! unat (cq_head r AND (cq_depth r - 1))"
  obtains (stop) "n = cleaned" "r' = r \<or> r' = s" "freed = []" "q' = q"
    | (skip) "tx_poll_loop devs cpu cb budget cleaned (cq_advance s) q = Some (n, r', q', freed)"
    | (one) r1 q1 f1 f2 where "cleaned < budget"
        "unat (txc_req_id c) < unat (sq_depth s)" "req_in_flight s ! unat (txc_req_id c) \<noteq> 0"
        "tx_complete_one cpu cb c s q = (r1, q1, f1)"
        "tx_poll_loop devs cpu cb budget (cleaned + 1) r1 q1 = Some (n, r', q', f2)" "freed = f1 @ f2"
proof (cases "cleaned < budget")
  case False
  with e show thesis by (intro stop) simp_all
next
  case b: True
  have u: "tx_poll_loop (d # devs) cpu cb budget cleaned r q =
      (if txc_flags c AND ENA_ETH_IO_TX_CDESC_PHASE_MASK \<noteq> cq_phase s then Some (cleaned, s, q, [])
       else if sq_depth s \<le> txc_req_id c then Some (cleaned, s, q, [])
       else if req_in_flight s = [] \<or> req_in_flight s ! unat (txc_req_id c) = 0 then
         tx_poll_loop devs cpu cb budget cleaned (cq_advance s) q
       else (case tx_complete_one cpu cb c s q of (r, q, freed) \<Rightarrow>
               map_option (\<lambda>(n, r, q, freed'). (n, r, q, freed @ freed'))
                 (tx_poll_loop devs cpu cb budget (cleaned + 1) r q)))"
    using b by (simp add: Let_def s_def c_def)
  show thesis
  proof (cases "txc_flags c AND ENA_ETH_IO_TX_CDESC_PHASE_MASK \<noteq> cq_phase s \<or> sq_depth s \<le> txc_req_id c")
    case True
    with e u have "Some (cleaned, s, q, []) = Some (n, r', q', freed)" by (simp split: if_splits)
    then show thesis by (intro stop) simp_all
  next
    case v: False
    show thesis
    proof (cases "req_in_flight s = [] \<or> req_in_flight s ! unat (txc_req_id c) = 0")
      case True
      with e u v show thesis by (intro skip) simp
    next
      case False
      obtain r1 q1 f1 where t: "tx_complete_one cpu cb c s q = (r1, q1, f1)" by (cases "tx_complete_one cpu cb c s q")
      with e u v False obtain f2 where
        "tx_poll_loop devs cpu cb budget (cleaned + 1) r1 q1 = Some (n, r', q', f2)" "freed = f1 @ f2"
        by (cases "tx_poll_loop devs cpu cb budget (cleaned + 1) r1 q1") auto
      with t v b False show thesis by (intro one) (simp_all add: word_le_nat_alt)
    qed
  qed
qed

lemma tx_poll_loop_ok:
  assumes "tx_ring_ok r" "keeps_length devs" "cleaned \<le> budget"
    and "tx_poll_loop devs cpu cb budget cleaned r q = Some (n, r', q', freed)"
  shows "tx_ring_ok r' \<and> tx_held r = tx_held r' + mset freed \<and> n \<le> budget \<and>
    in_flight_ids r' \<subseteq> in_flight_ids r \<and>
    card (in_flight_ids r) + unat cleaned = card (in_flight_ids r') + unat n \<and>
    (cpu \<noteq> tx_owner_cpu r \<longrightarrow> freed = [])"
  using assms
proof (induction devs arbitrary: cleaned r q n r' q' freed)
  case (Cons d devs)
  let ?r = "r\<lparr> tx_cq := d (tx_cq r) \<rparr>"
  let ?c = "tx_cq ?r ! unat (cq_head r AND (cq_depth r - 1))"
  have len: "length (d (tx_cq r)) = length (tx_cq r)" using Cons.prems(2) by simp
  note w = cq_write_ok [OF Cons.prems(1) len]
  have kl: "keeps_length devs" using Cons.prems(2) by simp
  from Cons.prems(4) show ?case
  proof (cases rule: tx_poll_loop_cases)
    case stop
    with Cons.prems w show ?thesis by auto
  next
    case skip
    have a: "tx_ring_ok (cq_advance ?r)" "tx_held (cq_advance ?r) = tx_held r"
      "in_flight_ids (cq_advance ?r) = in_flight_ids r" "tx_owner_cpu (cq_advance ?r) = tx_owner_cpu r"
      using w by (simp_all add: tx_ring_ok_def cq_advance_tx_ok tx_held_def in_flight_ids_def frame_simps)
    from Cons.IH [OF a(1) kl Cons.prems(3) skip] a show ?thesis by simp
  next
    case (one r1 q1 f1 f2)
    note c = tx_complete_one_ok [OF w(1) one(2,3,4)] and f = in_flight_complete [OF w(1) one(4,2,3)]
    have b: "unat (cleaned + 1) = unat cleaned + 1" "cleaned + 1 \<le> budget"
      using u32_less_Suc [OF one(1)] by simp_all
    have o: "tx_owner_cpu r1 = tx_owner_cpu r" using tx_complete_one_frame(7) [OF one(4)] by simp
    have "card (in_flight_ids r) = card (in_flight_ids r1) + 1"
      using f w(3) by (metis card_Suc_Diff1 finite_in_flight add.commute plus_1_eq_Suc)
    with Cons.IH [OF c(1) kl b(2) one(5)] c(2,3) w f b o one(6) show ?thesis by auto
  qed
qed simp

subsection \<open>The whole poll\<close>

lemma drain_ok:
  assumes "tx_ring_ok r"
  shows "tx_ring_ok (fst (ena_tx_drain_foreign_frees r cpu))"
    "tx_held r = tx_held (fst (ena_tx_drain_foreign_frees r cpu)) + mset (snd (ena_tx_drain_foreign_frees r cpu))"
    "in_flight_ids (fst (ena_tx_drain_foreign_frees r cpu)) = in_flight_ids r"
    "tx_owner_cpu (fst (ena_tx_drain_foreign_frees r cpu)) = tx_owner_cpu r"
    "tx_cq (fst (ena_tx_drain_foreign_frees r cpu)) = tx_cq r"
    "cq_depth (fst (ena_tx_drain_foreign_frees r cpu)) = cq_depth r"
    "cq_head (fst (ena_tx_drain_foreign_frees r cpu)) = cq_head r"
    "cq_phase (fst (ena_tx_drain_foreign_frees r cpu)) = cq_phase r"
  using drain_loop_ok [OF assms, of cpu 0] assms
  by (simp_all add: ena_tx_drain_foreign_frees_def in_flight_ids_def)

lemma drain_complete_cb: "tx_complete_cb (fst (ena_tx_drain_foreign_frees r cpu)) = tx_complete_cb r"
proof -
  have one: "tx_complete_cb (fst (drain_one r i)) = tx_complete_cb r" for r i
    by (simp add: drain_one_def tx_release_def ena_ring_req_id_free_def case_prod_beta Let_def frame_simps)
  have "tx_complete_cb (fst (drain_loop cpu r i)) = tx_complete_cb r" for i
  proof (induction cpu r i rule: drain_loop.induct)
    case (1 cpu r i)
    then show ?case by (subst drain_loop.simps) (simp add: Let_def one)
  qed
  then show ?thesis by (simp add: ena_tx_drain_foreign_frees_def)
qed

definition poll_budget :: "ena_ring \<Rightarrow> u32 \<Rightarrow> u32" where
  "poll_budget r budget = (if budget = 0 then ucast (cq_depth r) else budget)"

lemma tx_poll_cases:
  assumes e: "ena_tx_poll_completions devs cpu cb budget r q = Some (rc, cnt, r', q', freed)"
    and ok: "tx_ring_ok r"
  obtains (idle) "rc = 0" "r' = r" "q' = q" "freed = []" "cnt = None \<or> cnt = Some 0"
      "\<not> hw_valid r \<or> sq_depth r \<le> free_req_count r"
    | (run) n f2 where "hw_valid r" "free_req_count r < sq_depth r"
        "tx_poll_loop devs cpu cb (poll_budget r budget) 0 (fst (ena_tx_drain_foreign_frees r cpu)) q =
          Some (n, r', q', f2)"
        "rc = sint n" "cnt = Some n" "freed = snd (ena_tx_drain_foreign_frees r cpu) @ f2"
proof (cases "hw_valid r \<and> free_req_count r < sq_depth r")
  case False
  with e tx_ok_exceptD(1) tx_ok_arrays_ne(3) ok show thesis
    by (intro idle) (auto simp: ena_tx_poll_completions_def tx_ring_ok_def not_le split: if_splits)
next
  case True
  then have nt: "\<not> sq_depth r \<le> free_req_count r" by (simp add: not_le)
  have u: "ena_tx_poll_completions devs cpu cb budget r q =
     map_option (\<lambda>(cleaned, r', q, freed').
         (sint cleaned, Some cleaned, r', q, snd (ena_tx_drain_foreign_frees r cpu) @ freed'))
       (tx_poll_loop devs cpu cb (poll_budget r budget) 0 (fst (ena_tx_drain_foreign_frees r cpu)) q)"
    using True nt
      ok [unfolded tx_ring_ok_def, THEN tx_ok_exceptD(1)]
      ok [unfolded tx_ring_ok_def, THEN tx_ok_arrays_ne(3)]
    by (simp add: ena_tx_poll_completions_def Let_def case_prod_beta poll_budget_def)
  show thesis
  proof (cases "tx_poll_loop devs cpu cb (poll_budget r budget) 0 (fst (ena_tx_drain_foreign_frees r cpu)) q")
    case None
    with e u show thesis by simp
  next
    case (Some x)
    with e u True show thesis by (cases x) (auto intro!: run)
  qed
qed

text \<open>
  Quiet completion queue: no device write during the poll.  The entry of slot \<open>k\<close> positions
  after the head is current when its phase bit is the phase of that position.
\<close>

definition cq_current :: "ena_ring \<Rightarrow> nat \<Rightarrow> bool" where
  "cq_current r k \<longleftrightarrow>
    txc_flags (tx_cq r ! unat ((cq_head r + of_nat k) AND (cq_depth r - 1))) AND
      ENA_ETH_IO_TX_CDESC_PHASE_MASK = phase_at 1 (cq_depth r) (cq_head r + of_nat k)"

lemma cq_current_step:
  "cq_head r' = cq_head r + 1 \<Longrightarrow> cq_depth r' = cq_depth r \<Longrightarrow> tx_cq r' = tx_cq r \<Longrightarrow>
    cq_current r' k = cq_current r (Suc k)"
  by (simp add: cq_current_def algebra_simps)

lemma cq_not_all_current:
  assumes "ring_depth (cq_depth r)"
  shows "\<not> cq_current r 0 \<or> \<not> cq_current r (unat (cq_depth r))"
proof -
  have "(cq_head r + cq_depth r) AND (cq_depth r - 1) = cq_head r AND (cq_depth r - 1)"
    using assms by (rule slot_add_lap)
  then show ?thesis using phase_at_lap [OF assms, of 1 "cq_head r"]
    by (simp add: cq_current_def xor_1_neq [symmetric])
qed

lemma tx_poll_loop_returns:
  assumes "tx_ring_ok r" "\<not> cq_current r k" "k < n"
  shows "\<exists>res. tx_poll_loop (replicate n (\<lambda>m. m)) cpu cb budget cleaned r q = Some res"
  using assms
proof (induction k arbitrary: n r q cleaned)
  case 0
  then obtain n' where "n = Suc n'" by (cases n) auto
  moreover have "cq.coherent r" using 0 by (simp add: tx_ring_ok_def tx_ok_except_def)
  ultimately show ?case using 0(2) by (simp add: Let_def cq_current_def cq.coherent_def)
next
  case (Suc k)
  then obtain n' where n: "n = Suc n'" and k: "k < n'" by (cases n) auto
  let ?c = "tx_cq r ! unat (cq_head r AND (cq_depth r - 1))"
  have adv: "\<exists>res. tx_poll_loop (replicate n' (\<lambda>m. m)) cpu cb budget cl r' q' = Some res"
    if "tx_ring_ok r'" "cq_head r' = cq_head r + 1" "cq_depth r' = cq_depth r" "tx_cq r' = tx_cq r"
    for r' q' cl
    using Suc.IH [OF that(1) _ k] cq_current_step [OF that(2-4), of k] Suc.prems(2) by simp
  have skip: "\<exists>res. tx_poll_loop (replicate n' (\<lambda>m. m)) cpu cb budget cl (cq_advance r) q' = Some res" for cl q'
    using adv [of "cq_advance r" cl q'] Suc.prems(1)
    by (simp add: tx_ring_ok_def cq_advance_tx_ok cq.cursor_advance frame_simps)
  have one: "\<exists>res. tx_poll_loop (replicate n' (\<lambda>m. m)) cpu cb budget cl
      (fst (tx_complete_one cpu cb ?c r q)) (fst (snd (tx_complete_one cpu cb ?c r q))) = Some res"
    if "unat (txc_req_id ?c) < unat (sq_depth r)" "req_in_flight r ! unat (txc_req_id ?c) \<noteq> 0" for cl
  proof -
    obtain r1 q1 f1 where t: "tx_complete_one cpu cb ?c r q = (r1, q1, f1)"
      by (cases "tx_complete_one cpu cb ?c r q")
    show ?thesis
      using adv [OF tx_complete_one_ok(1) [OF Suc.prems(1) that t]] tx_complete_one_frame [OF t]
      by (simp add: t)
  qed
  show ?case
    unfolding n replicate_Suc tx_poll_loop.simps Let_def case_prod_beta
    using skip one by (auto simp: word_le_nat_alt not_le)
qed

lemma tx_poll_returns:
  assumes ok: "tx_ring_ok r" and n: "unat (cq_depth r) < n"
  shows "\<exists>res. ena_tx_poll_completions (replicate n (\<lambda>m. m)) cpu cb budget r q = Some res"
proof -
  let ?r = "fst (ena_tx_drain_foreign_frees r cpu)"
  note d = drain_ok [OF ok, of cpu]
  have "ring_depth (cq_depth ?r)" using d(1) tx_ok_exceptD(4) by (simp add: tx_ring_ok_def)
  then obtain k where "\<not> cq_current ?r k" "k < n"
    using cq_not_all_current [of ?r] n d(6) by force
  then have "\<exists>res. tx_poll_loop (replicate n (\<lambda>m. m)) cpu cb (poll_budget r budget) 0 ?r q = Some res"
    by (rule tx_poll_loop_returns [OF d(1)])
  then obtain res where
    "tx_poll_loop (replicate n (\<lambda>m. m)) cpu cb (poll_budget r budget) 0 ?r q = Some res" by (rule exE)
  then show ?thesis
    unfolding ena_tx_poll_completions_def Let_def case_prod_beta by (simp add: poll_budget_def)
qed

subsection \<open>The loop on posted completions\<close>

text \<open>
  The device posted completions for the ids \<open>ids\<close>, in this order, from the head on, and
  nothing after them.
\<close>

definition cq_posts :: "ena_ring \<Rightarrow> u16 list \<Rightarrow> bool" where
  "cq_posts r ids \<longleftrightarrow>
    (\<forall>j<length ids. cq_current r j \<and>
      txc_req_id (tx_cq r ! unat ((cq_head r + of_nat j) AND (cq_depth r - 1))) = ids ! j) \<and>
    \<not> cq_current r (length ids)"

lemma cq_posts_Nil: "cq_posts r [] \<longleftrightarrow> \<not> cq_current r 0"
  by (simp add: cq_posts_def)

lemma cq_posts_Cons:
  assumes "cq_head r' = cq_head r + 1" "cq_depth r' = cq_depth r" "tx_cq r' = tx_cq r"
  shows "cq_posts r (i # ids) \<longleftrightarrow> cq_current r 0 \<and>
    txc_req_id (tx_cq r ! unat (cq_head r AND (cq_depth r - 1))) = i \<and> cq_posts r' ids"
proof -
  have s: "(\<forall>j<Suc n. P j) \<longleftrightarrow> P 0 \<and> (\<forall>j<n. P (Suc j))" for P n
    by (metis less_Suc_eq_0_disj)
  show ?thesis
    using assms by (simp add: cq_posts_def s cq_current_step [OF assms] algebra_simps)
qed

lemma tx_poll_loop_posted:
  assumes "tx_ring_ok r" "cq_posts r ids" "distinct ids"
    and "\<forall>i\<in>set ids. unat i \<in> in_flight_ids r"
    and "unat cleaned + length ids \<le> unat budget" "length ids < n"
  shows "\<exists>r' freed. tx_poll_loop (replicate n (\<lambda>m. m)) cpu cb budget cleaned r q =
      Some (cleaned + of_nat (length ids), r', if tx_complete_cb r then foldl cb q ids else q, freed) \<and>
    in_flight_ids r' = in_flight_ids r - unat ` set ids"
  using assms
proof (induction ids arbitrary: n r q cleaned)
  case Nil
  then obtain n' where n: "n = Suc n'" by (cases n) auto
  have "cq.coherent r" using Nil by (simp add: tx_ring_ok_def tx_ok_except_def)
  with Nil.prems(2) show ?case
    by (auto simp: n Let_def cq_posts_Nil cq_current_def cq.coherent_def in_flight_ids_def)
next
  case (Cons i ids)
  then obtain n' where n: "n = Suc n'" and n': "length ids < n'" by (cases n) auto
  let ?c = "tx_cq r ! unat (cq_head r AND (cq_depth r - 1))"
  obtain r1 q1 f1 where t: "tx_complete_one cpu cb ?c r q = (r1, q1, f1)"
    by (cases "tx_complete_one cpu cb ?c r q")
  note F = tx_complete_one_frame [OF t]
  have p: "cq_current r 0" "txc_req_id ?c = i" "cq_posts r1 ids"
    using cq_posts_Cons [OF F(5) F(4) F(3)] Cons.prems(2) by simp_all
  have i: "unat (txc_req_id ?c) < unat (sq_depth r)" "req_in_flight r ! unat (txc_req_id ?c) \<noteq> 0"
    using Cons.prems(4) p(2) by (simp_all add: in_flight_ids_def)
  note C = tx_complete_one_ok [OF Cons.prems(1) i t] and I = in_flight_complete [OF Cons.prems(1) t i]
  have b: "cleaned < budget" using Cons.prems(5) by (simp add: word_less_nat_alt)
  then have b1: "unat (cleaned + 1) + length ids \<le> unat budget"
    using u32_less_Suc [OF b] Cons.prems(5) by simp
  have ne: "req_in_flight r \<noteq> []"
    using tx_ok_arrays_ne(4) Cons.prems(1) by (simp add: tx_ring_ok_def)
  have cb: "tx_complete_cb r1 = tx_complete_cb r"
    by (rule F(9))
  have ph: "txc_flags ?c AND ENA_ETH_IO_TX_CDESC_PHASE_MASK = cq_phase r"
    using p(1) Cons.prems(1) by (simp add: cq_current_def tx_ring_ok_def tx_ok_except_def cq.coherent_def)
  have "\<forall>j\<in>set ids. unat j \<in> in_flight_ids r1" using Cons.prems(3,4) I p(2) by auto
  from Cons.IH [OF C(1) p(3) _ this b1 n', of q1] Cons.prems(3) obtain r' freed where
    L: "tx_poll_loop (replicate n' (\<lambda>m. m)) cpu cb budget (cleaned + 1) r1 q1 =
      Some (cleaned + 1 + of_nat (length ids), r', if tx_complete_cb r then foldl cb q1 ids else q1, freed)"
    and in': "in_flight_ids r' = in_flight_ids r1 - unat ` set ids"
    by (auto simp: cb)
  have "\<not> sq_depth r \<le> txc_req_id ?c" using i by (simp add: word_le_nat_alt)
  then have "tx_poll_loop (replicate n (\<lambda>m. m)) cpu cb budget cleaned r q =
      Some (cleaned + of_nat (length (i # ids)), r',
        if tx_complete_cb r then foldl cb q (i # ids) else q, f1 @ freed)"
    using b ne i ph t L C(4) by (simp add: n Let_def p(2) add.assoc)
  with in' I p(2) show ?case by auto
qed

subsection \<open>Releases stay on the owning core\<close>

lemma drain_loop_foreign:
  assumes "\<forall>e\<in>set (take (unat (tx_foreign_count r)) (tx_foreign r)). ff_owner_cpu e \<noteq> cpu"
    and "unat (tx_foreign_count r) \<le> length (tx_foreign r)"
  shows "drain_loop cpu r i = (r, [])"
  using assms
proof (induction cpu r i rule: drain_loop.induct)
  case (1 cpu r i)
  show ?case
  proof (cases "i < tx_foreign_count r")
    case True
    then have "tx_foreign r ! unat i \<in> set (take (unat (tx_foreign_count r)) (tx_foreign r))"
      using 1(4) by (auto simp: in_set_conv_nth word_less_nat_alt intro!: exI [of _ "unat i"])
    with 1(3) have "ff_owner_cpu (tx_foreign r ! unat i) \<noteq> cpu" by blast
    with 1 True show ?thesis by (subst drain_loop.simps) simp
  next
    case False
    then show ?thesis by (subst drain_loop.simps) simp
  qed
qed

subsection \<open>What the device reads from a transmit descriptor\<close>

definition desc_req_id :: "ena_eth_io_tx_desc \<Rightarrow> u16" where
  "desc_req_id d = push_bit 10 (ucast (drop_bit 16 (len_ctrl d) AND 0x3F)) OR ucast (drop_bit 22 (meta_ctrl d))"

definition desc_len :: "ena_eth_io_tx_desc \<Rightarrow> u32" where
  "desc_len d = len_ctrl d AND 0xFFFF"

definition desc_phase :: "ena_eth_io_tx_desc \<Rightarrow> bool" where
  "desc_phase d \<longleftrightarrow> bit (len_ctrl d) 24"

definition desc_addr :: "ena_eth_io_tx_desc \<Rightarrow> u64" where
  "desc_addr d = ucast (txd_buff_addr_lo d) OR push_bit 32 (ucast (buff_addr_hi_hdr_sz d AND 0xFFFF))"

lemma len_ctrl_bits:
  "n < 32 \<Longrightarrow> bit (tx_len_ctrl len i ph) n \<longleftrightarrow>
    (n < 16 \<and> bit len n) \<or> (16 \<le> n \<and> n < 22 \<and> bit i (n - 6)) \<or> (n = 24 \<and> ph \<noteq> 0) \<or>
    n = 26 \<or> n = 27 \<or> n = 28"
  by (cases "ph = 0"; simp only: tx_len_ctrl_def Let_def ena_consts word_bit_iffs simp_thms; simp; safe; simp?)

lemma meta_ctrl_bits:
  "22 \<le> n \<Longrightarrow> n < 32 \<Longrightarrow> bit (tx_meta_ctrl i pkt) n \<longleftrightarrow> bit i (n - 22)"
  unfolding tx_meta_ctrl_def Let_def ena_consts
  by (simp only: word_bit_iffs if_distrib [of "\<lambda>x. bit x n"] cong: if_cong) auto

lemma u32_high_bits: "x \<le> 0xFFFF \<Longrightarrow> 16 \<le> n \<Longrightarrow> \<not> bit x n" for x :: u32
proof -
  assume "x \<le> 0xFFFF" "16 \<le> n"
  then have "take_bit 16 (unat x) = unat x" by (simp add: word_le_nat_alt take_bit_nat_eq_self)
  then have "take_bit 16 x = x" by (metis unsigned_take_bit_eq unat_inj)
  with \<open>16 \<le> n\<close> show ?thesis by (metis bit_take_bit_iff not_le)
qed

lemma desc_len_of_pkt: "tp_len pkt \<le> 0xFFFF \<Longrightarrow> desc_len (tx_desc_of_pkt i ph pkt) = tp_len pkt"
proof (rule bit_word_eqI)
  fix n :: nat
  assume a: "tp_len pkt \<le> 0xFFFF" and n: "n < LENGTH(32)"
  have "bit (desc_len (tx_desc_of_pkt i ph pkt)) n \<longleftrightarrow> bit (tx_len_ctrl (tp_len pkt) i ph) n \<and> n < 16"
    by (simp only: desc_len_def tx_desc_of_pkt_def ena_eth_io_tx_desc.select_convs word_bit_iffs)
  with n u32_high_bits [OF a, of n]
  show "bit (desc_len (tx_desc_of_pkt i ph pkt)) n \<longleftrightarrow> bit (tp_len pkt) n"
    by (auto simp: len_ctrl_bits not_less)
qed

lemma desc_phase_of_pkt: "desc_phase (tx_desc_of_pkt i ph pkt) \<longleftrightarrow> ph \<noteq> 0"
  by (simp add: desc_phase_def tx_desc_of_pkt_def len_ctrl_bits)

lemma desc_req_id_of_pkt: "desc_req_id (tx_desc_of_pkt i ph pkt) = i"
proof (rule bit_word_eqI)
  fix n :: nat
  assume n: "n < LENGTH(16)"
  have "bit (desc_req_id (tx_desc_of_pkt i ph pkt)) n \<longleftrightarrow>
      10 \<le> n \<and> bit (tx_len_ctrl (tp_len pkt) i ph) (16 + (n - 10)) \<and> n - 10 < 6 \<or>
      bit (tx_meta_ctrl i pkt) (22 + n)"
    using n by (simp only: desc_req_id_def tx_desc_of_pkt_def ena_eth_io_tx_desc.select_convs word_bit_iffs)
      auto
  moreover have "bit (tx_meta_ctrl i pkt) (22 + n) \<longleftrightarrow> n < 10 \<and> bit i n"
    using meta_ctrl_bits [of "22 + n" i pkt] bit_imp_le_length [of "tx_meta_ctrl i pkt" "22 + n"]
    by (cases "n < 10") auto
  moreover have "bit (tx_len_ctrl (tp_len pkt) i ph) (16 + (n - 10)) \<longleftrightarrow> bit i n" if "10 \<le> n"
    using len_ctrl_bits [of "16 + (n - 10)" "tp_len pkt" i ph] that n by auto
  ultimately show "bit (desc_req_id (tx_desc_of_pkt i ph pkt)) n \<longleftrightarrow> bit i n"
    using n by auto
qed

lemma desc_addr_of_pkt: "desc_addr (tx_desc_of_pkt i ph pkt) = take_bit 48 (tp_phys_addr pkt)"
proof (rule bit_word_eqI)
  fix n :: nat
  assume "n < LENGTH(64)"
  then show "bit (desc_addr (tx_desc_of_pkt i ph pkt)) n \<longleftrightarrow> bit (take_bit 48 (tp_phys_addr pkt)) n"
    by (simp only: desc_addr_def tx_desc_of_pkt_def ena_eth_io_tx_desc.select_convs word_bit_iffs) auto
qed

subsection \<open>A concrete ring\<close>

text \<open>A four-entry transmit ring, one packet submitted by core 1, and its completion.\<close>

definition ex_tx_ring :: ena_ring where
  "ex_tx_ring = the (fst (snd (ena_ring_alloc (\<lambda>_. Some 0x1000) 0 ENA_RING_TYPE_TX 4 4 [])))"

definition ex_pkt :: ena_tx_pkt where
  "ex_pkt = \<lparr> tp_netbuf = Some 7, tp_phys_addr = 0x123456789A, tp_len = 60, tp_l3_proto = 8,
     tp_l4_proto = 12, tp_l3_csum_en = True, tp_l4_csum_en = True, tp_df = False, tp_tso_en = False \<rparr>"

definition ex_tx_busy :: ena_ring where
  "ex_tx_busy = snd (snd (ena_tx_submit 1 ex_tx_ring ex_pkt))"

definition ex_tx_post :: tx_cq_write where
  "ex_tx_post m = m[0 := \<lparr> txc_req_id = 0, txc_status = 0, txc_flags = 1, txc_sub_qid = 0,
     sq_head_idx = 1 \<rparr>]"

definition ex_tx_posted :: ena_ring where
  "ex_tx_posted = ex_tx_busy\<lparr> tx_cq := ex_tx_post (tx_cq ex_tx_busy) \<rparr>"

lemma ex_tx_alloc: "ena_ring_alloc (\<lambda>_. Some 0x1000) 0 ENA_RING_TYPE_TX 4 4 [] =
    (0, Some ex_tx_ring,
     [B_foreign, B_head_wb, B_allocated, B_in_flight, B_bufs, B_free_req_ids, B_cq, B_sq, B_ring])"
  by code_simp

lemma ex_tx_submit: "ena_tx_submit 1 ex_tx_ring ex_pkt = (0, Some 0, ex_tx_busy)"
  by code_simp

lemma ex_tx_ring_ok: "tx_ring_ok ex_tx_ring"
  by (rule tx_alloc_ok [OF ex_tx_alloc])

lemma ex_tx_busy_ok: "tx_ring_ok ex_tx_busy"
  by (rule tx_submit_ok(1) [OF ex_tx_ring_ok ex_tx_submit])

lemma ex_tx_posted_ok: "tx_ring_ok ex_tx_posted"
  unfolding ex_tx_posted_def by (rule cq_write_ok(1) [OF ex_tx_busy_ok]) (simp add: ex_tx_post_def)

lemma ex_tx_busy_held: "tx_held ex_tx_busy = {#7#}"
proof -
  have "map tb_netbuf (tx_bufs ex_tx_busy) = [Some 7, None, None, None]" by code_simp
  moreover have "tx_held r = sum_list (map opt_mset (map tb_netbuf (tx_bufs r)))" for r
    by (simp add: tx_held_def comp_def)
  ultimately show ?thesis by (simp only:) simp
qed

subsection \<open>Properties\<close>

text \<open>C1: A completion poll keeps the transmit ring invariant and conserves packet buffers,
  whatever the device writes to the completion queue while the poll runs: the buffers the ring
  held before are exactly those it holds afterwards together with those released, so no buffer
  is leaked or released twice.\<close>

theorem tx_poll_conserves:
  assumes "tx_ring_ok r" and "keeps_length devs"
    and "ena_tx_poll_completions devs cpu cb budget r q = Some (rc, cnt, r', q', freed)"
  shows "tx_ring_ok r' \<and> tx_held r = tx_held r' + mset freed"
  using assms(3,1)
proof (cases rule: tx_poll_cases)
  case (run n f2)
  note d = drain_ok [OF assms(1), of cpu]
  from tx_poll_loop_ok [OF d(1) assms(2) _ run(3)] d(2) run(6) show ?thesis by (simp add: ac_simps)
qed (use assms in simp)

theorem tx_poll_conserves_witness:
  "tx_ring_ok ex_tx_busy \<and>
    (\<exists>r'. ena_tx_poll_completions [ex_tx_post, \<lambda>m. m] 1 (\<lambda>q i. q @ [i]) 0 ex_tx_busy [] =
        Some (1, Some 1, r', [], [7]) \<and> tx_ring_ok r' \<and> tx_held ex_tx_busy = tx_held r' + {#7#})"
proof -
  let ?p = "ena_tx_poll_completions [ex_tx_post, \<lambda>m. m] 1 (\<lambda>q i. q @ [i]) 0 ex_tx_busy []"
  have k: "keeps_length [ex_tx_post, \<lambda>m. m]" by (simp add: ex_tx_post_def)
  have "map_option (\<lambda>(rc, cnt, r, q, freed). (rc, cnt, q, freed)) ?p = Some (1, Some 1, [], [7])"
    by code_simp
  then obtain r' where "?p = Some (1, Some 1, r', [], [7])" by auto
  with tx_poll_conserves [OF ex_tx_busy_ok k this] k ex_tx_busy_ok show ?thesis by auto
qed

text \<open>C17: The count a poll returns is the number of requests that left the in-flight set, it
  never exceeds the budget (a zero budget stands for the queue depth), and a poll never puts a
  request in flight.\<close>

theorem tx_poll_count:
  assumes "tx_ring_ok r" and "keeps_length devs"
    and "ena_tx_poll_completions devs cpu cb budget r q = Some (rc, Some n, r', q', freed)"
  shows "card (in_flight_ids r) = card (in_flight_ids r') + unat n \<and>
    n \<le> (if budget = 0 then ucast (cq_depth r) else budget) \<and> in_flight_ids r' \<subseteq> in_flight_ids r"
  using assms(3,1)
proof (cases rule: tx_poll_cases)
  case (run m f2)
  note d = drain_ok [OF assms(1), of cpu]
  from tx_poll_loop_ok [OF d(1) assms(2) _ run(3)] d(3) run(5) show ?thesis
    by (simp add: poll_budget_def)
qed simp

theorem tx_poll_count_witness:
  "tx_ring_ok ex_tx_busy \<and> (\<exists>r' freed. ena_tx_poll_completions [ex_tx_post, \<lambda>m. m] 2 (\<lambda>q i. q) 3 ex_tx_busy ()
      = Some (1, Some 1, r', (), freed) \<and> card (in_flight_ids ex_tx_busy) = card (in_flight_ids r') + 1)"
proof -
  let ?p = "ena_tx_poll_completions [ex_tx_post, \<lambda>m. m] 2 (\<lambda>q i. q) 3 ex_tx_busy ()"
  have k: "keeps_length [ex_tx_post, \<lambda>m. m]" by (simp add: ex_tx_post_def)
  have "map_option (\<lambda>(rc, cnt, r, q, freed). (rc, cnt)) ?p = Some (1, Some 1)" by code_simp
  then obtain r' freed where "?p = Some (1, Some 1, r', (), freed)" by auto
  with tx_poll_count [OF ex_tx_busy_ok k this] ex_tx_busy_ok show ?thesis by auto
qed



text \<open>C16: A poll over a quiet completion queue returns after at most one lap, whatever the
  queue contains: the phase bit of the slot it started from is stale one lap later.\<close>

theorem tx_poll_terminates:
  assumes "tx_ring_ok r"
  shows "\<exists>res. ena_tx_poll_completions (replicate (unat (cq_depth r) + 1) (\<lambda>m. m)) cpu cb budget r q = Some res"
  using assms by (rule tx_poll_returns) simp

theorem tx_poll_terminates_witness:
  "\<exists>res. ena_tx_poll_completions (replicate 5 (\<lambda>m. m)) 1 (\<lambda>q i. q) 0 ex_tx_posted () = Some res"
proof -
  have "unat (cq_depth ex_tx_posted) = 4" by code_simp
  then show ?thesis
    using tx_poll_terminates [OF ex_tx_posted_ok, where cpu = 1 and cb = "\<lambda>q i. q" and budget = 0 and q = "()"]
    by simp
qed



text \<open>C14: The result of a submission on every branch.  On an invalid queue, a length outside
  1 to 65535, or an exhausted pool it fails with the corresponding code and changes nothing;
  otherwise it takes a free request id, which is then in flight, and records the packet under
  it.\<close>

theorem tx_submit_result:
  assumes "tx_ring_ok r"
  shows "case ena_tx_submit cpu r pkt of (rc, o_id, r') \<Rightarrow>
    rc = (if \<not> hw_valid r then - ENODEV
          else if tp_len pkt = 0 \<or> 0xFFFF < tp_len pkt then - EINVAL
          else if free_req_count r = 0 then - EBUSY else 0) \<and>
    (if rc = 0 then
       (\<exists>i. o_id = Some i \<and> unat i \<in> in_flight_ids r' \<and> unat i \<notin> allocated_ids r \<and>
         tx_bufs r' ! unat i = tx_buffer_of_pkt i pkt \<and>
         unat (free_req_count r') = unat (free_req_count r) - 1)
     else o_id = None \<and> r' = r) \<and> tx_ring_ok r'"
proof -
  note D = tx_ok_exceptD [OF assms [unfolded tx_ring_ok_def]]
  obtain rc o_id r' where s: "ena_tx_submit cpu r pkt = (rc, o_id, r')"
    by (cases "ena_tx_submit cpu r pkt")
  have rc: "rc = (if \<not> hw_valid r then - ENODEV
          else if tp_len pkt = 0 \<or> 0xFFFF < tp_len pkt then - EINVAL
          else if free_req_count r = 0 then - EBUSY else 0)"
    using s D(1) by (auto simp: ena_tx_submit_def ena_ring_req_id_alloc_def Let_def split: if_splits)
  from tx_submit_cases [OF s] show ?thesis
  proof
    assume "rc = 0 \<and> (\<exists>i. o_id = Some i)"
    then obtain i where i: "o_id = Some i" "rc = 0" by auto
    with s have s': "ena_tx_submit cpu r pkt = (0, Some i, r')" by simp
    note S = tx_submit_success [OF assms s'] and ok = tx_submit_ok(1) [OF assms s']
    have u: "unat i < unat (sq_depth r)" "req_allocated r ! unat i = 0"
      using pop_id_free [OF D(2) S(2)] by (simp_all add: S(1))
    have "free_req_count r' = free_req_count r - 1"
      unfolding S(6) using rp.pop_fields [OF S(2)] by (simp add: frame_simps)
    with unat_pred_u16 [OF S(2)] have "unat (free_req_count r') = unat (free_req_count r) - 1" by simp
    moreover have "tx_bufs r' ! unat i = tx_buffer_of_pkt i pkt"
      unfolding S(6) using u D(5) by (simp add: frame_simps)
    moreover have "unat i \<in> in_flight_ids r'"
      unfolding S(6) using u D(9) by (simp add: in_flight_ids_def frame_simps)
    ultimately show ?thesis using s' u ok rc i by (auto simp: allocated_ids_def)
  next
    assume "rc \<in> {- EINVAL, - ENODEV, - EBUSY} \<and> o_id = None \<and> r' = r"
    then show ?thesis
      using s rc assms by (auto simp: EINVAL_def ENODEV_def EBUSY_def)
  qed
qed

theorem tx_submit_result_witness:
  "tx_ring_ok ex_tx_ring \<and> fst (ena_tx_submit 1 ex_tx_ring ex_pkt) = 0 \<and>
    (\<exists>i. fst (snd (ena_tx_submit 1 ex_tx_ring ex_pkt)) = Some i \<and> unat i \<in> in_flight_ids ex_tx_busy)"
  using tx_submit_result [OF ex_tx_ring_ok, where cpu = 1 and pkt = ex_pkt] ex_tx_ring_ok by (simp add: ex_tx_submit)

text \<open>C15: The descriptor a submission writes tells the device the request: the slot at the
  producer index carries the request id, the length, the current phase and the low 48 bits of
  the buffer address.\<close>

theorem tx_submit_descriptor:
  assumes "tx_ring_ok r" and "ena_tx_submit cpu r pkt = (0, Some i, r')"
  shows "let d = tx_sq r' ! unat (sq_tail r AND (sq_depth r - 1)) in
    desc_req_id d = i \<and> desc_len d = tp_len pkt \<and>
    (desc_phase d \<longleftrightarrow> phase_at 1 (sq_depth r) (sq_tail r) = 1) \<and>
    desc_addr d = take_bit 48 (tp_phys_addr pkt) \<and> sq_tail r' = sq_tail r + 1"
proof -
  note D = tx_ok_exceptD [OF assms(1) [unfolded tx_ring_ok_def]] and S = tx_submit_success [OF assms]
  have "unat (sq_tail r AND (sq_depth r - 1)) < length (tx_sq r)" using D(3,6) by simp
  then have d: "tx_sq r' ! unat (sq_tail r AND (sq_depth r - 1)) = tx_desc_of_pkt i (sq_phase r) pkt"
    unfolding S(6) by (simp add: frame_simps)
  have "sq_phase r = phase_at 1 (sq_depth r) (sq_tail r)"
    using assms(1) by (simp add: tx_ring_ok_def tx_ok_except_def sq.coherent_def)
  then have "sq_phase r \<noteq> 0 \<longleftrightarrow> phase_at 1 (sq_depth r) (sq_tail r) = 1" by (simp add: phase_at_def)
  moreover have "sq_tail r' = sq_tail r + 1"
    unfolding S(6) by (simp add: sq.cursor_advance frame_simps)
  ultimately show ?thesis
    using S(5) by (simp add: d desc_req_id_of_pkt desc_len_of_pkt desc_phase_of_pkt desc_addr_of_pkt)
qed

theorem tx_submit_descriptor_witness:
  "ena_tx_submit 1 ex_tx_ring ex_pkt = (0, Some 0, ex_tx_busy) \<and>
    desc_len (tx_sq ex_tx_busy ! 0) = 60 \<and> desc_req_id (tx_sq ex_tx_busy ! 0) = 0"
proof -
  have "unat (sq_tail ex_tx_ring AND (sq_depth ex_tx_ring - 1)) = 0" by code_simp
  then show ?thesis
    using tx_submit_descriptor [OF ex_tx_ring_ok ex_tx_submit] ex_tx_submit
    by (simp add: Let_def ex_pkt_def)
qed

end
