(* ===== verification/Ena_Llq_Props.thy ===== *)
theory Ena_Llq_Props
  imports Ena_Llq Ena_Context Ena_Tx_Poll
begin

text \<open>
  Correctness of a push into a low-latency queue: the ring invariant, the window of device
  memory it writes to, and the bytes of the entry.
\<close>

subsection \<open>The entry\<close>

lemma length_tx_desc_bytes [simp]: "length (tx_desc_bytes d) = 16"
  by (simp add: tx_desc_bytes_def le32_def)

lemma llq_entry_eq:
  assumes "length h = unat hdr_len" and "unat hdr_len \<le> 240"
  shows "llq_entry d (Some h) hdr_len = tx_desc_bytes d @ h @ replicate (240 - unat hdr_len) 0"
  using assms by (simp add: llq_entry_def mem_write_def Let_def word_gt_0) auto

lemma concat_words: "concat (map (\<lambda>i. take w (drop (w * i) xs)) [0..<n]) = take (w * n) xs"
proof (induction n)
  case (Suc n)
  have "take (w * n) xs @ take w (drop (w * n) xs) = take (w * n + w) xs" by (simp add: take_add)
  with Suc show ?case by (simp add: add.commute)
qed simp

lemma llq_copy_bytes: "8 dvd unat e \<Longrightarrow> concat (map snd (llq_copy dest e buf)) = take (unat e) buf"
  using concat_words [of 8 buf "unat e div 8"] by (simp add: llq_copy_def comp_def)

lemma llq_copy_window:
  assumes "(off, bs) \<in> set (llq_copy dest e buf)"
  shows "dest \<le> off \<and> off + 8 \<le> dest + unat e \<and> length bs \<le> 8"
proof -
  from assms obtain i where i: "i < unat e div 8" "off = dest + 8 * i" "bs = take 8 (drop (8 * i) buf)"
    by (auto simp: llq_copy_def)
  then have "8 * (i + 1) \<le> 8 * (unat e div 8)" by (intro mult_le_mono) auto
  also have "\<dots> \<le> unat e" by simp
  finally show ?thesis using i by simp
qed

subsection \<open>The ring\<close>

lemma llq_push_room:
  assumes ok: "tx_ring_ok r" and e: "ena_llq_tx_push cpu has r pkt hdr hdr_len = (rc, o_id, r', eff)"
    and u: "\<not> llq_header_cap r < ucast hdr_len" "\<not> llq_unusable r" "free_req_count r \<noteq> 0"
      "\<not> (0 < push_buf_size r \<and>
        unat (push_buf_size r) < (unat (sq_tail r AND (sq_depth r - 1)) + 1) * unat (llq_entry_size_of r))"
    and i: "i = free_req_ids r ! unat (free_req_head r)"
  shows "rc = 0" "o_id = Some i"
    "r' = (tx_post i (tx_buffer_of_pkt i pkt) (tx_sq r) r)\<lparr> tx_packets := tx_packets r + 1,
       tx_bytes := tx_bytes r + ucast (tp_len pkt) \<rparr>"
    "le_push eff = llq_copy (unat (the (push_buf_virt r)) +
       unat (sq_tail r AND (sq_depth r - 1)) * unat (llq_entry_size_of r)) (llq_entry_size_of r)
       (llq_entry (llq_desc i (sq_phase r) pkt hdr_len) hdr hdr_len)"
proof -
  note D = tx_ok_exceptD [OF ok [unfolded tx_ring_ok_def]]
  have ne: "req_in_flight r \<noteq> []" using ok tx_ok_arrays_ne by (simp add: tx_ring_ok_def)
  have a: "ena_ring_req_id_alloc r = (0, i, req_id_pop r)" using u(3) i by (simp add: ena_ring_req_id_alloc_def)
  have g: "llq_entry_size_of (req_id_pop r) = llq_entry_size_of r" "push_buf_virt (req_id_pop r) = push_buf_virt r"
    "tx_packets (sq_advance t) = tx_packets t" "tx_bytes (sq_advance t) = tx_bytes t"
    "tx_packets (req_id_pop r) = tx_packets r" "tx_bytes (req_id_pop r) = tx_bytes r" for t
    by (simp_all add: sq_advance_def req_id_pop_def Let_def llq_entry_size_of_def)
  have sq: "(req_id_pop r)\<lparr> req_in_flight := x, tx_bufs := y, tx_sq := tx_sq r \<rparr> =
      (req_id_pop r)\<lparr> req_in_flight := x, tx_bufs := y \<rparr>" for x y
    by (simp add: req_id_pop_def Let_def)
  note F = ena_llq_tx_push_def llq_no_effects_def Let_def frame_simps g tx_post_def sq
  show "rc = 0" "o_id = Some i"
    "r' = (tx_post i (tx_buffer_of_pkt i pkt) (tx_sq r) r)\<lparr> tx_packets := tx_packets r + 1,
       tx_bytes := tx_bytes r + ucast (tp_len pkt) \<rparr>"
    "le_push eff = llq_copy (unat (the (push_buf_virt r)) +
       unat (sq_tail r AND (sq_depth r - 1)) * unat (llq_entry_size_of r)) (llq_entry_size_of r)
       (llq_entry (llq_desc i (sq_phase r) pkt hdr_len) hdr hdr_len)"
    using e D(1) u a ne by (auto simp: F)
qed

lemma llq_push_cases:
  assumes ok: "tx_ring_ok r" and e: "ena_llq_tx_push cpu has r pkt hdr hdr_len = (rc, o_id, r', eff)"
  obtains (refused) "rc < 0" "r' = r" "le_push eff = []" "o_id = None"
    | (host) "llq_unusable r" "ena_tx_submit cpu r pkt = (0, o_id, r')" "rc = 0" "le_push eff = []"
    | (push) i where "\<not> llq_unusable r" "rc = 0" "o_id = Some i" "free_req_count r \<noteq> 0"
        "i = free_req_ids r ! unat (free_req_head r)" "\<not> llq_header_cap r < ucast hdr_len"
        "r' = (tx_post i (tx_buffer_of_pkt i pkt) (tx_sq r) r)\<lparr> tx_packets := tx_packets r + 1,
           tx_bytes := tx_bytes r + ucast (tp_len pkt) \<rparr>"
        "le_push eff = llq_copy (unat (the (push_buf_virt r)) +
           unat (sq_tail r AND (sq_depth r - 1)) * unat (llq_entry_size_of r)) (llq_entry_size_of r)
           (llq_entry (llq_desc i (sq_phase r) pkt hdr_len) hdr hdr_len)"
proof -
  note D = tx_ok_exceptD [OF ok [unfolded tx_ring_ok_def]]
  let ?slot = "unat (sq_tail r AND (sq_depth r - 1))"
  consider (ref) "llq_header_cap r < ucast hdr_len"
    | (hst) "\<not> llq_header_cap r < ucast hdr_len" "llq_unusable r"
    | (psh) "\<not> llq_header_cap r < ucast hdr_len" "\<not> llq_unusable r" by fastforce
  then show thesis
  proof cases
    case ref
    with e D(1) show thesis by (intro refused) (auto simp: ena_llq_tx_push_def llq_no_effects_def EINVAL_def)
  next
    case hst
    obtain a b c where s: "ena_tx_submit cpu r pkt = (a, b, c)" by (cases "ena_tx_submit cpu r pkt")
    have f: "rc = a" "o_id = b" "r' = c" "le_push eff = []"
      using e D(1) hst s by (auto simp: ena_llq_tx_push_def llq_fallback_def llq_no_effects_def Let_def)
    show thesis
    proof (cases "a = 0")
      case True
      with s f hst show thesis by (intro host) simp_all
    next
      case False
      with f tx_submit_cases [OF s] show thesis by (intro refused) (auto simp: EINVAL_def ENODEV_def EBUSY_def)
    qed
  next
    case psh
    show thesis
    proof (cases "free_req_count r = 0 \<or> 0 < push_buf_size r \<and>
        unat (push_buf_size r) < (?slot + 1) * unat (llq_entry_size_of r)")
      case True
      with e D(1) psh show thesis
        by (intro refused) (auto simp: ena_llq_tx_push_def llq_no_effects_def EINVAL_def EBUSY_def Let_def split: if_splits)
    next
      case False
      with psh show thesis using llq_push_room [OF ok e psh _ _ refl] by (intro push [OF psh(2) _ _ _ refl psh(1)]) simp_all
    qed
  qed
qed

lemma llq_push_window:
  assumes ok: "tx_ring_ok r" and db: "db_ok a r" and u: "\<not> llq_unusable r" and sz: "0 < push_buf_size r"
    and m: "(off, bs) \<in> set (llq_copy (unat (the (push_buf_virt r)) +
      unat (sq_tail r AND (sq_depth r - 1)) * unat (llq_entry_size_of r)) (llq_entry_size_of r) buf)"
  shows "unat (the (push_buf_virt r)) \<le> off \<and>
    off + 8 \<le> unat (the (push_buf_virt r)) + unat (push_buf_size r) \<and> off + 8 \<le> bar2_size a"
proof -
  let ?d = "unat (sq_depth r)" and ?e = "unat (llq_entry_size_of r)" and ?k = "unat (sq_tail r AND (sq_depth r - 1))"
  have "?k < ?d" using tx_ok_exceptD(3) [OF ok [unfolded tx_ring_ok_def]] by simp
  then have "(?k + 1) * ?e \<le> ?d * ?e" by (intro mult_le_mono1) simp
  also have "\<dots> \<le> unat (push_buf_size r)" using u sz by (simp add: llq_unusable_def not_less)
  finally have "?k * ?e + ?e \<le> unat (push_buf_size r)" by simp
  moreover have "unat (the (push_buf_virt r)) + unat (push_buf_size r) \<le> bar2_size a"
    using db u by (auto simp: db_ok_def llq_unusable_def)
  ultimately show ?thesis using llq_copy_window [OF m] by linarith
qed

subsection \<open>A concrete ring\<close>

text \<open>A ring of four entries of 128 bytes at the start of a BAR 2 of 4 KB, and a packet with a short header.\<close>

definition ex_llq_ring :: ena_ring where
  "ex_llq_ring = ex_tx_ring\<lparr> is_llq := True, push_buf_virt := Some 0x100, push_buf_size := 512,
     llq_entry_size := 128, llq_header_len := 96, hw_valid := True \<rparr>"

definition ex_llq_adapter :: ena_adapter where
  "ex_llq_adapter = adapter_zero\<lparr> bar0_size := 0x4000, bar2_size := 0x1000 \<rparr>"

definition ex_header :: "u8 list" where
  "ex_header = [1, 2, 3, 4]"

lemma ex_llq_ok: "tx_ring_ok ex_llq_ring"
  unfolding ex_llq_ring_def tx_ring_ok_def
  using ex_tx_ring_ok [unfolded tx_ring_ok_def]
  by (subst tx_same_ok [of _ ex_tx_ring]) (simp_all add: tx_same_def sq.coherent_def cq.coherent_def)

lemma ex_llq_db: "db_ok ex_llq_adapter ex_llq_ring"
proof -
  have "sq_db ex_tx_ring = None \<and> cq_db ex_tx_ring = None" by code_simp
  then show ?thesis by (simp add: db_ok_def ex_llq_ring_def ex_llq_adapter_def)
qed

lemma ex_llq_usable: "\<not> llq_unusable ex_llq_ring" by code_simp

lemma ex_llq_push:
  "\<exists>r' eff. ena_llq_tx_push 1 (\<lambda>_. True) ex_llq_ring ex_pkt (Some ex_header) 4 = (0, Some 0, r', eff)"
proof -
  have "(case ena_llq_tx_push 1 (\<lambda>_. True) ex_llq_ring ex_pkt (Some ex_header) 4 of
      (rc, o_id, _, _) \<Rightarrow> (rc, o_id)) = (0, Some 0)" by code_simp
  then show ?thesis by (auto split: prod.splits)
qed

subsection \<open>Properties\<close>

text \<open>C7: A push keeps the transmit ring invariant, takes over the packet buffer exactly when it
  reports success, and writes only inside the push area of the ring, which lies inside BAR 2.\<close>

theorem llq_push_safe:
  assumes ok: "tx_ring_ok r" and db: "db_ok a r" and sz: "0 < push_buf_size r"
    and e: "ena_llq_tx_push cpu has r pkt hdr hdr_len = (rc, o_id, r', eff)"
  shows "tx_ring_ok r' \<and> tx_held r' = tx_held r + (if rc = 0 then opt_mset (tp_netbuf pkt) else {#}) \<and>
    (\<forall>(off, bs) \<in> set (le_push eff). unat (the (push_buf_virt r)) \<le> off \<and>
      off + 8 \<le> unat (the (push_buf_virt r)) + unat (push_buf_size r) \<and> off + 8 \<le> bar2_size a)"
  using ok e
proof (cases rule: llq_push_cases)
  case refused
  with ok show ?thesis by simp
next
  case host
  with tx_submit_cases [OF host(2)] obtain i where "o_id = Some i" by (auto simp: EINVAL_def ENODEV_def EBUSY_def)
  with host tx_submit_ok [OF ok] show ?thesis by simp
next
  case (push i)
  note p = tx_post_ok [OF ok push(4,5), of "tx_sq r" "tx_buffer_of_pkt i pkt"]
  have "tx_held r' = tx_held (tx_post i (tx_buffer_of_pkt i pkt) (tx_sq r) r)" by (simp add: push(7) tx_held_def)
  with p push(2) have "tx_ring_ok r' \<and> tx_held r' = tx_held r + (if rc = 0 then opt_mset (tp_netbuf pkt) else {#})"
    by (simp add: push(7) tx_stats_ok tx_buffer_of_pkt_def)
  with llq_push_window [OF ok db push(1) sz] show ?thesis unfolding push(8) by blast
qed

theorem llq_push_safe_witness:
  "\<exists>r' eff. ena_llq_tx_push 1 (\<lambda>_. True) ex_llq_ring ex_pkt (Some ex_header) 4 = (0, Some 0, r', eff) \<and>
    tx_ring_ok r' \<and> tx_held r' = tx_held ex_llq_ring + {#7#}"
proof -
  obtain r' eff where e: "ena_llq_tx_push 1 (\<lambda>_. True) ex_llq_ring ex_pkt (Some ex_header) 4 = (0, Some 0, r', eff)"
    using ex_llq_push by blast
  have "0 < push_buf_size ex_llq_ring" by (simp add: ex_llq_ring_def)
  from llq_push_safe [OF ex_llq_ok ex_llq_db this e] e show ?thesis by (auto simp: ex_pkt_def)
qed

text \<open>C35: The words of a push are, in order, the descriptor, the header and zeros up to the entry
  size, and the descriptor names the request id, the length and the address of the packet and
  carries the phase of the submission queue.\<close>

theorem llq_push_entry:
  assumes ok: "tx_ring_ok r" and u: "\<not> llq_unusable r"
    and e: "ena_llq_tx_push cpu has r pkt (Some h) hdr_len = (0, Some i, r', eff)"
    and h: "length h = unat hdr_len" and sz: "32 \<le> llq_entry_size_of r" "llq_entry_size_of r \<le> 256"
    and al: "8 dvd unat (llq_entry_size_of r)" and l: "tp_len pkt \<le> 0xFFFF"
  shows "concat (map snd (le_push eff)) = tx_desc_bytes (llq_desc i (sq_phase r) pkt hdr_len) @ h @
      replicate (unat (llq_entry_size_of r) - 16 - unat hdr_len) 0 \<and>
    desc_req_id (llq_desc i (sq_phase r) pkt hdr_len) = i \<and>
    desc_len (llq_desc i (sq_phase r) pkt hdr_len) = tp_len pkt \<and>
    (desc_phase (llq_desc i (sq_phase r) pkt hdr_len) \<longleftrightarrow> sq_phase r \<noteq> 0)"
  using ok e
proof (cases rule: llq_push_cases)
  case (push j)
  let ?e = "unat (llq_entry_size_of r)" and ?d = "llq_desc i (sq_phase r) pkt hdr_len"
  let ?p = "pkt\<lparr> tp_tso_en := False \<rparr>"
  have j: "j = i" using push(3) by simp
  have e: "32 \<le> ?e" "?e \<le> 256" using sz by (simp_all add: word_le_nat_alt)
  have "unat (llq_header_cap r) = ?e - 32" using sz by (simp add: llq_header_cap_def unat_sub)
  with push(6) have hl: "unat hdr_len \<le> ?e - 32" 
    by (simp add: not_less word_le_nat_alt unsigned_ucast_eq take_bit_nat_eq_self unsigned_less [of hdr_len, THEN less_trans])
  have "concat (map snd (le_push eff)) = take ?e (tx_desc_bytes ?d @ h @ replicate (240 - unat hdr_len) 0)"
    unfolding push(8) j using llq_copy_bytes [OF al] llq_entry_eq [OF h] hl e by simp
  also have "\<dots> = tx_desc_bytes ?d @ h @ replicate (?e - 16 - unat hdr_len) 0"
    using hl e h by (simp add: min_def)
  finally have "concat (map snd (le_push eff)) = tx_desc_bytes ?d @ h @ replicate (?e - 16 - unat hdr_len) 0" .
  moreover have "desc_req_id ?d = desc_req_id (tx_desc_of_pkt i (sq_phase r) ?p)"
    "desc_len ?d = desc_len (tx_desc_of_pkt i (sq_phase r) ?p)"
    "desc_phase ?d = desc_phase (tx_desc_of_pkt i (sq_phase r) ?p)"
    by (simp_all add: desc_req_id_def desc_len_def desc_phase_def llq_desc_def tx_desc_of_pkt_def)
  ultimately show ?thesis
    using desc_len_of_pkt [of ?p i "sq_phase r"] l by (simp add: desc_req_id_of_pkt desc_phase_of_pkt)
qed (use u in simp_all)

theorem llq_push_entry_witness:
  "\<exists>r' eff. ena_llq_tx_push 1 (\<lambda>_. True) ex_llq_ring ex_pkt (Some ex_header) 4 = (0, Some 0, r', eff) \<and>
    concat (map snd (le_push eff)) =
      tx_desc_bytes (llq_desc 0 (sq_phase ex_llq_ring) ex_pkt 4) @ [1, 2, 3, 4] @ replicate 108 0"
proof -
  obtain r' eff where e: "ena_llq_tx_push 1 (\<lambda>_. True) ex_llq_ring ex_pkt (Some ex_header) 4 = (0, Some 0, r', eff)"
    using ex_llq_push by blast
  have s: "llq_entry_size_of ex_llq_ring = 128" by (simp add: ex_llq_ring_def llq_entry_size_of_def)
  from llq_push_entry [OF ex_llq_ok ex_llq_usable e] e show ?thesis
    by (simp add: s ex_header_def ex_pkt_def)
qed

text \<open>A push does not look whether the ring is alive: on a ring without a hardware queue,
  where the host-memory path refuses the packet, it takes the packet and writes to the device.\<close>

theorem llq_push_on_dead_ring:
  "let r = ex_llq_ring\<lparr> hw_valid := False \<rparr> in
    (case ena_tx_submit 1 r ex_pkt of (rc, _) \<Rightarrow> rc) = - ENODEV \<and>
    (case ena_llq_tx_push 1 (\<lambda>_. True) r ex_pkt (Some ex_header) 4 of
       (rc, o_id, r', eff) \<Rightarrow> (rc, o_id, length (le_push eff), le_doorbell eff)) = (0, Some 0, 16, [])"
  by code_simp

end
