(* ===== verification/Ena_Bounce_Facts.thy ===== *)
theory Ena_Bounce_Facts
  imports Ena_Bounce Ena_Llq_Props
begin

text \<open>
  Facts on descriptor counts and on the bounce pool of a transmit queue: every slot is either
  free or bound to one request in flight, and submitting and completing keep it so.
\<close>

subsection \<open>Descriptor counts\<close>

lemma clz_top_bit:
  fixes v :: nat
  assumes "0 < v" and "v < 2 ^ k"
  shows "\<exists>n<k. length (takeWhile (\<lambda>i. \<not> bit v i) (rev [0..<k])) = k - 1 - n \<and> 2 ^ n \<le> v \<and> v < 2 ^ Suc n"
  using assms
proof (induction k)
  case (Suc k)
  have b: "bit v k \<longleftrightarrow> 2 ^ k \<le> v"
  proof
    assume "bit v k"
    then have "v div 2 ^ k \<noteq> 0" by (metis bit_iff_odd even_zero)
    then show "2 ^ k \<le> v" by (simp add: div_eq_0_iff)
  next
    assume "2 ^ k \<le> v"
    with Suc.prems have "v div 2 ^ k = 1" by (intro div_nat_eqI) auto
    then show "bit v k" by (simp add: bit_iff_odd)
  qed
  show ?case
  proof (cases "2 ^ k \<le> v")
    case True
    with b Suc.prems show ?thesis by (intro exI [of _ k]) simp
  next
    case False
    with Suc obtain n where n: "n < k" "length (takeWhile (\<lambda>i. \<not> bit v i) (rev [0..<k])) = k - 1 - n"
      "2 ^ n \<le> v" "v < 2 ^ Suc n" by auto
    with False b show ?thesis by (intro exI [of _ n]) auto
  qed
qed simp

lemma round_down_top:
  assumes "v \<noteq> 0"
  obtains n where "n < 32" "unat (ena_netdev_round_down_pow2 v) = 2 ^ n" "2 ^ n \<le> unat v" "unat v < 2 ^ Suc n"
proof -
  have "0 < unat v" "unat v < 2 ^ 32" using assms unsigned_less [of v] by (simp_all add: unat_gt_0)
  from clz_top_bit [OF this] obtain n where n: "n < 32" "builtin_clz v = 31 - n" "2 ^ n \<le> unat v" "unat v < 2 ^ Suc n"
    by (auto simp: builtin_clz_def bit_unsigned_iff)
  have "ena_netdev_round_down_pow2 v = 2 ^ n" using assms n by (simp add: ena_netdev_round_down_pow2_def push_bit_eq_mult)
  moreover have "unat (2 ^ n :: u32) = 2 ^ n"
  proof -
    have "(2 :: nat) ^ n < 2 ^ 32" using n(1) by (intro power_strict_increasing) simp_all
    then have "unat (of_nat (2 ^ n) :: u32) = 2 ^ n"
      by (simp add: unsigned_of_nat take_bit_nat_eq_self n(1) del: of_nat_power of_nat_numeral)
    then show ?thesis by simp
  qed
  ultimately show thesis using n that by metis
qed

text \<open>The bound a request is rounded down from, on natural numbers.\<close>

definition desc_bound :: "u16 \<Rightarrow> u16 \<Rightarrow> nat" where
  "desc_bound nb mx =
    (let want = (if nb = 0 then if mx = 0 then 256 else unat mx else unat nb)
     in max 4 (min 4096 (if mx = 0 then want else min (unat mx) want)))"

definition clamp_limit :: "u16 \<Rightarrow> u16 \<Rightarrow> u16" where
  "clamp_limit nb mx =
    (let n = (if nb = 0 then if mx \<noteq> 0 then mx else ENA_DEFAULT_RING_DESC else nb);
         n = (if mx \<noteq> 0 \<and> mx < n then mx else n);
         n = (if ENA_MAX_RING_DESC < n then ENA_MAX_RING_DESC else n)
     in if n < ENA_MIN_RING_DESC then ENA_MIN_RING_DESC else n)"

lemma clamp_eq: "ena_netdev_clamp_desc_count nb mx = ucast (ena_netdev_round_down_pow2 (ucast (clamp_limit nb mx)))"
  by (simp only: ena_netdev_clamp_desc_count_def clamp_limit_def Let_def)

lemma unat_clamp_limit: "unat (clamp_limit nb mx) = desc_bound nb mx"
  by (auto simp: clamp_limit_def desc_bound_def Let_def ena_consts word_less_nat_alt)

lemma unat_ucast_u32: "unat (ucast v :: u32) = unat v" for v :: u16
proof -
  have "unat v < 2 ^ 16" using unsigned_less [of v] by simp
  then have "unat v < 2 ^ 32" by simp
  then show ?thesis by (simp add: unsigned_ucast_eq take_bit_nat_eq_self)
qed

lemma clamp_top:
  obtains n where "unat (ena_netdev_clamp_desc_count nb mx) = 2 ^ n" "2 ^ n \<le> desc_bound nb mx"
    "desc_bound nb mx < 2 ^ Suc n" "2 \<le> n"
proof -
  define v where "v = clamp_limit nb mx"
  have v: "ena_netdev_clamp_desc_count nb mx = ucast (ena_netdev_round_down_pow2 (ucast v))" "unat v = desc_bound nb mx"
    by (simp_all add: v_def clamp_eq unat_clamp_limit)
  have b: "4 \<le> desc_bound nb mx" "desc_bound nb mx \<le> 4096" by (simp_all add: desc_bound_def Let_def)
  note u = unat_ucast_u32 [of v]
  have "(ucast v :: u32) \<noteq> 0" using u v b by (metis not_numeral_le_zero unsigned_0)
  then obtain n where n: "unat (ena_netdev_round_down_pow2 (ucast v)) = 2 ^ n" "2 ^ n \<le> unat v" "unat v < 2 ^ Suc n"
    by (rule round_down_top) (simp add: u)
  have "(2 :: nat) ^ 2 < 2 ^ Suc n" using n(3) v(2) b by simp
  then have "2 \<le> n" by (metis less_Suc_eq_le one_less_numeral_iff power_strict_increasing_iff semiring_norm(76))
  moreover have p: "(2 :: nat) ^ n < 2 ^ 16" using n(2) v(2) b by simp
  then have "n < 16" by (rule power_less_imp_less_exp [rotated]) simp
  with p have "unat (ena_netdev_clamp_desc_count nb mx) = 2 ^ n"
    using n(1) by (simp add: v(1) unsigned_ucast_eq take_bit_nat_eq_self)
  ultimately show thesis using n v that by metis
qed

subsection \<open>The pool of a transmit queue\<close>

definition bound_slots :: "uk_netdev_tx_queue \<Rightarrow> u16 multiset" where
  "bound_slots q = image_mset word_of_int (filter_mset (\<lambda>s. 0 \<le> s) (mset (tq_bounce_map q)))"

text \<open>Every slot is in the pool or bound, and in only one place.\<close>

definition txq_ok :: "uk_netdev_tx_queue \<Rightarrow> bool" where
  "txq_ok q \<longleftrightarrow> tqp.pool_ok q \<and> length (tq_bounce_map q) = unat (tq_nb_desc q) \<and>
     mset (tqp.free_ids q) + bound_slots q = mset (map of_nat [0..<unat (tq_nb_desc q)])"

lemma txq_ok_cong:
  assumes "tq_nb_desc q' = tq_nb_desc q" "tq_free_ids q' = tq_free_ids q" "tq_free_head q' = tq_free_head q"
    "tq_free_tail q' = tq_free_tail q" "tq_free_count q' = tq_free_count q" "tq_bounce_map q' = tq_bounce_map q"
  shows "txq_ok q' = txq_ok q"
  using assms by (simp add: txq_ok_def tqp.pool_ok_def tqp.free_ids_def bound_slots_def)

lemma txq_slot_small:
  assumes "txq_ok q" and "s \<in># mset (tqp.free_ids q) + bound_slots q"
  shows "unat s < unat (tq_nb_desc q)" "sint s = int (unat s)" "0 \<le> sint s" "word_of_int (sint s) = s"
proof -
  from assms have "s \<in> set (map of_nat [0..<unat (tq_nb_desc q)])" by (metis set_mset_mset txq_ok_def)
  then obtain i where i: "i < unat (tq_nb_desc q)" "s = of_nat i" by auto
  have d: "unat (tq_nb_desc q) \<le> 2 ^ 15" using assms(1) ring_depth_le by (simp add: txq_ok_def tqp.pool_ok_def)
  have "unat s = i" using i d by (simp add: unsigned_of_nat take_bit_nat_eq_self)
  with i show l: "unat s < unat (tq_nb_desc q)" by simp
  have "uint s < 2 ^ 15" using l d by (metis of_nat_less_numeral_power_cancel_iff order_less_le_trans uint_nat)
  then have "signed_take_bit 15 (uint s) = uint s" by (intro signed_take_bit_int_eq_self) (simp_all add: order_trans [of _ 0])
  then show n: "sint s = int (unat s)" by (simp add: sint_uint)
  then show "0 \<le> sint s" by simp
  show "word_of_int (sint s) = s" by simp
qed

lemma bound_update:
  assumes "i < length (tq_bounce_map q)"
  shows "bound_slots (q\<lparr> tq_bounce_map := (tq_bounce_map q)[i := s] \<rparr>) + (if 0 \<le> tq_bounce_map q ! i then {#word_of_int (tq_bounce_map q ! i)#} else {#}) =
    bound_slots q + (if 0 \<le> s then {#word_of_int s#} else {#})"
proof -
  let ?m = "mset (tq_bounce_map q)" and ?x = "tq_bounce_map q ! i"
  have "add_mset ?x (mset ((tq_bounce_map q)[i := s])) = add_mset s ?m"
    using assms by (simp add: mset_update)
  then have "image_mset word_of_int (filter_mset (\<lambda>s. 0 \<le> s) (add_mset ?x (mset ((tq_bounce_map q)[i := s])))) =
      image_mset word_of_int (filter_mset (\<lambda>s. 0 \<le> s) (add_mset s ?m))" by simp
  then show ?thesis by (auto simp: bound_slots_def split: if_splits)
qed

lemma txq_room:
  assumes "txq_ok q" and "bound_slots q \<noteq> {#}"
  shows "unat (tq_free_count q) < unat (tq_nb_desc q)"
proof -
  have "size (mset (tqp.free_ids q) + bound_slots q) = unat (tq_nb_desc q)"
    using assms(1) by (simp add: txq_ok_def del: mset_map)
  with assms(2) show ?thesis by (metis size_mset size_union tqp.length_free_ids less_add_same_cancel1 nonempty_has_size)
qed

text \<open>Returning a slot that is out of the pool, and taking one.\<close>

lemma txq_return:
  assumes ok: "tqp.pool_ok q" and room: "unat (tq_free_count q) < unat (tq_nb_desc q)"
    and len: "length (tq_bounce_map q) = unat (tq_nb_desc q)"
    and acc: "mset (tqp.free_ids q) + {#s#} + bound_slots q = mset (map of_nat [0..<unat (tq_nb_desc q)])"
  shows "txq_ok (tq_push q s)"
proof -
  have "bound_slots (tq_push q s) = bound_slots q" "tq_nb_desc (tq_push q s) = tq_nb_desc q"
    "tq_bounce_map (tq_push q s) = tq_bounce_map q" by (simp_all add: tq_push_def bound_slots_def)
  with tqp.push_ok [OF ok room] tqp.push_free_ids [OF ok room] len acc show ?thesis by (simp add: txq_ok_def)
qed

lemma txq_take:
  assumes ok: "txq_ok q" and c: "tq_free_count q \<noteq> 0"
  shows "tqp.pool_ok (tq_pop q)" "length (tq_bounce_map (tq_pop q)) = unat (tq_nb_desc (tq_pop q))"
    "mset (tqp.free_ids (tq_pop q)) + {#tq_free_ids q ! unat (tq_free_head q)#} + bound_slots (tq_pop q) =
      mset (map of_nat [0..<unat (tq_nb_desc (tq_pop q))])"
    "unat (tq_free_count (tq_pop q)) < unat (tq_nb_desc (tq_pop q))"
    "tq_free_ids q ! unat (tq_free_head q) \<in># mset (tqp.free_ids q) + bound_slots q"
proof -
  have p: "tqp.pool_ok q" using ok by (simp add: txq_ok_def)
  have f: "tq_nb_desc (tq_pop q) = tq_nb_desc q" "tq_bounce_map (tq_pop q) = tq_bounce_map q"
    "bound_slots (tq_pop q) = bound_slots q" by (simp_all add: tq_pop_def bound_slots_def)
  note s = tqp.pop_free_ids [OF c p]
  show "tqp.pool_ok (tq_pop q)" by (rule tqp.pop_ok [OF c p])
  show "length (tq_bounce_map (tq_pop q)) = unat (tq_nb_desc (tq_pop q))" using ok f by (simp add: txq_ok_def)
  show "mset (tqp.free_ids (tq_pop q)) + {#tq_free_ids q ! unat (tq_free_head q)#} + bound_slots (tq_pop q) =
      mset (map of_nat [0..<unat (tq_nb_desc (tq_pop q))])"
    using ok f s by (simp add: txq_ok_def)
  show "unat (tq_free_count (tq_pop q)) < unat (tq_nb_desc (tq_pop q))"
  proof -
    have "unat (tq_free_count q - 1) < unat (tq_free_count q)" using unat_pred_u16 [OF c] c by (simp add: unat_gt_0)
    also have "\<dots> \<le> unat (tq_nb_desc q)" using p by (simp add: tqp.pool_ok_def)
    finally show ?thesis by (simp add: tq_pop_def)
  qed
  show "tq_free_ids q ! unat (tq_free_head q) \<in># mset (tqp.free_ids q) + bound_slots q" by (simp add: s)
qed

subsection \<open>A queue and its ring\<close>

text \<open>A bound slot belongs to a request in flight.\<close>

definition txq_ring_ok :: "ena_ring \<Rightarrow> uk_netdev_tx_queue \<Rightarrow> bool" where
  "txq_ring_ok r q \<longleftrightarrow> tx_ring_ok r \<and> txq_ok q \<and> sq_depth r = tq_nb_desc q \<and> tx_complete_cb r \<and>
     (\<forall>i < unat (tq_nb_desc q). 0 \<le> tq_bounce_map q ! i \<longrightarrow> req_in_flight r ! i \<noteq> 0)"

lemma txq_ring_ok_cong:
  assumes "txq_ring_ok r q" and "tx_ring_ok r'" "sq_depth r' = sq_depth r" "tx_complete_cb r' = tx_complete_cb r"
    "req_in_flight r' = req_in_flight r"
  shows "txq_ring_ok r' q"
  using assms by (simp add: txq_ring_ok_def)

lemma reclaim_ok:
  assumes ok: "txq_ok q" and i: "unat i < unat (tq_nb_desc q)"
  shows "txq_ok (ena_netdev_txq_reclaim_slot q i)" "tq_nb_desc (ena_netdev_txq_reclaim_slot q i) = tq_nb_desc q"
    "\<And>j. j < unat (tq_nb_desc q) \<Longrightarrow> 0 \<le> tq_bounce_map (ena_netdev_txq_reclaim_slot q i) ! j \<longleftrightarrow>
      j \<noteq> unat i \<and> 0 \<le> tq_bounce_map q ! j"
proof -
  let ?s = "tq_bounce_map q ! unat i" and ?m = "q\<lparr> tq_bounce_map := (tq_bounce_map q)[unat i := - 1] \<rparr>"
  have p: "tqp.pool_ok q" and len: "length (tq_bounce_map q) = unat (tq_nb_desc q)" using ok by (simp_all add: txq_ok_def)
  have ne: "tq_bounce_map q \<noteq> []" "tq_free_ids q \<noteq> []" "0 < tq_nb_desc q" "\<not> tq_nb_desc q \<le> i"
    using p len i by (auto simp: tqp.pool_ok_def word_le_nat_alt word_gt_0)
  have u: "ena_netdev_txq_reclaim_slot q i =
      (if ?s < 0 then q else tq_mark ((tq_push ?m (word_of_int ?s))\<lparr> tq_wait_polls := 0 \<rparr>))"
    using ne by (simp add: ena_netdev_txq_reclaim_slot_def Let_def)
  have n: "txq_ok (tq_push ?m (word_of_int ?s))" if "0 \<le> ?s"
  proof (rule txq_return)
    have b: "bound_slots ?m + {#word_of_int ?s#} = bound_slots q"
      using bound_update [of "unat i" q "- 1"] that len i by simp
    then have "bound_slots q \<noteq> {#}" by auto
    then show "unat (tq_free_count ?m) < unat (tq_nb_desc ?m)" using txq_room [OF ok] by simp
    show "tqp.pool_ok ?m" using p by (simp add: tqp.pool_ok_def)
    show "length (tq_bounce_map ?m) = unat (tq_nb_desc ?m)" using len by simp
    have "tqp.free_ids ?m = tqp.free_ids q" by (simp add: tqp.free_ids_def)
    then show "mset (tqp.free_ids ?m) + {#word_of_int ?s#} + bound_slots ?m = mset (map of_nat [0..<unat (tq_nb_desc ?m)])"
      using ok by (simp add: txq_ok_def b [symmetric])
  qed
  show "txq_ok (ena_netdev_txq_reclaim_slot q i)"
    using ok n txq_ok_cong [of "tq_mark ((tq_push ?m (word_of_int ?s))\<lparr> tq_wait_polls := 0 \<rparr>)" "tq_push ?m (word_of_int ?s)"]
    by (simp add: u tq_mark_def)
  show "tq_nb_desc (ena_netdev_txq_reclaim_slot q i) = tq_nb_desc q" by (simp add: u tq_mark_def tq_push_def)
  show "0 \<le> tq_bounce_map (ena_netdev_txq_reclaim_slot q i) ! j \<longleftrightarrow> j \<noteq> unat i \<and> 0 \<le> tq_bounce_map q ! j"
    if "j < unat (tq_nb_desc q)" for j
    using that len i by (auto simp: u tq_mark_def tq_push_def nth_list_update)
qed

lemma txq_complete_one:
  assumes ok: "txq_ring_ok r q"
    and i: "unat (txc_req_id c) < unat (sq_depth r)" "req_in_flight r ! unat (txc_req_id c) \<noteq> 0"
    and e: "tx_complete_one cpu ena_netdev_txq_reclaim_slot c r q = (r', q', fs)"
  shows "txq_ring_ok r' q'"
proof -
  have t: "tx_ring_ok r" "txq_ok q" "sq_depth r = tq_nb_desc q" "tx_complete_cb r" using ok by (simp_all add: txq_ring_ok_def)
  note c = tx_complete_one_ok [OF t(1) i e] and f = tx_complete_one_frame [OF e]
  have q': "q' = ena_netdev_txq_reclaim_slot q (txc_req_id c)" using c(4) t(4) by simp
  have l: "unat (txc_req_id c) < unat (tq_nb_desc q)" using i t(3) by simp
  note rc = reclaim_ok [OF t(2) l]
  show ?thesis
    unfolding txq_ring_ok_def q'
    using c(1) f(1,2,9) rc t ok by (auto simp: txq_ring_ok_def nth_list_update)
qed

lemma txq_poll_loop:
  assumes "txq_ring_ok r q" "keeps_length devs"
    and "tx_poll_loop devs cpu ena_netdev_txq_reclaim_slot budget cleaned r q = Some (n, r', q', fs)"
  shows "txq_ring_ok r' q'"
  using assms
proof (induction devs arbitrary: cleaned r q n r' q' fs)
  case (Cons d devs)
  let ?r = "r\<lparr> tx_cq := d (tx_cq r) \<rparr>"
  have len: "length (d (tx_cq r)) = length (tx_cq r)" and kl: "keeps_length devs" using Cons.prems(2) by simp_all
  have w: "txq_ring_ok ?r q"
    using txq_ring_ok_cong [OF Cons.prems(1) cq_write_ok(1) [OF _ len]] Cons.prems(1) by (simp add: txq_ring_ok_def)
  from Cons.prems(3) show ?case
  proof (cases rule: tx_poll_loop_cases)
    case stop
    with Cons.prems(1) w show ?thesis by auto
  next
    case skip
    have "tx_ring_ok (cq_advance ?r)" using w cq_advance_tx_ok by (simp add: txq_ring_ok_def tx_ring_ok_def)
    from txq_ring_ok_cong [OF w this] have "txq_ring_ok (cq_advance ?r) q" by (simp add: frame_simps)
    from Cons.IH [OF this kl skip] show ?thesis .
  next
    case (one r1 q1 f1 f2)
    from Cons.IH [OF txq_complete_one [OF w one(2,3,4)] kl one(5)] show ?thesis .
  qed
qed simp

lemma drain_frame:
  assumes "tx_ring_ok r"
  shows "req_in_flight (fst (ena_tx_drain_foreign_frees r cpu)) = req_in_flight r"
    "sq_depth (fst (ena_tx_drain_foreign_frees r cpu)) = sq_depth r"
  using drain_loop_ok [OF assms, of cpu 0] by (simp_all add: ena_tx_drain_foreign_frees_def)

lemma txq_poll:
  assumes ok: "txq_ring_ok r q" and kl: "keeps_length devs"
    and e: "ena_tx_poll_completions devs cpu ena_netdev_txq_reclaim_slot budget r q = Some (rc, cnt, r', q', fs)"
  shows "txq_ring_ok r' q' \<and> tx_held r = tx_held r' + mset fs"
proof -
  have t: "tx_ring_ok r" using ok by (simp add: txq_ring_ok_def)
  from e t show ?thesis
  proof (cases rule: tx_poll_cases)
    case idle
    with ok show ?thesis by simp
  next
    case (run n f2)
    note d = drain_ok [OF t, of cpu]
    have "txq_ring_ok (fst (ena_tx_drain_foreign_frees r cpu)) q"
      by (rule txq_ring_ok_cong [OF ok d(1)]) (simp_all add: drain_frame [OF t] drain_complete_cb)
    from txq_poll_loop [OF this kl run(3)] tx_poll_loop_ok [OF d(1) kl _ run(3)] d(2) run(6)
    show ?thesis by (simp add: ac_simps)
  qed
qed

subsection \<open>Submitting on a queue\<close>

lemma tx_post_frame:
  "sq_depth (tx_post i b sq r) = sq_depth r" "tx_complete_cb (tx_post i b sq r) = tx_complete_cb r"
  "req_in_flight (tx_post i b sq r) = (req_in_flight r)[unat i := 1]"
  by (simp_all add: tx_post_def frame_simps)

lemma xmit_cases:
  assumes ok: "tx_ring_ok r" and e: "ena_netdev_tx_xmit_one cpu has r pkt hdr = (ret, o_id, r', eff)"
  obtains (refused) "ret < 0" "r' = r"
    | (sent) i where "ret = 0" "o_id = Some i" "unat i < unat (sq_depth r)" "req_in_flight r ! unat i = 0" "tx_ring_ok r'"
        "tx_held r' = tx_held r + opt_mset (tp_netbuf pkt)" "sq_depth r' = sq_depth r"
        "tx_complete_cb r' = tx_complete_cb r" "req_in_flight r' = (req_in_flight r)[unat i := 1]"
proof -
  note D = tx_ok_exceptD [OF ok [unfolded tx_ring_ok_def]]
  have fresh: "unat i < unat (sq_depth r)" "req_in_flight r ! unat i = 0"
    if "i = free_req_ids r ! unat (free_req_head r)" "free_req_count r \<noteq> 0" for i
    using pop_id_free [OF D(2) that(2)] D(13) [of "unat i"] by (auto simp: that(1) tx_id_ok_def)
  have host: thesis if s: "ena_tx_submit cpu r pkt = (ret, o_id, r')"
  proof (cases "ret = 0")
    case True
    with tx_submit_cases [OF s] obtain i where i: "o_id = Some i" by (auto simp: EINVAL_def ENODEV_def EBUSY_def)
    with s True have s': "ena_tx_submit cpu r pkt = (0, Some i, r')" by simp
    note S = tx_submit_success [OF ok s']
    have "tx_complete_cb r' = tx_complete_cb r" by (simp add: S(6) frame_simps)
    with fresh [OF S(1,2)] tx_submit_ok [OF ok s'] True i S(6) show thesis by (intro sent [of i]) (simp_all add: frame_simps)
  next
    case False
    with tx_submit_cases [OF s] show thesis by (intro refused) (auto simp: EINVAL_def ENODEV_def EBUSY_def)
  qed
  show thesis
  proof (cases "is_llq r")
    case False
    with e show thesis by (intro host) (auto simp: ena_netdev_tx_xmit_one_def split: prod.splits)
  next
    case True
    then obtain l where l: "ena_llq_tx_push cpu has r pkt hdr l = (ret, o_id, r', eff)"
      using e by (auto simp: ena_netdev_tx_xmit_one_def Let_def)
    from ok l show thesis
    proof (cases rule: llq_push_cases)
      case refused
      with that(1) show thesis by simp
    next
      case host
      with that host show thesis using \<open>ena_tx_submit cpu r pkt = (ret, o_id, r') \<Longrightarrow> thesis\<close> by simp
    next
      case (push i)
      have "tx_held r' = tx_held (tx_post i (tx_buffer_of_pkt i pkt) (tx_sq r) r)" by (simp add: push(7) tx_held_def)
      with tx_post_ok [OF ok push(4,5), of "tx_sq r" "tx_buffer_of_pkt i pkt"] fresh [OF push(5,4)] push(2,3)
      show thesis
        by (intro sent [of i]) (simp_all add: push(7) tx_stats_ok tx_post_frame tx_buffer_of_pkt_def)
    qed
  qed
qed

lemma tx_dropped_ok: "txq_ring_ok (r\<lparr> tx_dropped := x \<rparr>) q = txq_ring_ok r q" "tx_held (r\<lparr> tx_dropped := x \<rparr>) = tx_held r"
proof -
  have "tx_ring_ok (r\<lparr> tx_dropped := x \<rparr>) = tx_ring_ok r"
    using tx_same_ok [of "r\<lparr> tx_dropped := x \<rparr>" r "{}"] by (simp add: tx_ring_ok_def tx_same_def sq.coherent_def cq.coherent_def)
  then show "txq_ring_ok (r\<lparr> tx_dropped := x \<rparr>) q = txq_ring_ok r q" by (simp add: txq_ring_ok_def)
qed (simp add: tx_held_def)

lemma txq_bind:
  assumes ok: "txq_ring_ok r q" and c: "tq_free_count q \<noteq> 0" and s: "s = tq_free_ids q ! unat (tq_free_head q)"
    and i: "unat i < unat (sq_depth r)" "req_in_flight r ! unat i = 0"
    and r': "tx_ring_ok r'" "sq_depth r' = sq_depth r" "tx_complete_cb r' = tx_complete_cb r"
      "req_in_flight r' = (req_in_flight r)[unat i := 1]"
    and q': "tq_nb_desc q' = tq_nb_desc q" "tq_free_ids q' = tq_free_ids (tq_pop q)" "tq_free_head q' = tq_free_head (tq_pop q)"
      "tq_free_tail q' = tq_free_tail (tq_pop q)" "tq_free_count q' = tq_free_count (tq_pop q)"
      "tq_bounce_map q' = (tq_bounce_map q)[unat i := sint s]"
  shows "txq_ring_ok r' q'"
proof -
  have t: "txq_ok q" "tx_ring_ok r" "sq_depth r = tq_nb_desc q" using ok by (simp_all add: txq_ring_ok_def)
  note T = txq_take [OF t(1) c, folded s] and S = txq_slot_small [OF t(1) txq_take(5) [OF t(1) c], folded s]
  have il: "unat i < length (tq_bounce_map q)" "tq_bounce_map q ! unat i < 0"
    using i t ok by (fastforce simp: txq_ring_ok_def txq_ok_def)+
  let ?p = "(tq_pop q)\<lparr> tq_bounce_map := (tq_bounce_map q)[unat i := sint s] \<rparr>"
  have m: "tq_bounce_map (tq_pop q) = tq_bounce_map q" by (simp add: tq_pop_def)
  have "bound_slots ?p = bound_slots (tq_pop q) + {#s#}"
    using bound_update [of "unat i" "tq_pop q" "sint s"] il S by (simp add: m)
  moreover have "tqp.free_ids ?p = tqp.free_ids (tq_pop q)" "tqp.pool_ok ?p = tqp.pool_ok (tq_pop q)"
    by (simp_all add: tqp.free_ids_def tqp.pool_ok_def)
  ultimately have "txq_ok ?p" using T(1-3) by (simp add: txq_ok_def m)
  moreover have "tq_nb_desc (tq_pop q) = tq_nb_desc q" by (simp add: tq_pop_def)
  ultimately have "txq_ok q'" using q' txq_ok_cong [of q' ?p] by simp
  moreover have "length (req_in_flight r) = unat (tq_nb_desc q)"
    using tx_ok_exceptD(9) [OF t(2) [unfolded tx_ring_ok_def]] t(3) by simp
  ultimately show ?thesis
    using ok r' q' i by (auto simp: txq_ring_ok_def txq_ok_def nth_list_update)
qed

lemma stall_check_ok: "txq_ring_ok r (tx_stall_check q) = txq_ring_ok r q"
  using txq_ok_cong [of "tx_stall_check q" q] by (simp add: tx_stall_check_def txq_ring_ok_def)

lemma mark_ok: "txq_ring_ok r (tq_mark q) = txq_ring_ok r q"
  using txq_ok_cong [of "tq_mark q" q] by (simp add: tq_mark_def txq_ring_ok_def)

lemma txq_give_back:
  assumes ok: "txq_ring_ok r q" and c: "tq_free_count q \<noteq> 0" and s: "s = tq_free_ids q ! unat (tq_free_head q)"
  shows "txq_ring_ok r (tq_mark (tq_push (tq_mark (tq_pop q)) s))"
proof -
  have t: "txq_ok q" using ok by (simp add: txq_ring_ok_def)
  note T = txq_take [OF t c, folded s]
  have "txq_ok (tq_push (tq_pop q) s)" by (rule txq_return [OF T(1,4,2,3)])
  then have "txq_ok (tq_push (tq_mark (tq_pop q)) s)"
    using txq_ok_cong [of "tq_push (tq_mark (tq_pop q)) s" "tq_push (tq_pop q) s"] by (simp add: tq_mark_def tq_push_def)
  moreover have "tq_bounce_map (tq_push (tq_mark (tq_pop q)) s) = tq_bounce_map q"
    "tq_nb_desc (tq_push (tq_mark (tq_pop q)) s) = tq_nb_desc q" by (simp_all add: tq_push_def tq_mark_def tq_pop_def)
  ultimately have "txq_ring_ok r (tq_push (tq_mark (tq_pop q)) s)" using ok by (simp add: txq_ring_ok_def)
  then show ?thesis by (simp add: mark_ok)
qed

lemma classify_netbuf [simp]: "tp_netbuf (ena_netdev_classify_tx_pkt nb p) = tp_netbuf p"
  by (simp add: ena_netdev_classify_tx_pkt_def Let_def)

lemma tx_one_submit_cases:
  assumes e: "tx_one_submit cpu nbs v2p r q nb = (ret, r', q', copies, eff)"
  defines "p \<equiv> tx_stall_check q" and "low \<equiv> ena_netbuf_phys_addr v2p (nbs nb) < ENA_DMA_LOW_MEM_LIMIT"
  defines "slot \<equiv> tq_free_ids p ! unat (tq_free_head p)"
  defines "p' \<equiv> if low then tq_mark (tq_pop p) else p"
  obtains (refused) "ret < 0" "r' = r\<lparr> tx_dropped := tx_dropped r + 1 \<rparr>" "q' = p" "copies = []"
    | (xmit) pkt hdr ret0 o_id r1 where "tp_netbuf pkt = Some nb"
        "low \<Longrightarrow> tq_free_count p \<noteq> 0 \<and> unat (nb_len (nbs nb)) \<le> 4096"
        "ena_netdev_tx_xmit_one cpu (\<lambda>nb. nb_data (nbs nb) \<noteq> None) r pkt hdr = (ret0, o_id, r1, eff)"
        "ret = (if ret0 = 0 then UK_NETDEV_STATUS_SUCCESS else ret0)"
        "r' = (if ret0 = 0 then r1 else r1\<lparr> tx_dropped := tx_dropped r1 + 1 \<rparr>)"
        "q' = (if \<not> low then p' else if ret0 = 0 then tq_mark (p'\<lparr> tq_bounce_map := (tq_bounce_map p')[unat (the o_id) := sint slot],
           tq_req_id := the o_id, tq_wait_polls := 0 \<rparr>) else tq_mark (tq_push p' slot))"
        "copies = (if low then [(unat slot * 4096, take (unat (nb_len (nbs nb))) (nb_payload (nbs nb)))] else [])"
proof -
  note u = tx_one_submit_def [of cpu nbs v2p r q nb, unfolded Let_def, folded p_def low_def, folded slot_def, folded p'_def]
  show thesis
  proof (cases "low \<and> (tq_free_count p = 0 \<or> ENA_TX_BOUNCE_SIZE < nb_len (nbs nb))")
    case True
    with e show thesis by (intro refused) (auto simp: u EBUSY_def EINVAL_def split: if_splits)
  next
    case False
    then have g: "\<not> (low \<and> tq_free_count p = 0)" "\<not> (low \<and> ENA_TX_BOUNCE_SIZE < nb_len (nbs nb))" by auto
    note E = e [unfolded u if_not_P [OF g(1)] if_not_P [OF g(2)]]
    have l: "tq_free_count p \<noteq> 0 \<and> unat (nb_len (nbs nb)) \<le> 4096" if low
      using g that by (auto simp: ENA_TX_BOUNCE_SIZE_def not_less word_le_nat_alt)
    obtain pkt hdr where x: "tp_netbuf pkt = Some nb" and
      y: "(case ena_netdev_tx_xmit_one cpu (\<lambda>nb. nb_data (nbs nb) \<noteq> None) r pkt hdr of (ret, o_id, r, eff) \<Rightarrow>
        if ret = 0 then (UK_NETDEV_STATUS_SUCCESS, r,
            if low then tq_mark (p'\<lparr> tq_bounce_map := (tq_bounce_map p')[unat (the o_id) := sint slot],
              tq_req_id := the o_id, tq_wait_polls := 0 \<rparr>) else p',
            if low then [(unat slot * unat ENA_TX_BOUNCE_SIZE, take (unat (nb_len (nbs nb))) (nb_payload (nbs nb)))] else [], eff)
        else (ret, r\<lparr> tx_dropped := tx_dropped r + 1 \<rparr>, if low then tq_mark (tq_push p' slot) else p',
            if low then [(unat slot * unat ENA_TX_BOUNCE_SIZE, take (unat (nb_len (nbs nb))) (nb_payload (nbs nb)))] else [], eff)) =
        (ret, r', q', copies, eff)"
      by (rule that [rotated, OF E]) simp
    obtain ret0 o_id r1 eff1 where z: "ena_netdev_tx_xmit_one cpu (\<lambda>nb. nb_data (nbs nb) \<noteq> None) r pkt hdr = (ret0, o_id, r1, eff1)"
      by (metis prod_cases4)
    have f: "eff1 = eff" using y z by (simp split: if_splits)
    show thesis
      by (rule xmit [OF x l z [unfolded f]]) (use y z in \<open>auto simp: ENA_TX_BOUNCE_SIZE_def split: if_splits\<close>)
  qed
qed

lemma tx_one_submit_ok:
  assumes ok: "txq_ring_ok r q" and e: "tx_one_submit cpu nbs v2p r q nb = (ret, r', q', copies, eff)"
  shows "txq_ring_ok r' q' \<and> tx_held r' = tx_held r + (if ret = UK_NETDEV_STATUS_SUCCESS then {#nb#} else {#})"
proof -
  let ?p = "tx_stall_check q"
  have okp: "txq_ring_ok r ?p" using ok by (simp add: stall_check_ok)
  then have tr: "tx_ring_ok r" by (simp add: txq_ring_ok_def)
  from e show ?thesis
  proof (cases rule: tx_one_submit_cases)
    case refused
    with okp show ?thesis by (simp add: tx_dropped_ok UK_NETDEV_STATUS_SUCCESS_def)
  next
    case (xmit pkt hdr ret0 o_id r1)
    from tr xmit(3) show ?thesis
    proof (cases rule: xmit_cases)
      case refused
      with xmit(2,4-6) okp txq_give_back [OF okp _ refl] show ?thesis
        by (simp add: tx_dropped_ok UK_NETDEV_STATUS_SUCCESS_def)
    next
      case (sent i)
      have "txq_ring_ok r1 q'"
      proof (cases "ena_netbuf_phys_addr v2p (nbs nb) < ENA_DMA_LOW_MEM_LIMIT")
        case True
        with xmit(2) have c: "tq_free_count ?p \<noteq> 0" by simp
        show ?thesis
          by (rule txq_bind [OF okp c refl sent(3,4,5,7,8,9)]) (simp_all add: xmit(6) True sent(1,2) tq_mark_def tq_pop_def)
      next
        case False
        have "length (req_in_flight r) = unat (sq_depth r)" using tx_ok_exceptD(9) [OF tr [unfolded tx_ring_ok_def]] .
        with False okp sent xmit(6) show ?thesis by (auto simp: txq_ring_ok_def nth_list_update)
      qed
      with xmit(1,4,5) sent show ?thesis by simp
    qed
  qed
qed

lemma tx_one_submit_copies:
  assumes ok: "txq_ok q" and e: "tx_one_submit cpu nbs v2p r q nb = (ret, r', q', copies, eff)"
    and m: "(off, bs) \<in> set copies"
  shows "\<exists>slot \<in> set (tqp.free_ids q). unat slot < unat (tq_nb_desc q) \<and> off = unat slot * 4096 \<and> length bs \<le> 4096"
proof -
  let ?p = "tx_stall_check q"
  have same: "tqp.free_ids ?p = tqp.free_ids q" "tq_nb_desc ?p = tq_nb_desc q" "txq_ok ?p"
    using ok txq_ok_cong [of ?p q] by (simp_all add: tx_stall_check_def tqp.free_ids_def)
  from e show ?thesis
  proof (cases rule: tx_one_submit_cases)
    case (xmit pkt hdr ret0 o_id r1)
    let ?s = "tq_free_ids ?p ! unat (tq_free_head ?p)"
    from m xmit(2,7) have c: "tq_free_count ?p \<noteq> 0" "off = unat ?s * 4096" "length bs \<le> 4096" by (auto split: if_splits)
    have "?s \<in> set (tqp.free_ids ?p)" using tqp.pop_free_ids [OF c(1)] same(3) by (simp add: txq_ok_def)
    with txq_slot_small(1) [OF same(3) txq_take(5) [OF same(3) c(1)]] c same(1,2) show ?thesis by auto
  qed (use m in simp)
qed

lemma tx_one_submit_depth:
  assumes "tx_one_submit cpu nbs v2p r q nb = (ret, r', q', copies, eff)"
  shows "tq_nb_desc q' = tq_nb_desc q"
  using assms by (cases rule: tx_one_submit_cases) (simp_all add: tx_stall_check_def tq_mark_def tq_pop_def tq_push_def)

end
