(* ===== verification/Ena_Netdev_Props.thy ===== *)
theory Ena_Netdev_Props
  imports Ena_Netdev Ena_Bounce_Facts Ena_Rx_Facts Ena_Admin_Props
begin

text \<open>
  The network device: descriptor counts, the state a queue is configured to, transmitting on a
  queue, the bounds of received payloads, and corner cases of configuration and reassembly.
\<close>

subsection \<open>The bounce pool as a queue and a partial map\<close>

text \<open>
  The specification of a transmit queue: the free slots in the order they will be taken, and
  the slot of each request that uses one.
\<close>

record txq_spec =
  sp_free :: "u16 list"
  sp_bound :: "u16 \<Rightarrow> u16 option"

definition txq_abs :: "uk_netdev_tx_queue \<Rightarrow> txq_spec" where
  "txq_abs q = \<lparr> sp_free = tqp.free_ids q,
     sp_bound = (\<lambda>i. if i < tq_nb_desc q \<and> 0 \<le> tq_bounce_map q ! unat i
       then Some (word_of_int (tq_bounce_map q ! unat i)) else None) \<rparr>"

definition spec_reclaim :: "u16 \<Rightarrow> txq_spec \<Rightarrow> txq_spec" where
  "spec_reclaim i t = (case sp_bound t i of None \<Rightarrow> t
     | Some s \<Rightarrow> \<lparr> sp_free = sp_free t @ [s], sp_bound = (sp_bound t)(i := None) \<rparr>)"

lemma reclaim_abs:
  assumes ok: "txq_ok q"
  shows "txq_abs (ena_netdev_txq_reclaim_slot q i) = spec_reclaim i (txq_abs q)"
proof (cases "i < tq_nb_desc q \<and> 0 \<le> tq_bounce_map q ! unat i")
  case False
  then have "ena_netdev_txq_reclaim_slot q i = q" by (auto simp: ena_netdev_txq_reclaim_slot_def not_less)
  moreover have "sp_bound (txq_abs q) i = None" using False by (auto simp: txq_abs_def)
  ultimately show ?thesis by (simp add: spec_reclaim_def)
next
  case True
  let ?s = "tq_bounce_map q ! unat i" and ?m = "q\<lparr> tq_bounce_map := (tq_bounce_map q)[unat i := - 1] \<rparr>"
  have p: "tqp.pool_ok q" and len: "length (tq_bounce_map q) = unat (tq_nb_desc q)" using ok by (simp_all add: txq_ok_def)
  have i: "unat i < unat (tq_nb_desc q)" using True by (simp add: word_less_nat_alt)
  have u: "ena_netdev_txq_reclaim_slot q i = tq_mark ((tq_push ?m (word_of_int ?s))\<lparr> tq_wait_polls := 0 \<rparr>)"
    using True p len i by (auto simp: ena_netdev_txq_reclaim_slot_def Let_def tqp.pool_ok_def word_gt_0)
  have "bound_slots ?m + {#word_of_int ?s#} = bound_slots q" using bound_update [of "unat i" q "- 1"] True len i by simp
  then have "bound_slots q \<noteq> {#}" by auto
  then have "unat (tq_free_count ?m) < unat (tq_nb_desc ?m)" using txq_room [OF ok] by simp
  moreover have "tqp.pool_ok ?m" using p by (simp add: tqp.pool_ok_def)
  ultimately have "tqp.free_ids (tq_push ?m (word_of_int ?s)) = tqp.free_ids ?m @ [word_of_int ?s]"
    by (intro tqp.push_free_ids)
  then have f: "tqp.free_ids (ena_netdev_txq_reclaim_slot q i) = tqp.free_ids q @ [word_of_int ?s]"
    by (simp add: u tqp.free_ids_def tq_mark_def)
  have b: "sp_bound (txq_abs (ena_netdev_txq_reclaim_slot q i)) = (sp_bound (txq_abs q))(i := None)"
    using len i by (auto simp: u txq_abs_def tq_mark_def tq_push_def nth_list_update fun_eq_iff word_less_nat_alt)
  have "sp_bound (txq_abs q) i = Some (word_of_int ?s)" using True by (simp add: txq_abs_def)
  then show ?thesis using f b by (simp add: spec_reclaim_def txq_abs_def)
qed

definition spec_send :: "u16 \<Rightarrow> txq_spec \<Rightarrow> txq_spec" where
  "spec_send i t = \<lparr> sp_free = tl (sp_free t), sp_bound = (sp_bound t)(i := Some (hd (sp_free t))) \<rparr>"

lemma send_abs:
  assumes ok: "txq_ring_ok r q" and e: "tx_one_submit cpu nbs v2p r q nb = (UK_NETDEV_STATUS_SUCCESS, r', q', copies, eff)"
    and low: "ena_netbuf_phys_addr v2p (nbs nb) < ENA_DMA_LOW_MEM_LIMIT"
  shows "txq_abs q' = spec_send (tq_req_id q') (txq_abs q)"
  using e
proof (cases rule: tx_one_submit_cases)
  case refused
  then show ?thesis by (simp add: UK_NETDEV_STATUS_SUCCESS_def)
next
  case (xmit pkt hdr ret0 o_id r1)
  let ?p = "tx_stall_check q"
  let ?s = "tq_free_ids ?p ! unat (tq_free_head ?p)"
  have okp: "txq_ok ?p" and tr: "tx_ring_ok r" and d: "sq_depth r = tq_nb_desc q"
    using ok stall_check_ok [of r q] by (simp_all add: txq_ring_ok_def)
  have same: "txq_abs ?p = txq_abs q" by (auto simp: txq_abs_def tx_stall_check_def tqp.free_ids_def fun_eq_iff)
  have c: "tq_free_count ?p \<noteq> 0" using xmit(2) low by simp
  note F = tqp.pop_free_ids [OF c] and S = txq_slot_small [OF okp txq_take(5) [OF okp c]]
  from tr xmit(3) show ?thesis
  proof (cases rule: xmit_cases)
    case refused
    with xmit(4) show ?thesis by (simp add: UK_NETDEV_STATUS_SUCCESS_def)
  next
    case (sent i)
    have i: "unat i < length (tq_bounce_map ?p)" "unat i < unat (tq_nb_desc ?p)"
      using sent(3) d okp by (simp_all add: txq_ok_def tx_stall_check_def)
    have f: "tqp.free_ids q' = tl (tqp.free_ids ?p)" "?s = hd (tqp.free_ids ?p)" "tq_req_id q' = i"
      using F okp low sent by (simp_all add: xmit(6) txq_ok_def tqp.free_ids_def tq_mark_def)
    have "sp_bound (txq_abs q') = (sp_bound (txq_abs ?p))(i := Some ?s)"
      using i S low sent by (auto simp: xmit(6) txq_abs_def tq_mark_def tq_pop_def nth_list_update fun_eq_iff word_less_nat_alt)
    with f show ?thesis unfolding same [symmetric] by (simp add: spec_send_def txq_abs_def)
  qed
qed

subsection \<open>Configuring a queue\<close>

lemma fresh_pool:
  assumes "ring_depth d" and "tq_nb_desc q = d" "tq_free_ids q = map of_nat [0..<unat d]" "tq_free_head q = 0"
    "tq_free_tail q = 0" "tq_free_count q = d" "tq_bounce_map q = replicate (unat d) (- 1)"
  shows "txq_ok q"
proof -
  have "map (\<lambda>i. (map of_nat [0..<unat d] :: u16 list) ! (i mod unat d)) [0..<unat d] = map of_nat [0..<unat d]" by simp
  then have "tqp.free_ids q = map of_nat [0..<unat d]" by (simp add: tqp.free_ids_def assms)
  then show ?thesis using assms by (simp add: txq_ok_def tqp.pool_ok_def bound_slots_def)
qed

lemma bounce_alloc_ad: "bounce_alloc P k m s = (x, pa, s') \<Longrightarrow> ad s' = ad s"
  by (auto simp: bounce_alloc_def dma_alloc_def split: prod.splits option.splits if_splits)

lemma free_txq_bounce_ad: "ena_netdev_free_txq_bounce P q s = (q', s') \<Longrightarrow> ad s' = ad s"
  by (auto simp: ena_netdev_free_txq_bounce_def dma_free_def split: if_splits)

lemma free_rxq_bounce_ad: "ena_netdev_free_rxq_bounce P q s = (q', s') \<Longrightarrow> ad s' = ad s"
  by (auto simp: ena_netdev_free_rxq_bounce_def dma_free_def split: if_splits)

lemma ring_put_tx: "tx_rings (ad (ring_put ENA_RING_TYPE_TX q x s)) = (tx_rings (ad s))[q := x]"
  and ring_put_rx: "rx_rings (ad (ring_put ENA_RING_TYPE_RX q x s)) = (rx_rings (ad s))[q := x]"
  by (simp_all add: ring_put_def)

lemma sum_replicate_empty: "sum_list (replicate n {#}) = {#}"
  by (induction n) simp_all

text \<open>A ring the device configured for transmission is empty and fits its queue.\<close>

lemma fresh_txq_ring:
  assumes a: "ena_ring_alloc mem qi ENA_RING_TYPE_TX d d [] = (rc, Some r, live)"
    and q: "tq_nb_desc q = d" "tq_free_ids q = map of_nat [0..<unat d]" "tq_free_head q = 0"
      "tq_free_tail q = 0" "tq_free_count q = d" "tq_bounce_map q = replicate (unat d) (- 1)"
  shows "txq_ring_ok (r\<lparr> tx_complete_cb := True \<rparr>) q \<and> tx_held (r\<lparr> tx_complete_cb := True \<rparr>) = {#} \<and> sq_depth r = d"
proof -
  let ?r = "r\<lparr> tx_complete_cb := True \<rparr>"
  have a0: "ena_ring_alloc mem qi ENA_RING_TYPE_TX d d [] = (0, Some r, live)" using a ena_ring_alloc_rc [OF a] by simp
  note f = ena_ring_alloc_fresh [OF a0] and d = ena_ring_alloc_depths [OF a0]
  have "tx_ring_ok ?r" using tx_alloc_ok [OF a0] tx_same_ok [of ?r r "{}"]
    by (simp add: tx_ring_ok_def tx_same_def sq.coherent_def cq.coherent_def)
  moreover have "txq_ok q" using d q by (intro fresh_pool [of d]) simp_all
  moreover have "tx_held ?r = {#}"
    using ena_ring_alloc_tx_arrays [OF a0] by (simp add: tx_held_def tx_buffer_zero_def sum_replicate_empty)
  ultimately show ?thesis using f q by (simp add: txq_ring_ok_def)
qed

lemma txq_configure_ok:
  assumes c: "ena_netdev_txq_configure P mem st qi nb n = (True, n')"
    and q: "unat qi < length (tx_rings (nd_ad n))" "unat qi < length (nd_txqs n)"
  shows "\<exists>r. ring_of ENA_RING_TYPE_TX (unat qi) (nd_sys n') = Some r \<and> txq_ring_ok r (nd_txqs n' ! unat qi) \<and>
    tx_held r = {#} \<and> sq_depth r = ena_netdev_clamp_desc_count nb (max_tx_ring_size (nd_ad n))"
proof -
  define d where "d = ena_netdev_clamp_desc_count nb (max_tx_ring_size (nd_ad n))"
  define s0 where "s0 = ring_put ENA_RING_TYPE_TX (unat qi) None (nd_sys n)"
  obtain tq s1 where f: "ena_netdev_free_txq_bounce P (nd_txqs n ! unat qi) s0 = (tq, s1)" by fastforce
  obtain rc x live where a: "ena_ring_alloc mem qi ENA_RING_TYPE_TX d d [] = (rc, x, live)" by (metis prod_cases3)
  obtain k pa s2 where b: "bounce_alloc P (unat d) (unat ENA_TX_BOUNCE_SIZE) s1 = (k, pa, s2)" by (metis prod_cases3)
  note u = c [unfolded ena_netdev_txq_configure_def Let_def, folded d_def s0_def, unfolded f a]
  obtain r where x: "x = Some r" using u by (auto split: if_splits option.splits)
  have k: "\<not> k < 3" using u x b by (auto split: if_splits prod.splits)
  have n': "nd_sys n' = ring_put ENA_RING_TYPE_TX (unat qi) (Some (r\<lparr> tx_complete_cb := True \<rparr>)) s2"
    "nd_txqs n' = (nd_txqs n)[unat qi := tq\<lparr> tq_queue_id := qi, tq_in_use := False, tq_req_id := 0, tq_wait_polls := 0,
       tq_nb_desc := d, tq_bounce_buf := True, tq_bounce_phys := pa, tq_free_ids := map of_nat [0..<unat d],
       tq_bounce_map := replicate (unat d) (- 1), tq_free_head := 0, tq_free_tail := 0, tq_free_count := d \<rparr>]"
    using u x b k by (auto split: if_splits)
  have "tx_rings (ad s2) = (tx_rings (nd_ad n))[unat qi := None]"
    using bounce_alloc_ad [OF b] free_txq_bounce_ad [OF f] by (simp add: s0_def ring_put_tx)
  then have "ring_of ENA_RING_TYPE_TX (unat qi) (nd_sys n') = Some (r\<lparr> tx_complete_cb := True \<rparr>)"
    using q by (simp add: n'(1) ring_of_def ring_at_def ring_put_tx)
  with fresh_txq_ring [OF a [unfolded x], of "nd_txqs n' ! unat qi"] q(2) show ?thesis
    by (auto simp: n'(2) d_def)
qed

subsection \<open>A concrete device\<close>

definition ex_txq :: uk_netdev_tx_queue where
  "ex_txq = \<lparr> tq_queue_id = 0, tq_bounce_buf = False, tq_bounce_phys = 0, tq_in_use = False, tq_req_id = 0,
     tq_wait_polls = 0, tq_nb_desc = 0, tq_free_head = 0, tq_free_tail = 0, tq_free_count = 0, tq_free_ids = [],
     tq_bounce_map = [] \<rparr>"

definition ex_nb :: uk_netbuf where
  "ex_nb = \<lparr> nb_data = Some 0x8000, nb_payload = replicate 60 1, nb_len = 60, nb_buflen = 60, nb_data_valid = False,
     nb_partial_csum = False, nb_gso_tcpv4 = False \<rparr>"

definition ex_netdev :: "ex_dev netdev" where
  "ex_netdev = \<lparr> nd_sys = ad_update (\<lambda>a. a\<lparr> tx_rings := [None], num_tx_rings := 1, max_tx_ring_size := 4 \<rparr>) ex_probed,
     nd_txqs = [ex_txq], nd_nbs = (\<lambda>_. ex_nb) \<rparr>"

definition ex_configured :: "ex_dev netdev" where
  "ex_configured = snd (ena_netdev_txq_configure ex_platform (\<lambda>_. Some 0x1000) UK_NETDEV_CONFIGURED 0 4 ex_netdev)"

lemma ex_bounce_alloc: "ed_memory (dev s) \<Longrightarrow> bounce_alloc ex_platform k m s = (3, 0x1000, s)"
  by (simp add: bounce_alloc_def dma_alloc_def ex_platform_def)

lemma ex_clamp: "ena_netdev_clamp_desc_count 4 4 = 4" by code_simp

lemma ex_configure: "ena_netdev_txq_configure ex_platform (\<lambda>_. Some 0x1000) UK_NETDEV_CONFIGURED 0 4 ex_netdev = (True, ex_configured)"
proof -
  have "fst (ena_netdev_txq_configure ex_platform (\<lambda>_. Some 0x1000) UK_NETDEV_CONFIGURED 0 4 ex_netdev)"
    by (simp add: ena_netdev_txq_configure_def ex_netdev_def ex_txq_def ex_probed_def ex_clamp ex_tx_alloc ex_bounce_alloc
        ena_netdev_free_txq_bounce_def ring_put_def ENA_NETDEV_MAX_QUEUES_def)
  then show ?thesis by (simp add: ex_configured_def prod_eq_iff)
qed

text \<open>A queue of four slots and its ring, and a packet in low memory.\<close>

definition ex_queue :: uk_netdev_tx_queue where
  "ex_queue = ex_txq\<lparr> tq_nb_desc := 4, tq_bounce_buf := True, tq_bounce_phys := 0x1000, tq_free_ids := [0, 1, 2, 3],
     tq_bounce_map := [- 1, - 1, - 1, - 1], tq_free_count := 4 \<rparr>"

definition ex_cb_ring :: ena_ring where
  "ex_cb_ring = ex_tx_ring\<lparr> tx_complete_cb := True \<rparr>"

definition ex_sending :: "ex_dev netdev" where
  "ex_sending = ex_netdev\<lparr> nd_sys := ad_update (\<lambda>a. a\<lparr> tx_rings := [Some ex_cb_ring] \<rparr>) (nd_sys ex_netdev), nd_txqs := [ex_queue] \<rparr>"

lemma ex_queue_ok: "txq_ring_ok ex_cb_ring ex_queue"
proof -
  have "txq_ring_ok ex_cb_ring ex_queue \<and> tx_held ex_cb_ring = {#} \<and> sq_depth ex_tx_ring = 4"
    unfolding ex_cb_ring_def
    by (rule fresh_txq_ring [OF ex_tx_alloc]; code_simp)
  then show ?thesis by simp
qed

lemma ex_submit:
  "\<exists>r' q' copies eff. tx_one_submit 1 (\<lambda>_. ex_nb) (\<lambda>a. a) ex_cb_ring ex_queue 7 = (UK_NETDEV_STATUS_SUCCESS, r', q', copies, eff) \<and>
    tq_req_id q' = 0 \<and> tq_bounce_map q' = [0, - 1, - 1, - 1]"
proof -
  have "(case tx_one_submit 1 (\<lambda>_. ex_nb) (\<lambda>a. a) ex_cb_ring ex_queue 7 of
    (ret, r, q, copies, eff) \<Rightarrow> (ret, tq_req_id q, tq_bounce_map q)) = (UK_NETDEV_STATUS_SUCCESS, 0, [0, - 1, - 1, - 1])"
    by code_simp
  then show ?thesis by (auto split: prod.splits)
qed

subsection \<open>Properties\<close>


text \<open>C37: Configuring a transmit queue leaves it well formed: the ring holds no packet, its depth is
  the accepted number of descriptors, and all bounce slots are free.\<close>

theorem txq_configure_wellformed:
  assumes "ena_netdev_txq_configure P mem st qi nb n = (True, n')"
    and "unat qi < length (tx_rings (nd_ad n))" "unat qi < length (nd_txqs n)"
  shows "\<exists>r. ring_of ENA_RING_TYPE_TX (unat qi) (nd_sys n') = Some r \<and> txq_ring_ok r (nd_txqs n' ! unat qi) \<and>
    tx_held r = {#} \<and> sq_depth r = ena_netdev_clamp_desc_count nb (max_tx_ring_size (nd_ad n))"
  using assms by (rule txq_configure_ok)

theorem txq_configure_wellformed_witness:
  "\<exists>r. ring_of ENA_RING_TYPE_TX 0 (nd_sys ex_configured) = Some r \<and> txq_ring_ok r (nd_txqs ex_configured ! 0) \<and>
    tx_held r = {#} \<and> sq_depth r = ena_netdev_clamp_desc_count 4 4"
  using txq_configure_wellformed [OF ex_configure] by (simp add: ex_netdev_def)

text \<open>C4: Sending a packet on a configured queue, for any writes of the device during the poll
  before it: the ring and the bounce pool stay well formed, the packet buffer is taken over
  exactly when the result reports success, no other buffer is lost, and what is copied stays
  inside one bounce slot.\<close>

theorem tx_one_conserves:
  assumes r: "ring_of ENA_RING_TYPE_TX (unat qi) (nd_sys n) = Some r" and ok: "txq_ring_ok r (nd_txqs n ! unat qi)"
    and l: "unat qi < length (nd_txqs n)" and kl: "keeps_length txw"
    and e: "ena_netdev_tx_one P v2p txw cpu qi nb n = Some (ret, copies, push, n')"
  shows "\<exists>r' fs. ring_of ENA_RING_TYPE_TX (unat qi) (nd_sys n') = Some r' \<and> txq_ring_ok r' (nd_txqs n' ! unat qi) \<and>
    freed (nd_sys n') = freed (nd_sys n) @ fs \<and>
    tx_held r + (if ret = UK_NETDEV_STATUS_SUCCESS then {#nb#} else {#}) = tx_held r' + mset fs \<and>
    (\<forall>(off, bs) \<in> set copies. \<exists>slot < unat (tq_nb_desc (nd_txqs n' ! unat qi)). off = slot * 4096 \<and> length bs \<le> 4096)"
proof -
  obtain rc cnt r1 q1 fs where p: "ena_tx_poll_completions txw cpu ena_netdev_txq_reclaim_slot 32 r (nd_txqs n ! unat qi) =
      Some (rc, cnt, r1, q1, fs)"
    using e r by (auto simp: ena_netdev_tx_one_def Let_def split: option.splits)
  obtain r2 q2 eff where s: "tx_one_submit cpu (nd_nbs n) v2p r1 q1 nb = (ret, r2, q2, copies, eff)"
    and n': "nd_txqs n' = (nd_txqs n)[unat qi := q2]" "freed (nd_sys n') = freed (nd_sys n) @ fs"
      "tx_rings (nd_ad n') = (tx_rings (nd_ad n))[unat qi := Some r2]"
    using e r p by (auto simp: ena_netdev_tx_one_def Let_def ring_upd_def ring_of_def split: prod.splits)
  note po = txq_poll [OF ok kl p] and so = tx_one_submit_ok [OF conjunct1 [OF txq_poll [OF ok kl p]] s]
  have "unat qi < length (tx_rings (nd_ad n))" using r by (simp add: ring_of_def ring_at_def split: if_splits)
  then have r': "ring_of ENA_RING_TYPE_TX (unat qi) (nd_sys n') = Some r2" by (simp add: ring_of_def ring_at_def n')
  have "tq_nb_desc q1 = tq_nb_desc q2"
    using po so tx_one_submit_depth [OF s] by (simp add: txq_ring_ok_def)
  with tx_one_submit_copies [OF _ s] po
  have cp: "\<exists>slot < unat (tq_nb_desc q2). off = slot * 4096 \<and> length bs \<le> 4096" if "(off, bs) \<in> set copies" for off bs
    using that by (fastforce simp: txq_ring_ok_def)
  have q': "nd_txqs n' ! unat qi = q2" using l by (simp add: n'(1))
  show ?thesis
    unfolding q'
  proof (intro exI [of _ r2] exI [of _ fs] conjI)
    show "tx_held r + (if ret = UK_NETDEV_STATUS_SUCCESS then {#nb#} else {#}) = tx_held r2 + mset fs"
      using conjunct2 [OF po] conjunct2 [OF so] by (simp only: ac_simps)
    show "\<forall>(off, bs) \<in> set copies. \<exists>slot < unat (tq_nb_desc q2). off = slot * 4096 \<and> length bs \<le> 4096"
      using cp by blast
  qed (use r' so n' in simp_all)
qed

theorem tx_one_conserves_witness:
  "\<exists>copies push n' r' fs. ena_netdev_tx_one ex_platform (\<lambda>a. a) [] 1 0 7 ex_sending = Some (UK_NETDEV_STATUS_SUCCESS, copies, push, n') \<and>
    ring_of ENA_RING_TYPE_TX 0 (nd_sys n') = Some r' \<and> txq_ring_ok r' (nd_txqs n' ! 0) \<and>
    tx_held ex_cb_ring + {#7#} = tx_held r' + mset fs"
proof -
  have r: "ring_of ENA_RING_TYPE_TX (unat (0 :: u16)) (nd_sys ex_sending) = Some ex_cb_ring"
    by (simp add: ex_sending_def ring_of_def ring_at_def)
  have q: "nd_txqs ex_sending ! unat (0 :: u16) = ex_queue" "unat (0 :: u16) < length (nd_txqs ex_sending)"
    by (simp_all add: ex_sending_def)
  have "map_option (\<lambda>(ret, _). ret) (ena_netdev_tx_one ex_platform (\<lambda>a. a) [] 1 0 7 ex_sending) = Some UK_NETDEV_STATUS_SUCCESS"
    by code_simp
  then obtain copies push n' where
    e: "ena_netdev_tx_one ex_platform (\<lambda>a. a) [] 1 0 7 ex_sending = Some (UK_NETDEV_STATUS_SUCCESS, copies, push, n')" by auto
  from tx_one_conserves [OF r _ q(2) _ e] ex_queue_ok q(1) e show ?thesis by auto
qed

text \<open>C12: A transmit queue implements a list of free slots and a partial map of bound ones: a
  completion moves the slot of its request, if it has one, to the end of the list, and a packet
  sent through the bounce memory takes the first slot of the list for its request.\<close>

theorem txq_refines_spec:
  assumes "txq_ring_ok r q"
  shows "txq_abs (ena_netdev_txq_reclaim_slot q i) = spec_reclaim i (txq_abs q) \<and>
    (tx_one_submit cpu nbs v2p r q nb = (UK_NETDEV_STATUS_SUCCESS, r', q', copies, eff) \<longrightarrow>
     ena_netbuf_phys_addr v2p (nbs nb) < ENA_DMA_LOW_MEM_LIMIT \<longrightarrow> txq_abs q' = spec_send (tq_req_id q') (txq_abs q))"
  using assms reclaim_abs [of q i] send_abs [OF assms] by (auto simp: txq_ring_ok_def)

theorem txq_refines_spec_witness:
  "\<exists>r' q' copies eff. tx_one_submit 1 (\<lambda>_. ex_nb) (\<lambda>a. a) ex_cb_ring ex_queue 7 = (UK_NETDEV_STATUS_SUCCESS, r', q', copies, eff) \<and>
    txq_abs q' = spec_send 0 (txq_abs ex_queue)"
proof -
  obtain r' q' copies eff where
    e: "tx_one_submit 1 (\<lambda>_. ex_nb) (\<lambda>a. a) ex_cb_ring ex_queue 7 = (UK_NETDEV_STATUS_SUCCESS, r', q', copies, eff)" "tq_req_id q' = 0"
    using ex_submit by blast
  have "ena_netbuf_phys_addr (\<lambda>a. a) ex_nb < ENA_DMA_LOW_MEM_LIMIT" by code_simp
  with txq_refines_spec [OF ex_queue_ok, of 0 1 "\<lambda>_. ex_nb" "\<lambda>a. a" 7 r' q' copies eff] e show ?thesis by auto
qed

text \<open>The payload of a received packet is read from its own bounce slot only: two bounce
  memories that agree inside the slot give the same packet, for every length the device can
  report.\<close>

theorem rx_payload_in_slot:
  assumes "pk_len p \<le> 0xFFFF"
    and "\<And>off k. nat (rx_slot_of q (pk_req_id p)) * 2048 \<le> off \<Longrightarrow>
      off + k \<le> nat (rx_slot_of q (pk_req_id p)) * 2048 + 2048 \<Longrightarrow> b1 off k = b2 off k"
  shows "rx_payload b1 p info q = rx_payload b2 p info q"
proof -
  have u: "unat (ucast (pk_offset p) + pk_len p :: u32) = unat (pk_offset p) + unat (pk_len p)"
  proof -
    have "unat (pk_len p) \<le> 0xFFFF" using assms(1) by (simp add: word_le_nat_alt)
    moreover have "unat (pk_offset p) < 256" using unsigned_less [of "pk_offset p"] by simp
    moreover have "unat (ucast (pk_offset p) :: u32) = unat (pk_offset p)"
      using calculation(2) by (simp add: unsigned_ucast_eq take_bit_nat_eq_self)
    ultimately show ?thesis by (simp add: unat_word_ariths)
  qed
  have "b1 (nat (rx_slot_of q (pk_req_id p)) * 2048 + unat (pk_offset p)) (unat (pk_len p)) =
      b2 (nat (rx_slot_of q (pk_req_id p)) * 2048 + unat (pk_offset p)) (unat (pk_len p))"
    if "ucast (pk_offset p) + pk_len p \<le> ENA_RX_BUF_SIZE"
    using that u by (intro assms(2)) (simp_all add: ENA_RX_BUF_SIZE_def word_le_nat_alt)
  then show ?thesis
    by (cases "ucast (pk_offset p) + pk_len p \<le> ENA_RX_BUF_SIZE")
      (auto simp: rx_payload_def Let_def ENA_RX_BUF_SIZE_def split: option.splits)
qed

definition ex_rxq_bounced :: uk_netdev_rx_queue where
  "ex_rxq_bounced = ex_rx_queue\<lparr> rq_bounce_buf := True, rq_bounce_map := [1, - 1, - 1, - 1] \<rparr>"

definition ex_rx_pkt :: ena_rx_pkt where
  "ex_rx_pkt = \<lparr> pk_netbuf = Some 7, pk_len = 60, pk_offset = 2, pk_hash = 0, pk_l3_csum_err = False, pk_l4_csum_err = False,
     pk_l4_csum_checked = True, pk_frag = False, pk_first = True, pk_last = True, pk_req_id = 0 \<rparr>"

theorem rx_payload_in_slot_witness:
  "rx_slot_of ex_rxq_bounced (pk_req_id ex_rx_pkt) = 1 \<and>
    rx_payload (\<lambda>off k. replicate k 5) ex_rx_pkt ex_nb ex_rxq_bounced =
    rx_payload (\<lambda>off k. if 2048 \<le> off \<and> off + k \<le> 4096 then replicate k 5 else []) ex_rx_pkt ex_nb ex_rxq_bounced"
proof
  show s: "rx_slot_of ex_rxq_bounced (pk_req_id ex_rx_pkt) = 1" by code_simp
  show "rx_payload (\<lambda>off k. replicate k 5) ex_rx_pkt ex_nb ex_rxq_bounced =
    rx_payload (\<lambda>off k. if 2048 \<le> off \<and> off + k \<le> 4096 then replicate k 5 else []) ex_rx_pkt ex_nb ex_rxq_bounced"
    by (rule rx_payload_in_slot) (simp_all add: s ex_rx_pkt_def [THEN arg_cong [of _ _ pk_len]])
qed

text \<open>A second, larger configuration is accepted but keeps the ring array of the first: the
  number of rings then exceeds the array.\<close>

theorem reconfigure_outgrows_array:
  "let s = ad_update (\<lambda>a. a\<lparr> max_rx_queues := 2, max_tx_queues := 2 \<rparr>) ex_probed;
       (ret1, s1) = ena_netdev_configure ex_platform UK_NETDEV_UNCONFIGURED 1 1 s;
       (ret2, s2) = ena_netdev_configure ex_platform UK_NETDEV_CONFIGURED 2 2 s1
   in ret1 = 0 \<and> ret2 = 0 \<and> num_rx_rings (ad s2) = 2 \<and> length (rx_rings (ad s2)) = 1 \<and>
      num_tx_rings (ad s2) = 2 \<and> length (tx_rings (ad s2)) = 1"
  by code_simp

definition ex_two_posted :: ena_ring where
  "ex_two_posted = snd (snd (ena_rx_submit_one ex_rx_busy (Some 8) 0x300000 2048))"

definition ex_fragments :: rx_cq_write where
  "ex_fragments m = m[0 := (ex_cdesc 0 4000)\<lparr> rxc_status := 0x05000000 \<rparr>, 1 := (ex_cdesc 1 60)\<lparr> rxc_status := 0x09000000 \<rparr>]"

text \<open>When the first fragment of a frame is dropped, its last fragment is delivered as a frame
  of its own: with a completion that is too long for its buffer and opens a frame, followed by
  the one that ends it, the receive handler releases the first buffer and returns the second.\<close>

theorem rx_tail_fragment_delivered:
  "map_option (\<lambda>(ret, frame, c). (ret, frame, rc_freed c))
     (rx_one_loop (\<lambda>d q. (None, q, d, [])) (\<lambda>_ _. []) [[ex_fragments, \<lambda>m. m, \<lambda>m. m]]
       \<lparr> rc_ring = ex_two_posted\<lparr> drop_netbuf_cb := True \<rparr>, rc_queue = ex_rx_queue, rc_nbs = (\<lambda>_. ex_nb), rc_dev = (), rc_freed = [], rc_db = [] \<rparr>) =
   Some (UK_NETDEV_STATUS_SUCCESS, [8], [7])"
  by code_simp

definition ex_exec :: "nat exec_fn" where
  "ex_exec op req n t s =
    (if dev s < 2 then (0, replicate n 0, None, s\<lparr> dev := Suc (dev s) \<rparr>) else (- EIO, [], None, s\<lparr> dev := Suc (dev s) \<rparr>))"

definition ex_starting :: "nat sys" where
  "ex_starting = \<lparr> ad = adapter_zero\<lparr> bar0_base := True, tx_rings := [None, Some ex_tx_ring], num_tx_rings := 2,
     rx_rings := [Some ex_rx_ring], num_rx_rings := 1 \<rparr>, rxqs = [], dev = 0, freed = [] \<rparr>"

text \<open>When starting fails, the rollback destroys as many rings as were created, but counts
  from index 0: with an unused first transmit ring, the second one keeps its hardware queue and
  no destroy command is sent.\<close>

theorem start_rollback_misses_ring:
  "(case ena_netdev_start_rings_hw P ex_exec 1 2 ex_starting of
     (ret, s) \<Rightarrow> (ret, map_option hw_valid (ring_of ENA_RING_TYPE_TX 1 s), dev s)) = (- EIO, Some True, 3)"
  by code_simp

end
