(* ===== verification/Ena_Intr_Props.thy ===== *)
theory Ena_Intr_Props
  imports Ena_Intr Ena_Recover_Props Ena_Tx_Poll Ena_Rx_Facts
begin

text \<open>
  The polling sweep over all rings of an adapter: it keeps every ring well formed and accounts
  for every packet buffer, whatever the device writes while it runs.
\<close>

subsection \<open>One ring\<close>

definition rings_wf :: "ena_adapter \<Rightarrow> bool" where
  "rings_wf a \<longleftrightarrow> (\<forall>r. Some r \<in> set (tx_rings a) \<longrightarrow> tx_ring_ok r) \<and> (\<forall>r. Some r \<in> set (rx_rings a) \<longrightarrow> rx_ring_ok r)"

definition pkts_held :: "ena_rx_pkt list \<Rightarrow> netbuf multiset" where
  "pkts_held ps = (\<Sum>p\<leftarrow>ps. opt_mset (pk_netbuf p))"

definition sys_total :: "'d sys \<Rightarrow> netbuf multiset" where
  "sys_total s = adapter_held (ad s) + mset (freed s)"

lemma pkts_held_append: "pkts_held (ps @ qs) = pkts_held ps + pkts_held qs"
  by (simp add: pkts_held_def)

lemma ring_held_tx: "tx_ring_ok r \<Longrightarrow> ring_held (Some r) = tx_held r"
  by (simp add: ring_held_def tx_ring_ok_def tx_ok_exceptD(1))

lemma ring_held_rx: "rx_ring_ok r \<Longrightarrow> ring_held (Some r) = rx_held r"
  by (simp add: ring_held_def rx_ring_okD(1))

lemma held_list_update:
  assumes "ring_at rs q = Some r"
  shows "(\<Sum>x\<leftarrow>rs[q := Some r']. ring_held x) + ring_held (Some r) = (\<Sum>x\<leftarrow>rs. ring_held x) + ring_held (Some r')"
  using sum_list_update_add [of q "map ring_held rs" "ring_held (Some r')"] assms
  by (simp add: ring_at_def map_update split: if_splits)

lemma tx_poll_account:
  assumes ok: "tx_ring_ok r" and kl: "keeps_length devs"
    and e: "ena_tx_poll_completions devs cpu cb budget r x = Some (rc, cnt, r', x', fs)"
  shows "tx_ring_ok r' \<and> tx_held r = tx_held r' + mset fs"
  using e ok
proof (cases rule: tx_poll_cases)
  case (run n f2)
  note d = drain_ok [OF ok, of cpu]
  from tx_poll_loop_ok [OF d(1) kl _ run(3)] d(2) run(6) show ?thesis by (simp add: ac_simps)
qed (use ok in simp)

lemma rx_poll_account:
  assumes "rx_ring_ok r" and "keeps_length devs" and "ena_rx_poll devs mx r q = Some (rc, t, db)"
  shows "rx_ring_ok (rs_ring t) \<and> (rc \<le> 0 \<longrightarrow> rs_pkts t = []) \<and>
    rx_held r = rx_held (rs_ring t) + mset (rs_freed t) + pkts_held (rs_pkts t)"
  using rx_poll_run [OF assms(1,3)] assms(1,2)
    rx_poll_loop_total [of devs mx "\<lparr> rs_ring = r, rs_queue = q, rs_pkts = [], rs_dropped = 0, rs_freed = [] \<rparr>" t]
  by (auto simp: rs_total_def pkts_held_def)

lemma poll_tx_ring_ok:
  assumes wf: "rings_wf (ad s)" and kl: "keeps_length devs" and e: "poll_tx_ring devs cpu cb budget q s x = Some (n, s', x')"
  shows "rings_wf (ad s') \<and> sys_total s = sys_total s'"
proof (cases "ring_of ENA_RING_TYPE_TX q s")
  case None
  with e wf show ?thesis by (simp add: poll_tx_ring_def)
next
  case (Some r)
  then have a: "ring_at (tx_rings (ad s)) q = Some r" by (simp add: ring_of_def)
  then have ok: "tx_ring_ok r" using wf ring_at_set by (auto simp: rings_wf_def)
  obtain rc cnt r' fs where p: "ena_tx_poll_completions devs cpu cb budget r x = Some (rc, cnt, r', x', fs)"
    and s': "s' = ring_upd ENA_RING_TYPE_TX q (\<lambda>_. r') (s\<lparr> freed := freed s @ fs \<rparr>)"
    using e Some by (auto simp: poll_tx_ring_def split: option.splits)
  note A = tx_poll_account [OF ok kl p]
  have t: "tx_rings (ad s') = (tx_rings (ad s))[q := Some r']" "rx_rings (ad s') = rx_rings (ad s)" "freed s' = freed s @ fs"
    using a by (simp_all add: s' ring_upd_def)
  have "rings_wf (ad s')" using wf A by (auto simp: rings_wf_def t dest!: set_update_cases)
  moreover have "sys_total s = sys_total s'"
    using held_list_update [OF a, of r'] A ring_held_tx [OF ok] ring_held_tx [of r']
    by (simp add: sys_total_def adapter_held_def t)
  ultimately show ?thesis ..
qed

lemma poll_rx_ring_ok:
  assumes wf: "rings_wf (ad s)" and kl: "keeps_length devs" and e: "poll_rx_ring P devs budget q s = Some (ps, s')"
  shows "rings_wf (ad s') \<and> sys_total s = sys_total s' + pkts_held ps"
proof (cases "ring_of ENA_RING_TYPE_RX q s")
  case None
  with e wf show ?thesis by (simp add: poll_rx_ring_def pkts_held_def)
next
  case (Some r)
  then have a: "ring_at (rx_rings (ad s)) q = Some r" by (simp add: ring_of_def)
  then have ok: "rx_ring_ok r" using wf ring_at_set by (auto simp: rings_wf_def)
  obtain rc t db where p: "ena_rx_poll devs (unat (if 32 < budget then 32 else budget)) r (rxq_at q s) = Some (rc, t, db)"
    and ps: "ps = (if 0 < rc then rs_pkts t else [])" and s': "s' = ring_upd ENA_RING_TYPE_RX q (\<lambda>_. rs_ring t)
      (s\<lparr> rxqs := (rxqs s)[q := rs_queue t], dev := apply_db P db (dev s), freed := freed s @ rs_freed t \<rparr>)"
    using e Some by (auto simp: poll_rx_ring_def split: option.splits)
  note A = rx_poll_account [OF ok kl p]
  have ps': "ps = rs_pkts t" using A ps by auto
  have u: "rx_rings (ad s') = (rx_rings (ad s))[q := Some (rs_ring t)]" "tx_rings (ad s') = tx_rings (ad s)"
    "freed s' = freed s @ rs_freed t" using a by (simp_all add: s' ring_upd_def)
  have "rings_wf (ad s')" using wf A by (auto simp: rings_wf_def u dest!: set_update_cases)
  moreover have "sys_total s = sys_total s' + pkts_held ps"
    using held_list_update [OF a, of "rs_ring t"] A ring_held_rx [OF ok] ring_held_rx [of "rs_ring t"]
    by (simp add: sys_total_def adapter_held_def u ps')
  ultimately show ?thesis ..
qed

subsection \<open>The loops\<close>

lemma poll_tx_loop_ok:
  assumes "rings_wf (ad s)" and "\<And>q. keeps_length (devs q)"
    and "poll_tx_loop devs cpu cb budget qs tot cleaned s x = Some (tot', cleaned', s', x')"
  shows "rings_wf (ad s') \<and> sys_total s = sys_total s'"
  using assms(1,3)
proof (induction qs arbitrary: tot cleaned s x)
  case (Cons q qs)
  from Cons.prems(2) obtain n s1 x1 where p: "poll_tx_ring (devs q) cpu (cb q) budget q s x = Some (n, s1, x1)"
    "poll_tx_loop devs cpu cb budget qs (tot + n) (cleaned + ucast n) s1 x1 = Some (tot', cleaned', s', x')"
    by (auto split: option.splits)
  note o = poll_tx_ring_ok [OF Cons.prems(1) assms(2) p(1)]
  from Cons.IH [OF conjunct1 [OF o] p(2)] o show ?case by simp
qed simp

lemma poll_rx_loop_ok:
  assumes "rings_wf (ad s)" and "\<And>q. keeps_length (devs q)"
    and "poll_rx_loop P devs True budget qs tot rcvd out s = Some (tot', rcvd', out', s')"
  shows "rings_wf (ad s') \<and> sys_total s + pkts_held (map snd out) = sys_total s' + pkts_held (map snd out')"
  using assms(1,3)
proof (induction qs arbitrary: tot rcvd out s)
  case (Cons q qs)
  from Cons.prems(2) obtain ps s1 where p: "poll_rx_ring P (devs q) budget q s = Some (ps, s1)"
    "poll_rx_loop P devs True budget qs (tot + of_nat (length ps)) (rcvd + of_nat (length ps)) (out @ map (Pair q) ps) s1 =
      Some (tot', rcvd', out', s')"
    by (auto split: option.splits)
  note o = poll_rx_ring_ok [OF Cons.prems(1) assms(2) p(1)]
  from Cons.IH [OF conjunct1 [OF o] p(2)] o show ?case by (simp add: pkts_held_append comp_def ac_simps)
qed simp

subsection \<open>Properties\<close>

text \<open>C8: A polling sweep with a receive handler keeps every ring well formed and loses no packet
  buffer: those the rings held are afterwards held, released or handed to the handler, each
  once, for any writes of the device during the sweep.\<close>

theorem poll_step_conserves:
  assumes wf: "rings_wf (ad s)" and h: "rx_handler ctx"
    and kl: "\<And>q. keeps_length (txw q)" "\<And>q. keeps_length (rxw q)"
    and e: "ena_poll_step P txw rxw cpu cb ctx s x = Some (rc, tot, out, ctx', s', x')"
  shows "rings_wf (ad s') \<and> adapter_held (ad s) + mset (freed s) =
    adapter_held (ad s') + mset (freed s') + pkts_held (map snd out)"
proof (cases "num_tx_rings (ad s) = 0 \<and> num_rx_rings (ad s) = 0")
  case True
  with e wf show ?thesis by (auto simp: ena_poll_step_def Let_def pkts_held_def)
next
  case False
  from e False h obtain bt br c1 tot1 s1 x1 cl rcvd where
    t: "poll_tx_loop txw cpu cb bt [0..<unat (num_tx_rings (ad s))] 0 c1 s x = Some (tot1, cl, s1, x1)" and
    r: "poll_rx_loop P rxw True br [0..<unat (num_rx_rings (ad s))] tot1 (total_rx_received ctx) [] s1 = Some (tot, rcvd, out, s')"
    by (auto simp: ena_poll_step_def Let_def split: option.splits if_splits)
  note T = poll_tx_loop_ok [OF wf kl(1) t] and R = poll_rx_loop_ok [OF conjunct1 [OF poll_tx_loop_ok [OF wf kl(1) t]] kl(2) r]
  from T R show ?thesis by (simp add: sys_total_def pkts_held_def)
qed

definition ex_poll_ctx :: ena_poll_ctx where
  "ex_poll_ctx = \<lparr> tx_budget = 0, rx_budget = 0, total_tx_cleaned = 0, total_rx_received = 0, rx_handler = True \<rparr>"

theorem poll_step_conserves_witness:
  "\<exists>out ctx' s' x'. ena_poll_step ex_platform (\<lambda>_. []) (\<lambda>_. [ex_rx_arrive, \<lambda>m. m]) 1 (\<lambda>_ q _. q) ex_poll_ctx ex_running () =
      Some (1, 1, out, ctx', s', x') \<and> map (\<lambda>(q, p). (q, pk_netbuf p)) out = [(0, Some 7)] \<and> rings_wf (ad s') \<and>
    adapter_held (ad ex_running) + mset (freed ex_running) = adapter_held (ad s') + mset (freed s') + pkts_held (map snd out)"
proof -
  let ?p = "ena_poll_step ex_platform (\<lambda>_. []) (\<lambda>_. [ex_rx_arrive, \<lambda>m. m]) 1 (\<lambda>_ q _. q) ex_poll_ctx ex_running ()"
  have "map_option (\<lambda>(rc, tot, out, _). (rc, tot, map (\<lambda>(q, p). (q, pk_netbuf p)) out)) ?p = Some (1, 1, [(0, Some 7)])"
    by code_simp
  then obtain out ctx' s' x' where p: "?p = Some (1, 1, out, ctx', s', x')" and
    o: "map (\<lambda>(q, p). (q, pk_netbuf p)) out = [(0, Some 7)]" by auto
  have wf: "rings_wf (ad ex_running)" using ex_running_ok by (simp add: rings_ok_def rings_wf_def)
  have h: "rx_handler ex_poll_ctx" by (simp add: ex_poll_ctx_def)
  from poll_step_conserves [OF wf h _ _ p] p o show ?thesis by (auto simp: ex_rx_arrive_def)
qed

end
