(* ===== verification/Ena_Plat.thy ===== *)
theory Ena_Plat
  imports Ena_Intr
begin

text \<open>
  The platform layer of the Unikraft build (\<^verbatim>\<open>src/src/ena_plat.c\<close>): access to the PCI
  configuration space, the MSI-X capability, and DMA memory.

  Port I/O, the interrupt controller, the frame allocator, the virtual memory areas and the heap are
  functions on the platform state.  A pointer is its address, 0 the null pointer.  The walk along the
  capability list has no bound in the code and is a partial function.
\<close>

subsection \<open>Configuration space\<close>

text \<open>One function of the bus: its dword registers, by the offset written to the address port.\<close>

record 'd pci_cfg =
  pc_read :: "u32 \<Rightarrow> 'd \<Rightarrow> u32 \<times> 'd"
  pc_write :: "u32 \<Rightarrow> u32 \<Rightarrow> 'd \<Rightarrow> 'd"

definition plat_pci_cfg_read :: "'d pci_cfg \<Rightarrow> u32 \<Rightarrow> 'd \<Rightarrow> u32 \<times> 'd" where
  "plat_pci_cfg_read C reg d = pc_read C (reg AND 0xFC) d"

definition plat_pci_cfg_write :: "'d pci_cfg \<Rightarrow> u32 \<Rightarrow> u32 \<Rightarrow> 'd \<Rightarrow> 'd" where
  "plat_pci_cfg_write C reg v d = pc_write C (reg AND 0xFC) v d"

definition msix_cfg_dump :: "'d pci_cfg \<Rightarrow> 'd \<Rightarrow> 'd" where
  "msix_cfg_dump C d =
    fold (\<lambda>i d. fold (\<lambda>k d. snd (plat_pci_cfg_read C (16 * of_nat i + k) d)) [0, 4, 8, 12] d) [0..<64] d"

subsection \<open>The MSI-X capability\<close>

definition ENA_PLAT_PCI_CAP_ID_MSIX :: u32 where [ena_consts]: "ENA_PLAT_PCI_CAP_ID_MSIX = 0x11"
definition ENA_PLAT_MSIX_MAX_VECTORS :: u32 where [ena_consts]: "ENA_PLAT_MSIX_MAX_VECTORS = 32"

text \<open>The loop both searches share: the offset and the header of the first MSI-X capability.\<close>

partial_function (option) msix_walk :: "'d pci_cfg \<Rightarrow> u32 \<Rightarrow> 'd \<Rightarrow> ((u32 \<times> u32) option \<times> 'd) option" where
  "msix_walk C cap d =
    (if cap = 0 then Some (None, d)
     else case plat_pci_cfg_read C cap d of (dw, d) \<Rightarrow>
       if dw AND 0xFF = ENA_PLAT_PCI_CAP_ID_MSIX then Some (Some (cap, dw), d)
       else msix_walk C (drop_bit 8 dw AND 0xFF) d)"

definition msix_first_cap :: "'d pci_cfg \<Rightarrow> 'd \<Rightarrow> ((u32 \<times> u32) option \<times> 'd) option" where
  "msix_first_cap C d = (case plat_pci_cfg_read C 0x34 d of (p, d) \<Rightarrow> msix_walk C (p AND 0xFC) d)"

definition msg_ctrl_of :: "u32 \<Rightarrow> u32" where
  "msg_ctrl_of dw = drop_bit 16 dw AND 0xFFFF"

definition msix_table_size :: "u32 \<Rightarrow> u32" where
  "msix_table_size dw = (msg_ctrl_of dw AND 0x7FF) + 1"

text \<open>The arguments say whether the count pointer and the device are given.\<close>

definition ena_plat_msix_probe :: "'d pci_cfg \<Rightarrow> bool \<Rightarrow> bool \<Rightarrow> 'd \<Rightarrow> (int \<times> u32 \<times> 'd) option" where
  "ena_plat_msix_probe C out addr d =
    (if \<not> out then Some (- EINVAL, 0, d)
     else if \<not> addr then Some (0, 0, d)
     else case msix_first_cap C d of
       None \<Rightarrow> None
     | Some (None, d) \<Rightarrow> Some (0, 0, msix_cfg_dump C d)
     | Some (Some (cap, dw), d) \<Rightarrow> Some (0, msix_table_size dw, d))"

record ena_msix_loc =
  ml_msgctl_off :: u32
  ml_count :: u32
  ml_table :: u64
  ml_pba :: u64

definition loc_zero :: ena_msix_loc where
  "loc_zero = \<lparr> ml_msgctl_off = 0, ml_count = 0, ml_table = 0, ml_pba = 0 \<rparr>"

definition msix_bar_base :: "'d pci_cfg \<Rightarrow> u32 \<Rightarrow> 'd \<Rightarrow> u64 \<times> 'd" where
  "msix_bar_base C bar_reg d =
    (case plat_pci_cfg_read C bar_reg d of (v, d) \<Rightarrow>
     let bar_lo = v AND NOT 0x0F in
     case plat_pci_cfg_read C bar_reg d of (w, d) \<Rightarrow>
       if w AND 0x06 = 0x04 then
         (case plat_pci_cfg_read C (bar_reg + 4) d of (hi, d) \<Rightarrow> (ucast bar_lo OR push_bit 32 (ucast hi), d))
       else (ucast bar_lo, d))"

definition msix_find :: "'d pci_cfg \<Rightarrow> 'd \<Rightarrow> (int \<times> ena_msix_loc \<times> 'd) option" where
  "msix_find C d =
    (case msix_first_cap C d of
       None \<Rightarrow> None
     | Some (None, d) \<Rightarrow> Some (- ENODEV, loc_zero, d)
     | Some (Some (cap, dw), d) \<Rightarrow>
       Some (case plat_pci_cfg_read C (cap + 4) d of (table_off, d) \<Rightarrow>
             case plat_pci_cfg_read C (cap + 8) d of (pba_off, d) \<Rightarrow>
             let loc = loc_zero\<lparr> ml_msgctl_off := cap + 2, ml_count := msix_table_size dw \<rparr>
             in case msix_bar_base C (0x10 + 4 * (table_off AND 7)) d of (base, d) \<Rightarrow>
                if base = 0 then (- ENODEV, loc, d)
                else (0, loc\<lparr> ml_table := base + ucast (table_off AND NOT 7),
                                ml_pba := base + ucast (pba_off AND NOT 7) \<rparr>, d)))"

subsection \<open>Arming and disarming\<close>

text \<open>
  The interrupt controller of Unikraft, and the table in the device's memory.  An allocation gives a
  status, the interrupt line, and the address and data of its message; the line stored by a failed
  allocation is never read.  The read-back for the heartbeat (\<^verbatim>\<open>ena_plat_msix_diag\<close>) is not modelled.
\<close>

record 'd intctlr =
  ic_alloc :: "u32 \<Rightarrow> 'd \<Rightarrow> int \<times> u32 \<times> u64 \<times> u32 \<times> 'd"
  ic_free :: "u32 \<Rightarrow> 'd \<Rightarrow> 'd"
  ic_register :: "u32 \<Rightarrow> 'd \<Rightarrow> int \<times> 'd"
  ic_unregister :: "u32 \<Rightarrow> 'd \<Rightarrow> 'd"
  ic_store :: "u64 \<Rightarrow> u32 \<Rightarrow> 'd \<Rightarrow> 'd"

record msix_state =
  ms_armed :: bool
  ms_nvec :: u32
  ms_irqs :: "u32 list"
  ms_count :: "u32 list"
  ms_ctx :: "u32 list"
  ms_req :: ena_msix_req
  ms_loc :: ena_msix_loc

text \<open>The request's array is zeroed before it is filled.\<close>

definition lcpu_at :: "ena_msix_req \<Rightarrow> nat \<Rightarrow> u32" where
  "lcpu_at req i = (if i < length (mr_lcpu req) then mr_lcpu req ! i else 0)"

definition program_entry :: "'d intctlr \<Rightarrow> u64 \<Rightarrow> nat \<Rightarrow> u64 \<Rightarrow> u32 \<Rightarrow> 'd \<Rightarrow> 'd" where
  "program_entry I table i maddr mdata d =
    (let e = table + 16 * of_nat i in
     ic_store I (e + 12) 0 (ic_store I (e + 8) mdata
       (ic_store I (e + 4) (ucast (drop_bit 32 maddr)) (ic_store I e (ucast (maddr AND 0xFFFFFFFF)) d))))"

definition irq_release :: "'d intctlr \<Rightarrow> u32 list \<Rightarrow> nat \<Rightarrow> 'd \<Rightarrow> 'd" where
  "irq_release I irqs i d = ic_free I (irqs ! i) (ic_unregister I (irqs ! i) d)"

definition arm_rollback :: "'d intctlr \<Rightarrow> u32 list \<Rightarrow> nat \<Rightarrow> 'd \<Rightarrow> 'd" where
  "arm_rollback I irqs i d = fold (irq_release I irqs) (rev [0..<i]) d"

fun arm_loop :: "'d intctlr \<Rightarrow> ena_msix_req \<Rightarrow> nat list \<Rightarrow> msix_state \<Rightarrow> 'd \<Rightarrow> int \<times> msix_state \<times> 'd" where
  "arm_loop I req [] ms d = (0, ms, d)"
| "arm_loop I req (i # is) ms d =
    (case ic_alloc I (lcpu_at req i) d of (ret, irq, maddr, mdata, d) \<Rightarrow>
     let ms = ms\<lparr> ms_irqs := (ms_irqs ms)[i := irq] \<rparr> in
     if ret \<noteq> 0 then (ret, ms, arm_rollback I (ms_irqs ms) i d)
     else
       let ms = ms\<lparr> ms_ctx := (ms_ctx ms)[i := of_nat i] \<rparr>;
           d = program_entry I (ml_table (ms_loc ms)) i maddr mdata d
       in case ic_register I (ms_irqs ms ! i) d of (ret, d) \<Rightarrow>
          if ret \<noteq> 0 then (ret, ms, arm_rollback I (ms_irqs ms) i (ic_free I (ms_irqs ms ! i) d))
          else arm_loop I req is ms d)"

text \<open>The vector count is compared as a signed int.\<close>

definition arm_nvec :: "ena_msix_req \<Rightarrow> ena_msix_loc \<Rightarrow> int" where
  "arm_nvec req loc =
    (let nvec = sint (mr_nvec req);
         nvec = (if sint (ml_count loc) < nvec then sint (ml_count loc) else nvec)
     in if sint ENA_PLAT_MSIX_MAX_VECTORS < nvec then sint ENA_PLAT_MSIX_MAX_VECTORS else nvec)"

definition msgctl_set :: "'d pci_cfg \<Rightarrow> (u32 \<Rightarrow> u32) \<Rightarrow> ena_msix_loc \<Rightarrow> 'd \<Rightarrow> 'd" where
  "msgctl_set C f loc d =
    (let base = ml_msgctl_off loc AND NOT 3 in
     case plat_pci_cfg_read C base d of (dw, d) \<Rightarrow>
       plat_pci_cfg_write C base ((dw AND 0xFFFF) OR push_bit 16 (f (msg_ctrl_of dw))) d)"

definition ena_plat_msix_arm ::
  "'d pci_cfg \<Rightarrow> 'd intctlr \<Rightarrow> bool \<Rightarrow> ena_msix_req option \<Rightarrow> msix_state \<Rightarrow> 'd \<Rightarrow> (int \<times> msix_state \<times> 'd) option" where
  "ena_plat_msix_arm C I addr req ms d =
    (case req of
       None \<Rightarrow> Some (- EINVAL, ms, d)
     | Some req \<Rightarrow>
       if \<not> addr then Some (- EINVAL, ms, d)
       else if ms_armed ms then Some (- EBUSY, ms, d)
       else case msix_find C d of
         None \<Rightarrow> None
       | Some (ret, loc, d) \<Rightarrow>
         let ms = ms\<lparr> ms_loc := loc \<rparr> in
         if ret \<noteq> 0 then Some (ret, ms, d)
         else
           let nvec = arm_nvec req loc in
           if nvec \<le> 0 then Some (- ENODEV, ms, d)
           else
             let ms = ms\<lparr> ms_req := req\<lparr> mr_nvec := word_of_int nvec \<rparr> \<rparr>
             in case arm_loop I req [0..<nat nvec] ms d of (ret, ms, d) \<Rightarrow>
                if ret \<noteq> 0 then Some (ret, ms, d)
                else Some (0, ms\<lparr> ms_armed := True, ms_nvec := word_of_int nvec \<rparr>,
                       msgctl_set C (\<lambda>c. (c AND NOT 0x4000) OR 0x8000) loc d))"

definition ena_plat_msix_disarm :: "'d pci_cfg \<Rightarrow> 'd intctlr \<Rightarrow> msix_state \<Rightarrow> 'd \<Rightarrow> msix_state \<times> 'd" where
  "ena_plat_msix_disarm C I ms d =
    (if \<not> ms_armed ms then (ms, d)
     else (ms\<lparr> ms_armed := False, ms_nvec := 0 \<rparr>,
           msgctl_set C (\<lambda>c. c AND NOT 0x8000) (ms_loc ms)
             (fold (irq_release I (ms_irqs ms)) [0..<unat (ms_nvec ms)] d)))"

text \<open>A delivery: it is counted and handed to the driver's callback.\<close>

definition msix_tramp :: "(u32 \<Rightarrow> 'd \<Rightarrow> 'd) option \<Rightarrow> nat \<Rightarrow> msix_state \<Rightarrow> 'd \<Rightarrow> msix_state \<times> 'd" where
  "msix_tramp on_fire i ms d =
    (let v = ms_ctx ms ! i in
     (ms\<lparr> ms_count := (ms_count ms)[unat v := ms_count ms ! unat v + 1] \<rparr>,
      case on_fire of None \<Rightarrow> d | Some f \<Rightarrow> f v d))"

definition ena_plat_msix_vector_count :: "u32 \<Rightarrow> msix_state \<Rightarrow> u32" where
  "ena_plat_msix_vector_count v ms = (if ENA_PLAT_MSIX_MAX_VECTORS \<le> v then 0 else ms_count ms ! unat v)"

definition ena_plat_msix_count_get :: "msix_state \<Rightarrow> u32" where
  "ena_plat_msix_count_get ms = fold (\<lambda>i t. t + ms_count ms ! i) [0..<unat (ms_nvec ms)] 0"

definition ena_plat_msix_state :: "msix_state \<Rightarrow> u32" where
  "ena_plat_msix_state ms = (if ms_armed ms then ms_nvec ms else 0)"

subsection \<open>DMA memory\<close>

text \<open>
  The three builds: with virtual memory areas, with paging only, with neither.  Page alignment and the
  page shift are Unikraft's.
\<close>

datatype mem_build = Ukvmem | Ukpaging | Flat

record 'd uk_mem =
  um_build :: mem_build
  um_align_up :: "u64 \<Rightarrow> u64"
  um_align_down :: "u64 \<Rightarrow> u64"
  um_shift :: nat
  um_falloc :: "u64 \<Rightarrow> 'd \<Rightarrow> u64 option \<times> 'd"
  um_ffree :: "u64 \<Rightarrow> u64 \<Rightarrow> 'd \<Rightarrow> 'd"
  um_vma_map_dma :: "u64 \<Rightarrow> u64 \<Rightarrow> 'd \<Rightarrow> int \<times> u64 \<times> 'd"
  um_vma_find :: "u64 \<Rightarrow> 'd \<Rightarrow> (u64 \<times> u64) option"
  um_vma_unmap :: "u64 \<Rightarrow> u64 \<Rightarrow> 'd \<Rightarrow> 'd"
  um_page_map :: "u64 \<Rightarrow> u64 \<Rightarrow> u64 \<Rightarrow> 'd \<Rightarrow> int \<times> 'd"
  um_memalign :: "u64 \<Rightarrow> 'd \<Rightarrow> u64 \<times> 'd"
  um_free :: "u64 \<Rightarrow> 'd \<Rightarrow> 'd"
  um_virt_to_phys :: "u64 \<Rightarrow> 'd \<Rightarrow> u64"
  um_zero :: "u64 \<Rightarrow> u64 \<Rightarrow> 'd \<Rightarrow> 'd"

text \<open>The virtual and the physical address, and the state.\<close>

definition ena_dma_alloc :: "'d uk_mem \<Rightarrow> u64 \<Rightarrow> 'd \<Rightarrow> (u64 \<times> u64) option \<times> 'd" where
  "ena_dma_alloc U sz d =
    (case um_build U of
       Ukvmem \<Rightarrow>
         (let len = um_align_up U sz; pages = drop_bit (um_shift U) len
          in case um_falloc U pages d of
               (None, d) \<Rightarrow> (None, d)
             | (Some paddr, d) \<Rightarrow>
               (case um_vma_map_dma U len paddr d of (ret, vaddr, d) \<Rightarrow>
                  if ret \<noteq> 0 then (None, um_ffree U paddr pages d)
                  else (Some (vaddr, paddr), um_zero U vaddr sz d)))
     | b \<Rightarrow>
         (case um_memalign U sz d of (virt, d) \<Rightarrow>
            if virt = 0 then (None, d)
            else let d = um_zero U virt sz d
                 in (Some (virt, if b = Ukpaging then um_virt_to_phys U virt d else virt), d)))"

definition ena_dma_free :: "'d uk_mem \<Rightarrow> u64 \<Rightarrow> u64 \<Rightarrow> 'd \<Rightarrow> 'd" where
  "ena_dma_free U virt phys d =
    (case um_build U of
       Ukvmem \<Rightarrow>
         (if virt = 0 then d
          else case um_vma_find U virt d of
            None \<Rightarrow> d
          | Some (st, en) \<Rightarrow>
            let len = en - st in um_ffree U phys (drop_bit (um_shift U) len) (um_vma_unmap U st len d))
     | _ \<Rightarrow> um_free U virt d)"

end
