(* ===== verification/Ena_Pci.thy ===== *)
theory Ena_Pci
  imports Ena_Plat Ena_Netdev
begin

text \<open>
  Probing and removing a PCI function (\<^verbatim>\<open>src/src/ena_pci.c\<close>): the supported ids, the base
  address registers and their sizes, the registry of bound devices, and the two entry points.

  Mapping memory, the heap and the registration with the network stack are functions on the platform
  state, as in the platform layer.
\<close>

subsection \<open>Identification\<close>

definition ENA_PCI_VENDOR_ID :: u16 where [ena_consts]: "ENA_PCI_VENDOR_ID = 0x1D0F"
definition ENA_PCI_DEV_ID_RESERVED :: u16 where [ena_consts]: "ENA_PCI_DEV_ID_RESERVED = 0x0051"
definition ENA_PCI_DEV_ID_PF :: u16 where [ena_consts]: "ENA_PCI_DEV_ID_PF = 0x0EC2"
definition ENA_PCI_DEV_ID_LLQ_PF :: u16 where [ena_consts]: "ENA_PCI_DEV_ID_LLQ_PF = 0x1EC2"
definition ENA_PCI_DEV_ID_VF :: u16 where [ena_consts]: "ENA_PCI_DEV_ID_VF = 0xEC20"
definition ENA_PCI_DEV_ID_LLQ_VF :: u16 where [ena_consts]: "ENA_PCI_DEV_ID_LLQ_VF = 0xEC21"

definition supported_pci_ids :: "(u16 \<times> u16) list" where
  "supported_pci_ids =
    [(ENA_PCI_VENDOR_ID, ENA_PCI_DEV_ID_RESERVED), (ENA_PCI_VENDOR_ID, ENA_PCI_DEV_ID_PF),
     (ENA_PCI_VENDOR_ID, ENA_PCI_DEV_ID_LLQ_PF), (ENA_PCI_VENDOR_ID, ENA_PCI_DEV_ID_VF),
     (ENA_PCI_VENDOR_ID, ENA_PCI_DEV_ID_LLQ_VF)]"

definition ena_pci_match_id :: "u16 \<Rightarrow> u16 \<Rightarrow> int" where
  "ena_pci_match_id vendor device =
    (if list_ex (\<lambda>(v, p). v = vendor \<and> p = device) supported_pci_ids then 1 else 0)"

subsection \<open>Base address registers\<close>

definition pci_read32 :: "'d pci_cfg \<Rightarrow> u32 \<Rightarrow> 'd \<Rightarrow> u32 \<times> 'd" where
  "pci_read32 C reg d = pc_read C (reg AND 0xFC) d"

definition pci_write32 :: "'d pci_cfg \<Rightarrow> u32 \<Rightarrow> u32 \<Rightarrow> 'd \<Rightarrow> 'd" where
  "pci_write32 C reg v d = pc_write C (reg AND 0xFC) v d"

definition pci_enable_device :: "'d pci_cfg \<Rightarrow> 'd \<Rightarrow> 'd" where
  "pci_enable_device C d =
    (case pci_read32 C 0x04 d of (cmd, d) \<Rightarrow> pci_write32 C 0x04 (cmd OR (1 OR 2 OR 4)) d)"

definition pci_read_bar :: "'d pci_cfg \<Rightarrow> u32 \<Rightarrow> 'd \<Rightarrow> u64 \<times> 'd" where
  "pci_read_bar C reg d =
    (case pci_read32 C reg d of (bar_lo, d) \<Rightarrow>
     let bar = ucast (bar_lo AND NOT 0x0F) in
     if bar_lo AND 0x06 = 0x04 then
       (case pci_read32 C (reg + 4) d of (bar_hi, d) \<Rightarrow> (bar OR push_bit 32 (ucast bar_hi), d))
     else (bar, d))"

text \<open>The decode mask from what reads back; the cast of the low dword fills with zeros.\<close>

definition bar_mask :: "bool \<Rightarrow> u32 \<Rightarrow> u32 \<Rightarrow> u64" where
  "bar_mask bar64 mask_lo mask_hi =
    (if bar64 \<and> mask_lo = 0xFFFFFFFF then push_bit 32 (ucast mask_hi) OR ucast mask_lo
     else ucast (mask_lo AND NOT 0x0F))"

definition bar_size_of :: "u64 \<Rightarrow> u64" where
  "bar_size_of m = (if m = 0 then 0 else NOT m + 1)"

definition pci_read_bar_size :: "'d pci_cfg \<Rightarrow> u32 \<Rightarrow> 'd \<Rightarrow> u64 \<times> 'd" where
  "pci_read_bar_size C reg d =
    (case pci_read32 C reg d of (lo, d) \<Rightarrow>
     let bar64 = (lo AND 0x06 = 0x04) in
     case (if bar64 then pci_read32 C (reg + 4) d else (0, d)) of (hi, d) \<Rightarrow>
     let d = pci_write32 C reg 0xFFFFFFFF d;
         d = (if bar64 then pci_write32 C (reg + 4) 0xFFFFFFFF d else d)
     in case pci_read32 C reg d of (mask_lo, d) \<Rightarrow>
        case (if bar64 then pci_read32 C (reg + 4) d else (0, d)) of (mask_hi, d) \<Rightarrow>
        let d = pci_write32 C reg lo d;
            d = (if bar64 then pci_write32 C (reg + 4) hi d else d)
        in (bar_size_of (bar_mask bar64 mask_lo mask_hi), d))"

definition EEXIST :: int where [ena_consts]: "EEXIST = 17"

definition ena_pci_map_bar :: "'d uk_mem \<Rightarrow> u64 \<Rightarrow> u64 \<Rightarrow> 'd \<Rightarrow> u64 \<times> 'd" where
  "ena_pci_map_bar U phys sz d =
    (let al = um_align_down U phys; off = phys - al; len = um_align_up U (sz + off) in
     case um_build U of
       Ukvmem \<Rightarrow>
         (case um_vma_map_dma U len al d of (ret, vaddr, d) \<Rightarrow> if ret \<noteq> 0 then (0, d) else (vaddr + off, d))
     | Ukpaging \<Rightarrow>
         (case um_page_map U al al (drop_bit (um_shift U) len) d of (ret, d) \<Rightarrow>
            if ret \<noteq> 0 \<and> ret \<noteq> - EEXIST then (0, d) else (al + off, d))
     | Flat \<Rightarrow> (phys, d))"

definition ena_pci_unmap_bar :: "'d uk_mem \<Rightarrow> u64 \<Rightarrow> 'd \<Rightarrow> 'd" where
  "ena_pci_unmap_bar U vaddr d =
    (if um_build U = Ukvmem \<and> vaddr \<noteq> 0 then
       (case um_vma_find U vaddr d of None \<Rightarrow> d | Some (st, en) \<Rightarrow> um_vma_unmap U st (en - st) d)
     else d)"

subsection \<open>The registry of bound devices\<close>

text \<open>A slot holds the device object, by its handle, and the PCI device it is bound to.\<close>

definition ENA_PCI_MAX_DEVS :: nat where [ena_consts]: "ENA_PCI_MAX_DEVS = 8"

type_synonym registry = "(nat \<times> nat) option list"

definition s_edevs_init :: registry where
  "s_edevs_init = replicate ENA_PCI_MAX_DEVS None"

fun ena_pci_find_edev :: "nat \<Rightarrow> registry \<Rightarrow> nat option" where
  "ena_pci_find_edev pdev [] = None"
| "ena_pci_find_edev pdev (None # xs) = ena_pci_find_edev pdev xs"
| "ena_pci_find_edev pdev (Some (e, p) # xs) = (if p = pdev then Some e else ena_pci_find_edev pdev xs)"

fun ena_pci_track_edev :: "nat \<Rightarrow> nat \<Rightarrow> registry \<Rightarrow> int \<times> registry" where
  "ena_pci_track_edev e pdev [] = (- ENOSPC, [])"
| "ena_pci_track_edev e pdev (None # xs) = (0, Some (e, pdev) # xs)"
| "ena_pci_track_edev e pdev (Some x # xs) =
    (case ena_pci_track_edev e pdev xs of (ret, xs) \<Rightarrow> (ret, Some x # xs))"

fun untrack :: "nat \<Rightarrow> registry \<Rightarrow> registry" where
  "untrack e [] = []"
| "untrack e (None # xs) = None # untrack e xs"
| "untrack e (Some (e', p) # xs) = (if e' = e then None # xs else Some (e', p) # untrack e xs)"

subsection \<open>Adding and removing a device\<close>

record 'd pci_env =
  pe_cfg :: "'d pci_cfg"
  pe_mem :: "'d uk_mem"
  pe_calloc :: "'d \<Rightarrow> bool \<times> 'd"
  pe_free :: "'d \<Rightarrow> 'd"
  pe_register :: "'d \<Rightarrow> int \<times> 'd"

record 'd ena_uk_device =
  ue_net :: "'d netdev"
  ue_bar0_vaddr :: u64
  ue_bar2_vaddr :: u64
  ue_uid :: u16
  ue_ops :: bool

definition rxq_zero :: uk_netdev_rx_queue where
  "rxq_zero = rxq_null\<lparr> rq_pending_slot := 0 \<rparr>"

definition txq_zero :: uk_netdev_tx_queue where
  "txq_zero = \<lparr> tq_queue_id = 0, tq_bounce_buf = False, tq_bounce_phys = 0, tq_in_use = False,
     tq_req_id = 0, tq_wait_polls = 0, tq_nb_desc = 0, tq_free_head = 0, tq_free_tail = 0,
     tq_free_count = 0, tq_free_ids = [], tq_bounce_map = [] \<rparr>"

definition log_bars :: "'d pci_cfg \<Rightarrow> 'd \<Rightarrow> 'd" where
  "log_bars C d = fold (\<lambda>b d. snd (pci_read32 C (0x10 + of_nat b * 4) d)) [0..<6] d"

definition probe_bar0_size :: "u64 \<Rightarrow> u32" where
  "probe_bar0_size n =
    (let sz = ucast n; sz = (if sz = 0 then 0x4000 else sz) in if sz < 0x104 then 0x104 else sz)"

definition probe_bar2 :: "'d pci_cfg \<Rightarrow> 'd \<Rightarrow> u64 \<times> u64 \<times> 'd" where
  "probe_bar2 C d =
    (case pci_read32 C 0x18 d of (bar2_lo, d) \<Rightarrow>
     if bar2_lo AND 0x01 = 0 then
       (case pci_read_bar C 0x18 d of (phys, d) \<Rightarrow>
        case pci_read_bar_size C 0x18 d of (sz, d) \<Rightarrow> (phys, sz, d))
     else (0, 0, d))"

definition map_bar2 :: "'d uk_mem \<Rightarrow> u64 \<Rightarrow> u64 \<Rightarrow> 'd sys \<Rightarrow> u64 \<times> 'd sys" where
  "map_bar2 U phys sz s =
    (if phys \<noteq> 0 \<and> sz \<noteq> 0 then
       (case ena_pci_map_bar U phys sz (dev s) of (vaddr, d) \<Rightarrow>
        let s = s\<lparr> dev := d \<rparr> in
        (vaddr, if vaddr \<noteq> 0 then ad_update (\<lambda>a. a\<lparr> bar2_base := True, bar2_size := unat sz \<rparr>) s else s))
     else (0, s))"

text \<open>From the admin queues to the registration: the error, or the id of the registered device.  A failure
  releases the device object and leaves both BARs mapped.\<close>

definition add_dev_bring_up ::
  "'d pci_env \<Rightarrow> 'd platform \<Rightarrow> 'd msix_plat \<Rightarrow> 'd exec_fn \<Rightarrow> 'd sys \<Rightarrow> (int + u16) \<times> 'd sys" where
  "add_dev_bring_up E P M exec s =
    (let release = (\<lambda>s. s\<lparr> dev := pe_free E (dev s) \<rparr>); s = snd (reg_read P ENA_REGS_DEV_STS_OFF s) in
     case ena_admin_init P 32 32 32 s of (ret, s) \<Rightarrow>
     if ret \<noteq> 0 then (Inl ret, release s)
     else case ena_init_run P exec 1500 s of (ret, s) \<Rightarrow>
     if ret \<noteq> 0 then (Inl ret, release (ena_admin_fini P s))
     else
       let s = snd (ena_admin_aenq_register s); s = snd (ena_intr_setup P M s)
       in case pe_register E (dev s) of (ret, d) \<Rightarrow>
          let s = s\<lparr> dev := d \<rparr> in
          if ret < 0 then (Inl ret, release (ena_admin_fini P (ena_intr_msix_fini P M s)))
          else (Inr (word_of_int ret), s))"

definition ena_pci_add_dev ::
  "'d pci_env \<Rightarrow> 'd platform \<Rightarrow> 'd msix_plat \<Rightarrow> 'd exec_fn \<Rightarrow> (netbuf \<Rightarrow> uk_netbuf) \<Rightarrow> nat \<Rightarrow> nat \<Rightarrow> registry \<Rightarrow> 'd \<Rightarrow>
   int \<times> 'd ena_uk_device option \<times> registry \<times> 'd" where
  "ena_pci_add_dev E P M exec nbs e pdev reg d =
    (let C = pe_cfg E; U = pe_mem E; d = log_bars C d in
     case pci_read_bar_size C 0x10 d of (sz, d) \<Rightarrow>
     let sz0 = probe_bar0_size sz in
     case pci_read_bar C 0x10 d of (phys0, d) \<Rightarrow>
     case ena_pci_map_bar U phys0 (ucast sz0) d of (bar0, d) \<Rightarrow>
     if bar0 = 0 then (- ENOMEM, None, reg, d)
     else case probe_bar2 C d of (phys2, sz2, d) \<Rightarrow>
     case pe_calloc E (pci_enable_device C d) of (ok, d) \<Rightarrow>
     if \<not> ok then (- ENOMEM, None, reg, ena_pci_unmap_bar U bar0 d)
     else
       let s = \<lparr> ad = adapter_zero, rxqs = replicate (unat ENA_NETDEV_MAX_QUEUES) rxq_zero, dev = d, freed = [] \<rparr>
       in case ena_device_init_scaffold P True (unat sz0) s of (ret, s) \<Rightarrow>
       if ret \<noteq> 0 then (ret, None, reg, pe_free E (ena_pci_unmap_bar U bar0 (dev s)))
       else case map_bar2 U phys2 sz2 s of (bar2, s) \<Rightarrow>
       case add_dev_bring_up E P M exec s of
         (Inl ret, s) \<Rightarrow> (ret, None, reg, dev s)
       | (Inr uid, s) \<Rightarrow> (0, Some \<lparr> ue_net = \<lparr> nd_sys = s, nd_txqs = replicate (unat ENA_NETDEV_MAX_QUEUES) txq_zero, nd_nbs = nbs \<rparr>,
              ue_bar0_vaddr = bar0, ue_bar2_vaddr = bar2, ue_uid = uid, ue_ops = True \<rparr>,
              snd (ena_pci_track_edev e pdev reg), dev s))"

definition ena_pci_remove_dev ::
  "'d pci_env \<Rightarrow> 'd platform \<Rightarrow> 'd msix_plat \<Rightarrow> 'd exec_fn \<Rightarrow> (nat \<Rightarrow> tx_cq_write list) \<Rightarrow> u32 \<Rightarrow> nat \<Rightarrow>
   (nat \<Rightarrow> 'd ena_uk_device) \<Rightarrow> registry \<Rightarrow> ((nat \<Rightarrow> 'd ena_uk_device) \<times> registry) option" where
  "ena_pci_remove_dev E P M exec devs cpu pdev objs reg =
    (case ena_pci_find_edev pdev reg of
       None \<Rightarrow> Some (objs, reg)
     | Some e \<Rightarrow>
       (case ena_netdev_teardown P M exec devs cpu (ue_net (objs e)) of
          None \<Rightarrow> None
        | Some n \<Rightarrow>
          let U = pe_mem E; x = objs e;
              n = nd_sys_map (\<lambda>s. s\<lparr> dev := ena_pci_unmap_bar U (ue_bar2_vaddr x)
                    (ena_pci_unmap_bar U (ue_bar0_vaddr x) (dev s)) \<rparr>) n
          in Some (objs(e := x\<lparr> ue_net := n, ue_ops := False \<rparr>), untrack e reg)))"

end
