(* ===== verification/Ena_Pci_Props.thy ===== *)
theory Ena_Pci_Props
  imports Ena_Pci "HOL-Library.Multiset"
begin

text \<open>
  What the probe and the platform layer guarantee: the size the driver computes for a base address
  register, when the walk along the capability list returns, and that arming and disarming MSI-X keep
  the interrupt lines balanced.
\<close>

subsection \<open>The size of a base address register\<close>

text \<open>
  The registers of a function with base address registers: a read has no effect, a write to a register
  keeps the bits its mask lets through and the hardwired bits, and touches no other register.
\<close>

definition cfg_regs :: "'d pci_cfg \<Rightarrow> (u32 \<Rightarrow> 'd \<Rightarrow> u32) \<Rightarrow> (u32 \<Rightarrow> u32) \<Rightarrow> (u32 \<Rightarrow> u32) \<Rightarrow> bool" where
  "cfg_regs C rd wm hw \<longleftrightarrow>
    (\<forall>r d. pc_read C r d = (rd r d, d)) \<and>
    (\<forall>r v d. rd r (pc_write C r v d) = (v AND wm r) OR hw r) \<and>
    (\<forall>r r' v d. r \<noteq> r' \<longrightarrow> rd r' (pc_write C r v d) = rd r' d)"

lemma cfg_regs_simps:
  assumes "cfg_regs C rd wm hw"
  shows "pc_read C r d = (rd r d, d)"
    and "rd r' (pc_write C r v d) = (if r = r' then (v AND wm r) OR hw r else rd r' d)"
  using assms by (auto simp: cfg_regs_def)

lemma low_bits_of:
  fixes x t k :: u32
  assumes "4 \<le> n" "k = k AND mask 4" shows "((x AND NOT (mask n)) OR t) AND k = t AND k"
proof -
  have "((x AND NOT (mask n)) OR t) AND (k AND mask 4) = t AND (k AND mask 4)"
    using assms(1) by (intro bit_word_eqI) (auto simp: bit_simps)
  then show ?thesis using assms(2) by simp
qed

lemma mask_4: "mask 4 = (0xF :: u32)"
  by (simp add: mask_eq_exp_minus_1)

lemma bar_type_bits:
  fixes x t :: u32
  assumes "4 \<le> n" shows "((x AND NOT (mask n)) OR t) AND 6 = t AND 6"
  using assms by (intro low_bits_of) (simp_all add: mask_4)

lemma bar_addr_bits:
  fixes t :: u32
  assumes "4 \<le> n" "t AND NOT 0xF = 0"
  shows "(NOT (mask n) OR t) AND NOT 0xF = NOT (mask n)"
proof -
  have "t AND NOT (mask 4) = 0" using assms(2) by (simp add: mask_4)
  then have t: "\<not> bit t i" if "4 \<le> i" "i < 32" for i
    using that by (auto simp: bit_eq_iff bit_simps)
  have "(NOT (mask n) OR t) AND NOT (mask 4) = NOT (mask n)"
    using assms(1) t by (intro bit_word_eqI) (auto simp: bit_simps)
  then show ?thesis by (simp add: mask_4)
qed

text \<open>The mask of a $2^n$ byte window, widened with zeros and negated.\<close>

lemma unat_uminus:
  fixes w :: "'a :: len word"
  assumes "w \<noteq> 0" shows "unat (- w) = 2 ^ LENGTH('a) - unat w"
  using assms unat_sub_if' [of 0 w] by (simp add: unat_eq_zero)

lemma bar_size_value:
  assumes "n < 32"
  shows "unat (bar_size_of (ucast (NOT (mask n) :: u32))) = 2 ^ 64 - 2 ^ 32 + 2 ^ n"
proof -
  have le: "(2 :: nat) ^ n < 2 ^ 32" using assms by (intro power_strict_increasing) auto
  have u: "unat (2 ^ n :: u32) = 2 ^ n" using le unat_of_nat [of "2 ^ n", where ?'a = 32] by simp
  then have "(2 ^ n :: u32) \<noteq> 0" by (metis power_not_zero unat_0 zero_neq_numeral)
  then have "unat (- (2 ^ n) :: u32) = 2 ^ 32 - 2 ^ n" using u unat_uminus [of "2 ^ n :: u32"] by simp
  then have k: "unat (NOT (mask n) :: u32) = 2 ^ 32 - 2 ^ n"
    by (simp add: mask_eq_exp_minus_1 not_eq_complement)
  define w :: u64 where "w = ucast (NOT (mask n) :: u32)"
  have w: "unat w = 2 ^ 32 - 2 ^ n"
    unfolding w_def unsigned_ucast_eq k by (rule take_bit_nat_eq_self) (use le in simp)
  then have nz: "w \<noteq> 0" using le by auto
  have "bar_size_of w = - w" using nz by (simp add: bar_size_of_def not_eq_complement)
  then have "unat (bar_size_of w) = 2 ^ 64 - (2 ^ 32 - 2 ^ n)"
    using unat_uminus [OF nz] w by simp
  then show ?thesis using le unfolding w_def [symmetric] by simp
qed

text \<open>C38: For a base address register that decodes a window of $2^n$ bytes (16 bytes to 2 GiB), 32-bit or
  64-bit, the probe leaves every register as it found it, and the low 32 bits of the size it returns are
  $2^n$.  The upper 32 bits are all ones, because the mask is widened with zeros before it is negated:
  the size is right where it is cut to 32 bits (BAR0) and $2^{64} - 2^{32}$ too large where it is not
  (BAR2).
\<close>

theorem pci_bar_size_probe:
  fixes n :: nat
  assumes regs: "cfg_regs C rd wm hw"
    and n: "4 \<le> n" "n < 32"
    and bar: "wm reg = NOT (mask n)" "hw reg AND NOT 0xF = 0"
    and content: "rd reg d = (rd reg d AND wm reg) OR hw reg"
      "rd (reg + 4) d = (rd (reg + 4) d AND wm (reg + 4)) OR hw (reg + 4)"
    and al: "reg AND 0xFC = reg" "(reg + 4) AND 0xFC = reg + 4"
  shows "unat (fst (pci_read_bar_size C reg d)) = 2 ^ 64 - 2 ^ 32 + 2 ^ n
    \<and> rd r (snd (pci_read_bar_size C reg d)) = rd r d"
proof -
  note R = cfg_regs_simps [OF regs]
  have ones: "0xFFFFFFFF AND x = x" for x :: u32
  proof -
    have "(0xFFFFFFFF :: u32) = - 1" by simp
    then show ?thesis by (simp only: and.left_neutral)
  qed
  have ne: "reg \<noteq> reg + 4" by simp
  let ?lo = "rd reg d" and ?m = "NOT (mask n) OR hw reg"
  have ty: "?lo AND 6 = hw reg AND 6" using bar_type_bits [OF n(1), of ?lo "hw reg"] content(1) bar(1) by simp
  have "?m AND 6 = hw reg AND 6" using bar_type_bits [OF n(1), of "- 1" "hw reg"] by simp
  then have full: "?m \<noteq> 0xFFFFFFFF" if "?lo AND 6 = 4" using that ty by auto
  have "bar_mask (?lo AND 6 = 4) ?m h = ucast (NOT (mask n) :: u32)" for h
    using full bar_addr_bits [OF n(1) bar(2)] by (auto simp: bar_mask_def)
  then show ?thesis
    using bar_size_value [OF n(2)] ne content bar(1)
    by (auto simp: pci_read_bar_size_def pci_read32_def pci_write32_def al R ones Let_def)
qed

definition bar_device :: "(u32 \<Rightarrow> u32) \<Rightarrow> (u32 \<Rightarrow> u32) \<Rightarrow> (u32 \<Rightarrow> u32) pci_cfg" where
  "bar_device wm hw = \<lparr> pc_read = \<lambda>r d. (d r, d), pc_write = \<lambda>r v d. d(r := (v AND wm r) OR hw r) \<rparr>"

lemma bar_device_regs: "cfg_regs (bar_device wm hw) (\<lambda>r d. d r) wm hw"
  by (simp add: cfg_regs_def bar_device_def)

theorem pci_bar_size_probe_witness:
  "unat (fst (pci_read_bar_size (bar_device (\<lambda>_. NOT (mask 20)) (\<lambda>_. 0xC)) 0x18 (\<lambda>_. 0xFE00000C)))
    = 2 ^ 64 - 2 ^ 32 + 2 ^ 20"
  using pci_bar_size_probe [OF bar_device_regs [of "\<lambda>_. NOT (mask 20)" "\<lambda>_. 0xC"], where n = 20 and reg = "0x18"
      and d = "\<lambda>_. 0xFE00000C"]
  by (simp add: mask_eq_exp_minus_1)

subsection \<open>The walk along the capability list\<close>

definition cap_next :: "(u32 \<Rightarrow> u32) \<Rightarrow> u32 \<Rightarrow> u32" where
  "cap_next rd c = drop_bit 8 (rd (c AND 0xFC)) AND 0xFF"

definition cap_stops :: "(u32 \<Rightarrow> u32) \<Rightarrow> u32 \<Rightarrow> bool" where
  "cap_stops rd c \<longleftrightarrow> c = 0 \<or> rd (c AND 0xFC) AND 0xFF = 0x11"

lemma msix_walk_stable:
  assumes "\<And>r d. pc_read C r d = (rd r, d)"
  shows "msix_walk C c d =
    (if c = 0 then Some (None, d)
     else if cap_stops rd c then Some (Some (c, rd (c AND 0xFC)), d)
     else msix_walk C (cap_next rd c) d)"
  by (subst msix_walk.simps)
    (simp add: assms plat_pci_cfg_read_def cap_stops_def cap_next_def ENA_PLAT_PCI_CAP_ID_MSIX_def)

lemma msix_walk_some:
  assumes "\<And>r d. pc_read C r d = (rd r, d)"
  shows "cap_stops rd ((cap_next rd ^^ k) c) \<Longrightarrow> \<exists>y. msix_walk C c d = Some y"
proof (induction k arbitrary: c)
  case 0
  then show ?case by (subst msix_walk_stable [OF assms]) simp
next
  case (Suc k)
  then show ?case by (subst msix_walk_stable [OF assms]) (simp add: funpow_swap1)
qed

lemma msix_walk_stops:
  fixes C :: "'a pci_cfg"
  assumes "\<And>r d. pc_read C r d = (rd r, d)" and "msix_walk C c d = Some y"
  shows "\<exists>k. cap_stops rd ((cap_next rd ^^ k) c)"
proof -
  let ?P = "\<lambda>C c d (y :: (u32 \<times> u32) option \<times> 'a).
    (\<forall>r (d :: 'a). pc_read C r d = (rd r, d)) \<longrightarrow> (\<exists>k. cap_stops rd ((cap_next rd ^^ k) c))"
  have "?P C c d y"
  proof (rule msix_walk.raw_induct [where P = ?P, OF _ assms(2)], intro impI)
    fix walk and C :: "'a pci_cfg" and c d y
    assume IH: "\<And>C c d y. walk C c d = Some y \<Longrightarrow> ?P C c d y"
      and st: "\<forall>r (d :: 'a). pc_read C r d = (rd r, d)"
      and body: "(if c = 0 then Some (None, d)
        else case plat_pci_cfg_read C c d of (dw, d) \<Rightarrow>
          if dw AND 0xFF = ENA_PLAT_PCI_CAP_ID_MSIX then Some (Some (c, dw), d)
          else walk C (drop_bit 8 dw AND 0xFF) d) = Some y"
    show "\<exists>k. cap_stops rd ((cap_next rd ^^ k) c)"
    proof (cases "cap_stops rd c")
      case True then show ?thesis by (intro exI [of _ 0]) simp
    next
      case False
      then have "walk C (cap_next rd c) d = Some y"
        using body st by (simp add: plat_pci_cfg_read_def cap_stops_def cap_next_def ENA_PLAT_PCI_CAP_ID_MSIX_def)
      with IH st obtain k where "cap_stops rd ((cap_next rd ^^ k) (cap_next rd c))" by blast
      then show ?thesis by (intro exI [of _ "Suc k"]) (simp add: funpow_swap1)
    qed
  qed
  then show ?thesis using assms(1) by blast
qed

text \<open>C39: On a device whose configuration space reads the same each time, the search for the MSI-X
  capability returns exactly when following the next pointers reaches the end of the list or an MSI-X
  capability.  The code has no bound of its own: on a list that closes on itself before that, it never
  returns.
\<close>

theorem msix_search_returns_iff:
  assumes "\<And>r d. pc_read C r d = (rd r, d)"
  shows "(\<exists>y. msix_first_cap C d = Some y)
    \<longleftrightarrow> (\<exists>k. cap_stops rd ((cap_next rd ^^ k) (rd 0x34 AND 0xFC)))"
  using msix_walk_some [OF assms] msix_walk_stops [OF assms]
  by (auto simp: msix_first_cap_def plat_pci_cfg_read_def assms)

definition rom :: "(u32 \<Rightarrow> u32) \<Rightarrow> unit pci_cfg" where
  "rom rd = \<lparr> pc_read = \<lambda>r d. (rd r, d), pc_write = \<lambda>_ _ d. d \<rparr>"

theorem msix_search_returns_iff_witness:
  "(\<exists>y. msix_first_cap (rom (\<lambda>r. if r = 0x34 then 0x40 else if r = 0x40 then 0x5001 else 0x110011)) () = Some y)
    \<and> msix_first_cap (rom (\<lambda>_. 0x4040)) () = None"
proof
  have R: "pc_read (rom f) r d = (f r, d)" for f r and d :: unit by (simp add: rom_def)
  show "\<exists>y. msix_first_cap (rom (\<lambda>r. if r = 0x34 then 0x40 else if r = 0x40 then 0x5001 else 0x110011)) () = Some y"
    unfolding msix_search_returns_iff [OF R] by (intro exI [of _ 1]) (simp add: cap_stops_def cap_next_def)
  have "(cap_next (\<lambda>_. 0x4040) ^^ k) 0x40 = 0x40" for k
    by (induction k) (simp_all add: cap_next_def)
  then have "\<not> (\<exists>y. msix_first_cap (rom (\<lambda>_. 0x4040)) () = Some y)"
    unfolding msix_search_returns_iff [OF R] by (simp add: cap_stops_def)
  then show "msix_first_cap (rom (\<lambda>_. 0x4040)) () = None" by (metis not_None_eq)
qed

subsection \<open>Arming and disarming\<close>

text \<open>
  The books of an interrupt controller: the lines allocated and the lines with a handler.  A successful
  call changes them by the line it is about, a failed one does not, and neither do the accesses to the
  configuration space and to the table.
\<close>

type_synonym 'd book = "'d \<Rightarrow> u32 multiset \<times> u32 multiset"

definition irq_book :: "'d pci_cfg \<Rightarrow> 'd intctlr \<Rightarrow> 'd book \<Rightarrow> bool" where
  "irq_book C I bk \<longleftrightarrow>
    (\<forall>c d ret irq a m d'. ic_alloc I c d = (ret, irq, a, m, d') \<longrightarrow>
       bk d' = (if ret = 0 then (add_mset irq (fst (bk d)), snd (bk d)) else bk d)) \<and>
    (\<forall>irq d ret d'. ic_register I irq d = (ret, d') \<longrightarrow>
       bk d' = (if ret = 0 then (fst (bk d), add_mset irq (snd (bk d))) else bk d)) \<and>
    (\<forall>irq d. bk (ic_free I irq d) = (fst (bk d) - {#irq#}, snd (bk d))) \<and>
    (\<forall>irq d. bk (ic_unregister I irq d) = (fst (bk d), snd (bk d) - {#irq#})) \<and>
    (\<forall>a v d. bk (ic_store I a v d) = bk d) \<and>
    (\<forall>r d. bk (snd (pc_read C r d)) = bk d) \<and>
    (\<forall>r v d. bk (pc_write C r v d) = bk d)"

lemma irq_bookD:
  assumes "irq_book C I bk"
  shows "ic_alloc I c d = (ret, irq, a, m, d') \<Longrightarrow>
      bk d' = (if ret = 0 then (add_mset irq (fst (bk d)), snd (bk d)) else bk d)"
    and "ic_register I irq d = (ret, d') \<Longrightarrow>
      bk d' = (if ret = 0 then (fst (bk d), add_mset irq (snd (bk d))) else bk d)"
    and "bk (ic_free I irq d) = (fst (bk d) - {#irq#}, snd (bk d))"
    and "bk (ic_unregister I irq d) = (fst (bk d), snd (bk d) - {#irq#})"
    and "bk (ic_store I p v d) = bk d"
    and "bk (snd (plat_pci_cfg_read C r d)) = bk d"
    and "bk (plat_pci_cfg_write C r v d) = bk d"
proof -
  note L = assms [unfolded irq_book_def]
  note A = L [THEN conjunct1, rule_format] and G = L [THEN conjunct2, THEN conjunct1, rule_format]
    and R = L [THEN conjunct2, THEN conjunct2]
  show "ic_alloc I c d = (ret, irq, a, m, d') \<Longrightarrow>
      bk d' = (if ret = 0 then (add_mset irq (fst (bk d)), snd (bk d)) else bk d)" by (rule A)
  show "ic_register I irq d = (ret, d') \<Longrightarrow>
      bk d' = (if ret = 0 then (fst (bk d), add_mset irq (snd (bk d))) else bk d)" by (rule G)
  show "bk (ic_free I irq d) = (fst (bk d) - {#irq#}, snd (bk d))"
    "bk (ic_unregister I irq d) = (fst (bk d), snd (bk d) - {#irq#})"
    "bk (ic_store I p v d) = bk d" "bk (snd (plat_pci_cfg_read C r d)) = bk d"
    "bk (plat_pci_cfg_write C r v d) = bk d"
    using R by (simp_all add: plat_pci_cfg_read_def plat_pci_cfg_write_def)
qed

lemma cfg_read_book:
  assumes "irq_book C I bk" "plat_pci_cfg_read C r d = (v, d')" shows "bk d' = bk d"
  using irq_bookD(6) [OF assms(1), of r d] assms(2) by simp

lemma release_book:
  assumes "irq_book C I bk"
  shows "bk (fold (irq_release I irqs) xs d) =
    (fst (bk d) - mset (map ((!) irqs) xs), snd (bk d) - mset (map ((!) irqs) xs))"
  by (induction xs arbitrary: d) (simp_all add: irq_release_def irq_bookD [OF assms])

lemma program_entry_book:
  assumes "irq_book C I bk" shows "bk (program_entry I t i a m d) = bk d"
  by (simp add: program_entry_def Let_def irq_bookD [OF assms])

lemma msgctl_book:
  assumes "irq_book C I bk" shows "bk (msgctl_set C f loc d) = bk d"
  by (auto simp: msgctl_set_def Let_def irq_bookD(7) [OF assms] cfg_read_book [OF assms] split: prod.splits)

lemma msix_walk_book:
  fixes C :: "'a pci_cfg"
  assumes bk: "irq_book C I bk" and "msix_walk C c d = Some y"
  shows "bk (snd y) = bk d"
proof -
  let ?P = "\<lambda>C' (c :: u32) (d :: 'a) (y :: (u32 \<times> u32) option \<times> 'a). C' = C \<longrightarrow> bk (snd y) = bk d"
  have "?P C c d y"
    by (rule msix_walk.raw_induct [where P = ?P, OF _ assms(2)])
      (fastforce simp: cfg_read_book [OF bk] split: if_splits prod.splits)
  then show ?thesis by simp
qed

lemma msix_find_book:
  assumes "irq_book C I bk" "msix_find C d = Some (ret, loc, d')" shows "bk d' = bk d"
proof -
  note B = cfg_read_book [OF assms(1)]
  have "bk d2 = bk d1" if "msix_bar_base C r d1 = (b, d2)" for r d1 b d2
    using that by (auto simp: msix_bar_base_def Let_def B split: prod.splits if_splits)
  moreover have "bk (snd y) = bk d" if "msix_first_cap C d = Some y" for y
    using that msix_walk_book [OF assms(1)] by (auto simp: msix_first_cap_def B split: prod.splits)
  ultimately show ?thesis using assms(2)
    by (fastforce simp: msix_find_def Let_def B split: option.splits prod.splits if_splits)
qed

text \<open>The loop: what is on the books is what was there and the lines below the index.\<close>

definition owes :: "'d book \<Rightarrow> 'd \<Rightarrow> u32 list \<Rightarrow> nat \<Rightarrow> 'd \<Rightarrow> bool" where
  "owes bk din irqs i d \<longleftrightarrow>
    bk d = (fst (bk din) + mset (take i irqs), snd (bk din) + mset (take i irqs))"

lemma map_nth_upt: "i \<le> length xs \<Longrightarrow> map ((!) xs) [0..<i] = take i xs"
  by (simp add: list_eq_iff_nth_eq)

lemma owes_rollback:
  assumes "irq_book C I bk" "i \<le> length irqs"
    and "bk d = (fst (bk din) + mset (take i irqs), snd (bk din) + mset (take i irqs))"
  shows "bk (arm_rollback I irqs i d) = bk din"
  using assms(2,3) by (simp add: arm_rollback_def release_book [OF assms(1)] rev_map [symmetric] map_nth_upt)

lemma arm_loop_book:
  assumes bk: "irq_book C I bk"
  shows "arm_loop I req [i..<n] ms d = (ret, ms', d') \<Longrightarrow> i \<le> n \<Longrightarrow> n \<le> length (ms_irqs ms) \<Longrightarrow>
    owes bk din (ms_irqs ms) i d \<Longrightarrow>
    (if ret = 0 then owes bk din (ms_irqs ms') n d' else bk d' = bk din)
    \<and> length (ms_irqs ms') = length (ms_irqs ms) \<and> ms_loc ms' = ms_loc ms"
proof (induction "n - i" arbitrary: i ms d)
  case 0
  then show ?case by simp
next
  case (Suc k)
  then have i: "i < n" "i < length (ms_irqs ms)" by simp_all
  obtain r irq a m d1 where al: "ic_alloc I (lcpu_at req i) d = (r, irq, a, m, d1)" by (metis prod_cases5)
  let ?irqs = "(ms_irqs ms)[i := irq]"
  obtain q d2 where rg: "ic_register I irq (program_entry I (ml_table (ms_loc ms)) i a m d1) = (q, d2)" by fastforce
  have tk: "take (Suc i) ?irqs = take i (ms_irqs ms) @ [irq]" using i by (simp add: take_Suc_conv_app_nth)
  note bal = irq_bookD(1) [OF bk al] and brg = irq_bookD(2) [OF bk rg] and D = Suc.prems(4) [unfolded owes_def]
  show ?case
  proof (cases "r = 0 \<and> q = 0")
    case True
    then have "arm_loop I req [Suc i..<n] (ms\<lparr> ms_irqs := ?irqs, ms_ctx := (ms_ctx ms)[i := of_nat i] \<rparr>) d2 = (ret, ms', d')"
      using Suc.prems(1) i al rg by (simp add: upt_conv_Cons)
    moreover have "owes bk din ?irqs (Suc i) d2"
      using True bal brg D unfolding owes_def tk by (simp add: program_entry_book [OF bk])
    ultimately show ?thesis
      using Suc.hyps(1) [of "Suc i" "ms\<lparr> ms_irqs := ?irqs, ms_ctx := (ms_ctx ms)[i := of_nat i] \<rparr>" d2]
        Suc.hyps(2) Suc.prems(3) i by simp
  next
    case False
    then have "ret \<noteq> 0 \<and> ms_irqs ms' = ?irqs \<and> ms_loc ms' = ms_loc ms \<and>
        d' = arm_rollback I ?irqs i (if r \<noteq> 0 then d1 else ic_free I irq d2)"
      using Suc.prems(1) i al rg by (auto simp: upt_conv_Cons split: if_splits)
    moreover have "bk (if r \<noteq> 0 then d1 else ic_free I irq d2) =
        (fst (bk din) + mset (take i ?irqs), snd (bk din) + mset (take i ?irqs))"
      using False bal brg D by (auto simp: program_entry_book [OF bk] irq_bookD(3) [OF bk])
    ultimately show ?thesis using owes_rollback [OF bk, of i ?irqs] i by simp
  qed
qed

lemma arm_nvec_bound: "arm_nvec req loc \<le> 32"
  by (simp add: arm_nvec_def Let_def ENA_PLAT_MSIX_MAX_VECTORS_def)

text \<open>A call that reaches the loop, and what it then owes.\<close>

lemma arm_cases:
  assumes bk: "irq_book C I bk"
    and arm: "ena_plat_msix_arm C I addr req ms d = Some (ret, ms', d')"
    and len: "length (ms_irqs ms) = 32" and off: "\<not> ms_armed ms"
  obtains (early) "ret \<noteq> 0" "bk d' = bk d"
  | (armed) n ms1 d2 where "ret = 0" "n \<le> 32" "length (ms_irqs ms1) = 32" "owes bk d (ms_irqs ms1) n d2"
      "ms' = ms1\<lparr> ms_armed := True, ms_nvec := of_nat n \<rparr>" "bk d' = bk d2"
proof (cases "\<exists>rq loc d1. req = Some rq \<and> addr \<and> msix_find C d = Some (0, loc, d1) \<and> 0 < arm_nvec rq loc")
  case False
  then show ?thesis using arm off msix_find_book [OF bk]
    by (intro early) (auto simp: ena_plat_msix_arm_def Let_def ENODEV_def EINVAL_def
        split: option.splits prod.splits if_splits)
next
  case True
  then obtain rq loc d1 where T: "req = Some rq" "addr" "msix_find C d = Some (0, loc, d1)" "0 < arm_nvec rq loc"
    by blast
  define n where "n = nat (arm_nvec rq loc)"
  have n: "n \<le> 32" "word_of_int (arm_nvec rq loc) = (of_nat n :: u32)"
    using arm_nvec_bound [of rq loc] T(4) by (simp_all add: n_def)
  let ?ms = "ms\<lparr> ms_loc := loc, ms_req := rq\<lparr> mr_nvec := of_nat n \<rparr> \<rparr>"
  obtain q ms1 d2 where l: "arm_loop I rq [0..<n] ?ms d1 = (q, ms1, d2)" by (metis prod_cases3)
  have b: "(if q = 0 then owes bk d (ms_irqs ms1) n d2 else bk d2 = bk d) \<and> length (ms_irqs ms1) = 32"
    using arm_loop_book [OF bk l, where din = d] n len msix_find_book [OF bk T(3)]
    by (simp add: owes_def split: if_splits)
  have "ret = q \<and> (if q = 0 then ms' = ms1\<lparr> ms_armed := True, ms_nvec := of_nat n \<rparr> \<and> bk d' = bk d2 else d' = d2)"
    using arm off T l
    by (auto simp: ena_plat_msix_arm_def Let_def msgctl_book [OF bk] n(2) n_def [symmetric] split: if_splits)
  then show ?thesis using b n by (cases "q = 0") (auto intro: early armed)
qed

text \<open>C6: Arming MSI-X keeps the interrupt controller's books, for any request and any device, whichever
  allocation or registration fails: a failed call leaves the allocated lines and the registered handlers
  as they were, and after a successful one as many lines are allocated as vectors are reported armed,
  and disarming gives back exactly what arming took.
\<close>

theorem msix_arm_disarm_balanced:
  assumes bk: "irq_book C I bk"
    and arm: "ena_plat_msix_arm C I addr req ms d = Some (ret, ms', d')"
    and len: "length (ms_irqs ms) = 32" and off: "\<not> ms_armed ms"
  shows "if ret = 0
    then bk (snd (ena_plat_msix_disarm C I ms' d')) = bk d
      \<and> size (fst (bk d')) = size (fst (bk d)) + unat (ena_plat_msix_state ms')
    else bk d' = bk d"
  using bk arm len off
proof (cases rule: arm_cases)
  case early
  then show ?thesis by simp
next
  case (armed n ms1 d2)
  have "unat (of_nat n :: u32) = n" using armed(2) by (simp add: unat_of_nat)
  then show ?thesis using armed
    by (simp add: ena_plat_msix_disarm_def msgctl_book [OF bk] release_book [OF bk] map_nth_upt owes_def
        ena_plat_msix_state_def)
qed

text \<open>A controller that hands out lines from 32 up and refuses above a limit; its books are its state.\<close>

definition small_ctl :: "nat \<Rightarrow> (u32 multiset \<times> u32 multiset) intctlr" where
  "small_ctl lim =
    \<lparr> ic_alloc = \<lambda>_ d. if size (fst d) < lim
        then (0, 32 + of_nat (size (fst d)), 0xFEE00000, 0x35, (add_mset (32 + of_nat (size (fst d))) (fst d), snd d))
        else (- ENOSPC, 0, 0, 0, d),
      ic_free = \<lambda>i d. (fst d - {#i#}, snd d),
      ic_register = \<lambda>i d. (0, (fst d, add_mset i (snd d))),
      ic_unregister = \<lambda>i d. (fst d, snd d - {#i#}),
      ic_store = \<lambda>_ _ d. d \<rparr>"

definition msix_rom :: "'d pci_cfg" where
  "msix_rom = \<lparr> pc_read = \<lambda>r d. (if r = 0x34 then 0x40 else if r = 0x40 then 0x00030011
      else if r = 0x10 then 0xFE000000 else 0, d), pc_write = \<lambda>_ _ d. d \<rparr>"

definition msix_idle :: msix_state where
  "msix_idle = \<lparr> ms_armed = False, ms_nvec = 0, ms_irqs = replicate 32 0, ms_count = replicate 32 0,
     ms_ctx = replicate 32 0, ms_req = \<lparr> mr_nvec = 0, mr_lcpu = [] \<rparr>, ms_loc = loc_zero \<rparr>"

lemma small_ctl_simps:
  "ic_alloc (small_ctl lim) c d =
    (if size (fst d) < lim
     then (0, 32 + of_nat (size (fst d)), 0xFEE00000, 0x35, (add_mset (32 + of_nat (size (fst d))) (fst d), snd d))
     else (- ENOSPC, 0, 0, 0, d))"
  "ic_free (small_ctl lim) i d = (fst d - {#i#}, snd d)"
  "ic_register (small_ctl lim) i d = (0, (fst d, add_mset i (snd d)))"
  "ic_unregister (small_ctl lim) i d = (fst d, snd d - {#i#})"
  "ic_store (small_ctl lim) p v d = d"
  "program_entry (small_ctl lim) t k a m d = d"
  by (simp_all add: small_ctl_def program_entry_def)

lemma small_ctl_book: "irq_book msix_rom (small_ctl lim) (\<lambda>d. d)"
  by (auto simp: irq_book_def msix_rom_def small_ctl_simps ENOSPC_def split: if_splits)

lemma msix_rom_find: "msix_find msix_rom d =
    Some (0, \<lparr> ml_msgctl_off = 0x42, ml_count = 4, ml_table = 0xFE000000, ml_pba = 0xFE000000 \<rparr>, d)"
  by (simp add: msix_find_def msix_first_cap_def msix_walk.simps plat_pci_cfg_read_def msix_rom_def
      ENA_PLAT_PCI_CAP_ID_MSIX_def msix_bar_base_def loc_zero_def msix_table_size_def msg_ctrl_of_def Let_def)

theorem msix_arm_disarm_balanced_witness:
  "(case ena_plat_msix_arm msix_rom (small_ctl 1) True (Some \<lparr> mr_nvec = 2, mr_lcpu = [0, 0] \<rparr>) msix_idle ({#}, {#}) of
      None \<Rightarrow> False | Some (ret, ms, d) \<Rightarrow> ret = - ENOSPC \<and> d = ({#}, {#}))
   \<and> (case ena_plat_msix_arm msix_rom (small_ctl 2) True (Some \<lparr> mr_nvec = 2, mr_lcpu = [0, 0] \<rparr>) msix_idle ({#}, {#}) of
      None \<Rightarrow> False
    | Some (ret, ms, d) \<Rightarrow> ret = 0 \<and> size (fst d) = 2
        \<and> snd (ena_plat_msix_disarm msix_rom (small_ctl 2) ms d) = ({#}, {#}))"
proof -
  let ?arm = "\<lambda>l. ena_plat_msix_arm msix_rom (small_ctl l) True (Some \<lparr> mr_nvec = 2, mr_lcpu = [0, 0] \<rparr>) msix_idle ({#}, {#})"
  have i: "length (ms_irqs msix_idle) = 32" "\<not> ms_armed msix_idle" by (simp_all add: msix_idle_def)
  have nv: "arm_nvec \<lparr> mr_nvec = 2, mr_lcpu = [0, 0] \<rparr>
      \<lparr> ml_msgctl_off = 0x42, ml_count = 4, ml_table = 0xFE000000, ml_pba = 0xFE000000 \<rparr> = 2"
    by (simp add: arm_nvec_def ENA_PLAT_MSIX_MAX_VECTORS_def)
  note E = ena_plat_msix_arm_def msix_rom_find nv i small_ctl_simps Let_def upt_rec
  obtain ms d where a: "?arm 1 = Some (- ENOSPC, ms, d)" by (simp add: E ENOSPC_def)
  obtain ms' d' where b: "?arm 2 = Some (0, ms', d')" "ms_armed ms'" "ms_nvec ms' = 2" by (simp add: E)
  show ?thesis
    using msix_arm_disarm_balanced [OF small_ctl_book a i] msix_arm_disarm_balanced [OF small_ctl_book b(1) i] a b
    by (simp add: ENOSPC_def ena_plat_msix_state_def)
qed

end
