(* ===== verification/Ena_Cfg_Port.thy ===== *)
theory Ena_Cfg_Port
  imports Ena_Prelude
begin

text \<open>
  Reading the PCI configuration space from several cores (\<^verbatim>\<open>pci_read32\<close> in
  \<^verbatim>\<open>src/src/ena_pci.c\<close>, \<^verbatim>\<open>plat_pci_cfg_read\<close> in \<^verbatim>\<open>src/src/ena_plat.c\<close>).
  All registers are reached through one pair of ports: the address is written to the first, the value
  is read from the second.  Each of the two functions holds a spin lock meanwhile, each its own.

  The step relation interleaves the accesses of any number of cores.
\<close>

definition cfg_addr :: "u8 \<Rightarrow> u8 \<Rightarrow> u8 \<Rightarrow> u32 \<Rightarrow> u32" where
  "cfg_addr bus devid func reg =
    push_bit 31 1 OR push_bit 16 (ucast bus) OR push_bit 11 (ucast devid) OR push_bit 8 (ucast func) OR (reg AND 0xFC)"

datatype cfg_lock = S_PCI_CFG_LOCK | S_PLAT_CFG_LOCK

text \<open>Where a core is in an access: the lock it holds, the address it wants, the value it has.\<close>

datatype cfg_access =
    Outside
  | Holding cfg_lock u32
  | Addressed cfg_lock u32
  | Loaded cfg_lock u32 u32

record cfg_ports =
  cp_locks :: "cfg_lock \<Rightarrow> bool"
  cp_addr :: u32
  cp_core :: "nat \<Rightarrow> cfg_access"
  cp_results :: "(u32 \<times> u32) list"

text \<open>
  The registers of the bus are \<open>regs\<close>; the functions in use are those with a lock in \<open>used\<close>.  The lock
  is taken by a test-and-set that finds it free.
\<close>

inductive cfg_step :: "(u32 \<Rightarrow> u32) \<Rightarrow> cfg_lock set \<Rightarrow> cfg_ports \<Rightarrow> cfg_ports \<Rightarrow> bool"
  for regs :: "u32 \<Rightarrow> u32" and used :: "cfg_lock set" where
  take_lock: "cp_core s c = Outside \<Longrightarrow> l \<in> used \<Longrightarrow> \<not> cp_locks s l \<Longrightarrow>
    cfg_step regs used s (s\<lparr> cp_locks := (cp_locks s)(l := True), cp_core := (cp_core s)(c := Holding l a) \<rparr>)"
| out_addr: "cp_core s c = Holding l a \<Longrightarrow>
    cfg_step regs used s (s\<lparr> cp_addr := a, cp_core := (cp_core s)(c := Addressed l a) \<rparr>)"
| in_data: "cp_core s c = Addressed l a \<Longrightarrow>
    cfg_step regs used s (s\<lparr> cp_core := (cp_core s)(c := Loaded l a (regs (cp_addr s))) \<rparr>)"
| drop_lock: "cp_core s c = Loaded l a v \<Longrightarrow>
    cfg_step regs used s (s\<lparr> cp_locks := (cp_locks s)(l := False), cp_core := (cp_core s)(c := Outside),
      cp_results := cp_results s @ [(a, v)] \<rparr>)"

definition cfg_quiet :: cfg_ports where
  "cfg_quiet = \<lparr> cp_locks = (\<lambda>_. False), cp_addr = 0, cp_core = (\<lambda>_. Outside), cp_results = [] \<rparr>"

subsection \<open>One lock\<close>

text \<open>What holds for the core inside: its address is on the port, or its value is right.\<close>

fun inside :: "(u32 \<Rightarrow> u32) \<Rightarrow> cfg_lock \<Rightarrow> u32 \<Rightarrow> cfg_access \<Rightarrow> bool" where
  "inside regs l p Outside = False"
| "inside regs l p (Holding k a) = (k = l)"
| "inside regs l p (Addressed k a) = (k = l \<and> p = a)"
| "inside regs l p (Loaded k a v) = (k = l \<and> v = regs a)"

definition cfg_inv :: "(u32 \<Rightarrow> u32) \<Rightarrow> cfg_lock \<Rightarrow> cfg_ports \<Rightarrow> bool" where
  "cfg_inv regs l s \<longleftrightarrow>
    list_all (\<lambda>(a, v). v = regs a) (cp_results s) \<and>
    (if cp_locks s l then \<exists>c. inside regs l (cp_addr s) (cp_core s c) \<and> (\<forall>c'. c' \<noteq> c \<longrightarrow> cp_core s c' = Outside)
     else \<forall>c. cp_core s c = Outside)"

lemma cfg_inv_inside:
  assumes "cfg_inv regs l s" "cp_core s c \<noteq> Outside"
  shows "list_all (\<lambda>(a, v). v = regs a) (cp_results s)" "cp_locks s l" "inside regs l (cp_addr s) (cp_core s c)"
    "c' \<noteq> c \<Longrightarrow> cp_core s c' = Outside"
proof -
  have L: "cp_locks s l" using assms by (auto simp: cfg_inv_def split: if_splits)
  then obtain k where k: "inside regs l (cp_addr s) (cp_core s k)" "\<And>c'. c' \<noteq> k \<Longrightarrow> cp_core s c' = Outside"
    using assms(1) by (auto simp: cfg_inv_def)
  then have "k = c" using assms(2) by metis
  then show "inside regs l (cp_addr s) (cp_core s c)" "c' \<noteq> c \<Longrightarrow> cp_core s c' = Outside" using k by simp_all
  show "list_all (\<lambda>(a, v). v = regs a) (cp_results s)" "cp_locks s l" using assms(1) L by (simp_all add: cfg_inv_def)
qed

lemma cfg_inv_stay:
  assumes "cfg_inv regs l s" "cp_core s c \<noteq> Outside"
    and "s' = s\<lparr> cp_addr := p, cp_core := (cp_core s)(c := x) \<rparr>" "inside regs l p x"
  shows "cfg_inv regs l s'"
proof -
  note I = cfg_inv_inside [OF assms(1,2)]
  have "inside regs l p (((cp_core s)(c := x)) c) \<and> (\<forall>c'. c' \<noteq> c \<longrightarrow> ((cp_core s)(c := x)) c' = Outside)"
    using assms(4) I(4) by simp
  then have "\<exists>k. inside regs l p (((cp_core s)(c := x)) k) \<and> (\<forall>c'. c' \<noteq> k \<longrightarrow> ((cp_core s)(c := x)) c' = Outside)"
    by (rule exI)
  then show ?thesis unfolding cfg_inv_def assms(3) using I(1,2) by (simp del: fun_upd_apply)
qed

lemma cfg_inv_step:
  assumes "cfg_step regs {l} s s'" "cfg_inv regs l s" shows "cfg_inv regs l s'"
  using assms
proof (induction rule: cfg_step.induct)
  case (take_lock s c k a)
  then have "\<not> cp_locks s l" "\<forall>c. cp_core s c = Outside" "list_all (\<lambda>(a, v). v = regs a) (cp_results s)" "k = l"
    by (simp_all add: cfg_inv_def)
  then show ?case unfolding cfg_inv_def by simp
next
  case (out_addr s c k a)
  then have "cp_core s c \<noteq> Outside" "k = l" using cfg_inv_inside(3) [of regs l s c] by simp_all
  then show ?case by (intro cfg_inv_stay [OF out_addr(2) _ refl]) simp_all
next
  case (in_data s c k a)
  then have "cp_core s c \<noteq> Outside" "k = l" "cp_addr s = a" using cfg_inv_inside(3) [of regs l s c] by simp_all
  then show ?case
    by (intro cfg_inv_stay [OF in_data(2), where c = c and p = "cp_addr s" and x = "Loaded k a (regs (cp_addr s))"]) simp_all
next
  case (drop_lock s c k a v)
  then have o: "cp_core s c \<noteq> Outside" by simp
  note I = cfg_inv_inside [OF drop_lock(2) o]
  have "k = l" "v = regs a" using I(3) drop_lock(1) by simp_all
  moreover have "((cp_core s)(c := Outside)) c' = Outside" for c' using I(4) by simp
  ultimately show ?case using I(1) unfolding cfg_inv_def by (simp del: fun_upd_apply add: fun_upd_same)
qed

text \<open>C10: When all cores read configuration registers through one of the two functions, every read
  returns the register it asked for, under every interleaving of the port accesses.\<close>

theorem cfg_read_atomic:
  assumes "(cfg_step regs {l})\<^sup>*\<^sup>* cfg_quiet s"
  shows "list_all (\<lambda>(a, v). v = regs a) (cp_results s)"
proof -
  have "cfg_inv regs l cfg_quiet" by (simp add: cfg_inv_def cfg_quiet_def)
  with assms have "cfg_inv regs l s"
    by (induction rule: rtranclp_induct) (simp_all add: cfg_inv_step)
  then show ?thesis by (simp add: cfg_inv_def)
qed

text \<open>One access from start to end.\<close>

lemma cfg_read_run:
  assumes "cp_core s c = Outside" "l \<in> used" "\<not> cp_locks s l"
  shows "(cfg_step regs used)\<^sup>*\<^sup>* s (s\<lparr> cp_addr := a, cp_results := cp_results s @ [(a, regs a)] \<rparr>)"
proof -
  let ?s1 = "s\<lparr> cp_locks := (cp_locks s)(l := True), cp_core := (cp_core s)(c := Holding l a) \<rparr>"
  let ?s2 = "s\<lparr> cp_locks := (cp_locks s)(l := True), cp_addr := a, cp_core := (cp_core s)(c := Addressed l a) \<rparr>"
  let ?s3 = "s\<lparr> cp_locks := (cp_locks s)(l := True), cp_addr := a, cp_core := (cp_core s)(c := Loaded l a (regs a)) \<rparr>"
  have "cfg_step regs used s ?s1" using assms by (rule take_lock)
  moreover have "cfg_step regs used ?s1 ?s2" using out_addr [of ?s1 c l a regs used] by simp
  moreover have "cfg_step regs used ?s2 ?s3" using in_data [of ?s2 c l a regs used] by simp
  moreover have "cfg_step regs used ?s3 (s\<lparr> cp_addr := a, cp_results := cp_results s @ [(a, regs a)] \<rparr>)"
    using drop_lock [of ?s3 c l a "regs a" regs used] assms by (simp add: fun_upd_idem)
  ultimately show ?thesis by (meson rtranclp.rtrancl_into_rtrancl rtranclp.rtrancl_refl)
qed

theorem cfg_read_atomic_witness:
  "\<exists>s. (cfg_step (\<lambda>a. a + 1) {S_PCI_CFG_LOCK})\<^sup>*\<^sup>* cfg_quiet s \<and> cp_results s = [(0x80000010, 0x80000011)] \<and>
    list_all (\<lambda>(a, v). v = a + 1) (cp_results s)"
proof -
  let ?s = "cfg_quiet\<lparr> cp_addr := 0x80000010, cp_results := [(0x80000010, 0x80000011)] \<rparr>"
  have run: "(cfg_step (\<lambda>a. a + 1) {S_PCI_CFG_LOCK})\<^sup>*\<^sup>* cfg_quiet ?s"
    using cfg_read_run [of cfg_quiet 0 S_PCI_CFG_LOCK "{S_PCI_CFG_LOCK}" "\<lambda>a. a + 1" "0x80000010"]
    by (simp add: cfg_quiet_def)
  show ?thesis using run cfg_read_atomic [OF run] by (intro exI [of _ ?s]) simp
qed

subsection \<open>Two locks\<close>

text \<open>
  With both functions in use the locks exclude nothing: a core that has written its address can find
  the value of the register another core has asked for since.
\<close>

theorem cfg_read_race:
  "\<exists>s. (cfg_step (\<lambda>a. a) UNIV)\<^sup>*\<^sup>* cfg_quiet s \<and> (0x80000010, 0x80000034) \<in> set (cp_results s)"
proof -
  let ?l = S_PCI_CFG_LOCK and ?a = "0x80000010 :: u32" and ?b = "0x80000034 :: u32" and ?st = "cfg_step (\<lambda>a. a) UNIV"
  let ?s1 = "cfg_quiet\<lparr> cp_locks := (\<lambda>_. False)(?l := True), cp_core := (\<lambda>_. Outside)(0 := Holding ?l ?a) \<rparr>"
  let ?s2 = "?s1\<lparr> cp_addr := ?a, cp_core := (\<lambda>_. Outside)(0 := Addressed ?l ?a) \<rparr>"
  let ?s3 = "?s2\<lparr> cp_addr := ?b, cp_results := [(?b, ?b)] \<rparr>"
  let ?s4 = "?s3\<lparr> cp_core := (\<lambda>_. Outside)(0 := Loaded ?l ?a ?b) \<rparr>"
  let ?s5 = "?s4\<lparr> cp_locks := (\<lambda>_. False), cp_core := (\<lambda>_. Outside), cp_results := [(?b, ?b), (?a, ?b)] \<rparr>"
  have 1: "?st cfg_quiet ?s1" using take_lock [of cfg_quiet 0 ?l UNIV "\<lambda>a. a" ?a] by (simp add: cfg_quiet_def)
  have 2: "?st ?s1 ?s2" using out_addr [of ?s1 0 ?l ?a "\<lambda>a. a" UNIV] by simp
  have 3: "?st\<^sup>*\<^sup>* ?s2 ?s3"
    using cfg_read_run [of ?s2 1 S_PLAT_CFG_LOCK UNIV "\<lambda>a. a" ?b] by (simp add: cfg_quiet_def)
  have 4: "?st ?s3 ?s4" using in_data [of ?s3 0 ?l ?a "\<lambda>a. a" UNIV] by simp
  have 5: "?st ?s4 ?s5" using drop_lock [of ?s4 0 ?l ?a ?b "\<lambda>a. a" UNIV] by (simp add: fun_upd_idem)
  have "?st\<^sup>*\<^sup>* cfg_quiet ?s5"
    using 1 2 3 4 5 by (meson converse_rtranclp_into_rtranclp rtranclp.rtrancl_into_rtrancl)
  then show ?thesis by (intro exI [of _ ?s5]) simp
qed

end
