(* ===== verification/Ena_Spsc.thy ===== *)
theory Ena_Spsc
  imports Ena_Prelude
begin

text \<open>
  The queue between the accept loop and a worker of the multi-core sample
  (\<^verbatim>\<open>src/samples/httpreply-mc/spsc.h\<close>): one producer, one consumer, no lock.

  The operations are given twice: as functions, for a caller that is not disturbed, and as the single
  memory accesses of the two sides, which a step relation interleaves in any order.  The acquire and
  release accesses to the two indices order the accesses to the slots, so that an interleaving of the
  accesses in program order is what either side can observe.
\<close>

subsection \<open>The operations\<close>

definition SPSC_CAP :: u64 where [ena_consts]: "SPSC_CAP = 1024"

record spsc_ring =
  sr_head :: u64
  sr_tail :: u64
  sr_data :: "u32 list"

definition spsc_ring_init :: "spsc_ring \<Rightarrow> spsc_ring" where
  "spsc_ring_init r = r\<lparr> sr_head := 0, sr_tail := 0 \<rparr>"

definition spsc_ring_empty :: "spsc_ring \<Rightarrow> bool" where
  "spsc_ring_empty r \<longleftrightarrow> sr_head r = sr_tail r"

definition spsc_ring_full :: "spsc_ring \<Rightarrow> bool" where
  "spsc_ring_full r \<longleftrightarrow> SPSC_CAP \<le> sr_head r - sr_tail r"

definition spsc_slot :: "u64 \<Rightarrow> nat" where
  "spsc_slot i = unat (i mod SPSC_CAP)"

definition spsc_ring_push :: "spsc_ring \<Rightarrow> u32 \<Rightarrow> bool \<times> spsc_ring" where
  "spsc_ring_push r fd =
    (let h = sr_head r; t = sr_tail r in
     if SPSC_CAP \<le> h - t then (False, r)
     else (True, r\<lparr> sr_data := (sr_data r)[spsc_slot h := fd], sr_head := h + 1 \<rparr>))"

definition spsc_ring_pop :: "spsc_ring \<Rightarrow> u32 option \<times> spsc_ring" where
  "spsc_ring_pop r =
    (let t = sr_tail r; h = sr_head r in
     if h = t then (None, r) else (Some (sr_data r ! spsc_slot t), r\<lparr> sr_tail := t + 1 \<rparr>))"

subsection \<open>The memory accesses of the two sides\<close>

text \<open>Where a side is in its operation, with the values in its local variables.\<close>

datatype producer =
    P_Idle
  | P_Load_Tail (p_fd: u32) (p_h: u64)
  | P_Check (p_fd: u32) (p_h: u64) (p_t: u64)
  | P_Publish (p_fd: u32) (p_h: u64)

datatype consumer =
    C_Idle
  | C_Load_Head (c_t: u64)
  | C_Check (c_t: u64) (c_h: u64)
  | C_Release (c_t: u64) (c_fd: u32)

text \<open>The ring, the two sides, and the descriptors pushed and popped with success so far.\<close>

record spsc_sys =
  sp_ring :: spsc_ring
  sp_prod :: producer
  sp_cons :: consumer
  sp_sent :: "u32 list"
  sp_recvd :: "u32 list"

inductive spsc_step :: "spsc_sys \<Rightarrow> spsc_sys \<Rightarrow> bool" where
  push_head: "sp_prod s = P_Idle \<Longrightarrow> spsc_step s (s\<lparr> sp_prod := P_Load_Tail fd (sr_head (sp_ring s)) \<rparr>)"
| push_tail: "sp_prod s = P_Load_Tail fd h \<Longrightarrow> spsc_step s (s\<lparr> sp_prod := P_Check fd h (sr_tail (sp_ring s)) \<rparr>)"
| push_full: "sp_prod s = P_Check fd h t \<Longrightarrow> SPSC_CAP \<le> h - t \<Longrightarrow> spsc_step s (s\<lparr> sp_prod := P_Idle \<rparr>)"
| push_write: "sp_prod s = P_Check fd h t \<Longrightarrow> \<not> SPSC_CAP \<le> h - t \<Longrightarrow>
    spsc_step s (s\<lparr> sp_prod := P_Publish fd h,
      sp_ring := (sp_ring s)\<lparr> sr_data := (sr_data (sp_ring s))[spsc_slot h := fd] \<rparr> \<rparr>)"
| push_publish: "sp_prod s = P_Publish fd h \<Longrightarrow>
    spsc_step s (s\<lparr> sp_prod := P_Idle, sp_ring := (sp_ring s)\<lparr> sr_head := h + 1 \<rparr>, sp_sent := sp_sent s @ [fd] \<rparr>)"
| pop_tail: "sp_cons s = C_Idle \<Longrightarrow> spsc_step s (s\<lparr> sp_cons := C_Load_Head (sr_tail (sp_ring s)) \<rparr>)"
| pop_head: "sp_cons s = C_Load_Head t \<Longrightarrow> spsc_step s (s\<lparr> sp_cons := C_Check t (sr_head (sp_ring s)) \<rparr>)"
| pop_empty: "sp_cons s = C_Check t h \<Longrightarrow> h = t \<Longrightarrow> spsc_step s (s\<lparr> sp_cons := C_Idle \<rparr>)"
| pop_read: "sp_cons s = C_Check t h \<Longrightarrow> h \<noteq> t \<Longrightarrow>
    spsc_step s (s\<lparr> sp_cons := C_Release t (sr_data (sp_ring s) ! spsc_slot t) \<rparr>)"
| pop_release: "sp_cons s = C_Release t fd \<Longrightarrow>
    spsc_step s (s\<lparr> sp_cons := C_Idle, sp_ring := (sp_ring s)\<lparr> sr_tail := t + 1 \<rparr>, sp_recvd := sp_recvd s @ [fd] \<rparr>)"

definition spsc_start :: "spsc_ring \<Rightarrow> spsc_sys" where
  "spsc_start r = \<lparr> sp_ring = spsc_ring_init r, sp_prod = P_Idle, sp_cons = C_Idle, sp_sent = [], sp_recvd = [] \<rparr>"

subsection \<open>Indices that wrap around\<close>

lemma spsc_slot_of_nat: "spsc_slot (of_nat n) = n mod 1024"
proof -
  have "(1024 :: nat) dvd 2 ^ 64" by simp
  then show ?thesis by (simp add: spsc_slot_def SPSC_CAP_def unat_mod unat_of_nat mod_mod_cancel)
qed

lemma spsc_distance:
  assumes "m \<le> n" "n \<le> m + 1024"
  shows "SPSC_CAP \<le> of_nat n - of_nat m \<longleftrightarrow> n = m + 1024" and "of_nat n = (of_nat m :: u64) \<longleftrightarrow> n = m"
proof -
  define k where "k = n - m"
  then have k: "n = m + k" "k \<le> 1024" using assms by simp_all
  have u: "unat (of_nat k :: u64) = k" using k(2) by (simp add: unat_of_nat)
  show "SPSC_CAP \<le> of_nat n - of_nat m \<longleftrightarrow> n = m + 1024"
    using k u by (simp add: SPSC_CAP_def word_le_nat_alt)
  have "of_nat n = (of_nat m :: u64) \<longleftrightarrow> (of_nat k :: u64) = 0" using k(1) by simp
  also have "\<dots> \<longleftrightarrow> k = 0" by (simp add: unat_eq_zero [symmetric] u)
  finally show "of_nat n = (of_nat m :: u64) \<longleftrightarrow> n = m" using k(1) by simp
qed

lemma slot_apart:
  fixes i n :: nat
  assumes "i < n" "n < i + 1024" shows "i mod 1024 \<noteq> n mod 1024"
proof
  assume "i mod 1024 = n mod 1024"
  then have "1024 dvd n - i" using mod_eq_dvd_iff_nat [of i n 1024] assms(1) by simp
  then have "1024 \<le> n - i" using assms(1) by (intro dvd_imp_le) simp_all
  then show False using assms by simp
qed

subsection \<open>The invariant\<close>

text \<open>
  What a side knows in the middle of an operation, with \<open>n\<close> descriptors pushed and \<open>m\<close> popped: its
  own index is exact, the index of the other side may have moved on since it was read.
\<close>

fun prod_ok :: "nat \<Rightarrow> nat \<Rightarrow> u32 list \<Rightarrow> producer \<Rightarrow> bool" where
  "prod_ok n m xs P_Idle = True"
| "prod_ok n m xs (P_Load_Tail fd h) = (h = of_nat n)"
| "prod_ok n m xs (P_Check fd h t) = (h = of_nat n \<and> (\<exists>k. k \<le> m \<and> t = of_nat k \<and> n \<le> k + 1024))"
| "prod_ok n m xs (P_Publish fd h) = (h = of_nat n \<and> n < m + 1024 \<and> xs ! (n mod 1024) = fd)"

fun cons_ok :: "u32 list \<Rightarrow> nat \<Rightarrow> consumer \<Rightarrow> bool" where
  "cons_ok sent m C_Idle = True"
| "cons_ok sent m (C_Load_Head t) = (t = of_nat m)"
| "cons_ok sent m (C_Check t h) = (t = of_nat m \<and> (\<exists>k. k \<le> length sent \<and> h = of_nat k \<and> m \<le> k))"
| "cons_ok sent m (C_Release t fd) = (t = of_nat m \<and> m < length sent \<and> fd = sent ! m)"

definition ring_ok :: "u32 list \<Rightarrow> nat \<Rightarrow> spsc_ring \<Rightarrow> bool" where
  "ring_ok sent m r \<longleftrightarrow>
    length (sr_data r) = 1024 \<and> sr_head r = of_nat (length sent) \<and> sr_tail r = of_nat m \<and>
    m \<le> length sent \<and> length sent \<le> m + 1024 \<and>
    (\<forall>i. m \<le> i \<longrightarrow> i < length sent \<longrightarrow> sr_data r ! (i mod 1024) = sent ! i)"

definition spsc_inv :: "spsc_sys \<Rightarrow> bool" where
  "spsc_inv s \<longleftrightarrow>
    (let m = length (sp_recvd s) in
     ring_ok (sp_sent s) m (sp_ring s) \<and> take m (sp_sent s) = sp_recvd s \<and>
     prod_ok (length (sp_sent s)) m (sr_data (sp_ring s)) (sp_prod s) \<and> cons_ok (sp_sent s) m (sp_cons s))"

lemma prod_ok_mono: "prod_ok n m xs p \<Longrightarrow> m \<le> m' \<Longrightarrow> prod_ok n m' xs p"
  by (cases p) (auto intro: le_trans)

lemma cons_ok_append: "cons_ok sent m c \<Longrightarrow> cons_ok (sent @ xs) m c"
  by (cases c) (auto simp: nth_append intro: trans_le_add1)

lemma ring_ok_write:
  assumes "ring_ok sent m r" "length sent < m + 1024"
  shows "ring_ok sent m (r\<lparr> sr_data := (sr_data r)[length sent mod 1024 := fd] \<rparr>)"
proof -
  have "(sr_data r)[length sent mod 1024 := fd] ! (i mod 1024) = sr_data r ! (i mod 1024)"
    if "m \<le> i" "i < length sent" for i
    using slot_apart [of i "length sent"] that assms(2) by simp
  then show ?thesis using assms by (simp add: ring_ok_def)
qed

lemma ring_ok_publish:
  assumes "ring_ok sent m r" "length sent < m + 1024" "sr_data r ! (length sent mod 1024) = fd"
  shows "ring_ok (sent @ [fd]) m (r\<lparr> sr_head := of_nat (length sent) + 1 \<rparr>)"
proof -
  have "sr_data r ! (i mod 1024) = (sent @ [fd]) ! i" if "m \<le> i" "i < Suc (length sent)" for i
    using assms that by (cases "i = length sent") (auto simp: ring_ok_def nth_append)
  then show ?thesis using assms by (simp add: ring_ok_def)
qed

lemma ring_okD: "ring_ok sent m r \<Longrightarrow> m \<le> length sent \<and> length (sr_data r) = 1024"
  by (simp add: ring_ok_def)

lemma ring_ok_release:
  assumes "ring_ok sent m r" "m < length sent" shows "ring_ok sent (Suc m) (r\<lparr> sr_tail := of_nat m + 1 \<rparr>)"
  using assms by (auto simp: ring_ok_def)

lemma spsc_inv_start: "length (sr_data r) = 1024 \<Longrightarrow> spsc_inv (spsc_start r)"
  by (simp add: spsc_inv_def ring_ok_def spsc_start_def spsc_ring_init_def)

lemma spsc_inv_step:
  assumes "spsc_step s s'" "spsc_inv s" shows "spsc_inv s'"
  using assms
proof (induction rule: spsc_step.induct)
  case (push_tail s fd h)
  then show ?case by (auto simp: spsc_inv_def ring_ok_def Let_def)
next
  case (push_write s fd h t)
  then obtain k where k: "h = of_nat (length (sp_sent s))" "t = of_nat k" "k \<le> length (sp_recvd s)"
      "length (sp_recvd s) \<le> length (sp_sent s)" "length (sp_sent s) \<le> k + 1024"
    by (auto simp: spsc_inv_def ring_ok_def Let_def)
  then have "length (sp_sent s) < length (sp_recvd s) + 1024"
    using push_write(2) spsc_distance(1) [of k "length (sp_sent s)"] by auto
  with push_write k(1) show ?case
    using ring_okD [of "sp_sent s" _ "sp_ring s"] by (auto simp: spsc_inv_def Let_def spsc_slot_of_nat ring_ok_write)
next
  case (push_publish s fd h)
  then show ?case
    using ring_okD [of "sp_sent s" _ "sp_ring s"] by (auto simp: spsc_inv_def Let_def ring_ok_publish cons_ok_append)
next
  case (pop_head s t)
  then show ?case by (auto simp: spsc_inv_def ring_ok_def Let_def)
next
  case (pop_read s t h)
  then obtain k where k: "t = of_nat (length (sp_recvd s))" "h = of_nat k" "length (sp_recvd s) \<le> k"
      "k \<le> length (sp_sent s)"
    by (auto simp: spsc_inv_def Let_def)
  then have "length (sp_recvd s) < length (sp_sent s)"
    using pop_read(2) by (cases "k = length (sp_recvd s)") auto
  with pop_read k(1) show ?case by (auto simp: spsc_inv_def ring_ok_def Let_def spsc_slot_of_nat)
next
  case (pop_release s t fd)
  then show ?case
    by (auto simp: spsc_inv_def Let_def ring_ok_release take_Suc_conv_app_nth elim: prod_ok_mono)
qed (auto simp: spsc_inv_def ring_ok_def Let_def)

lemma spsc_inv_reach:
  assumes "spsc_step\<^sup>*\<^sup>* (spsc_start r) s" "length (sr_data r) = 1024" shows "spsc_inv s"
  using assms(1)
  by (induction rule: rtranclp_induct) (simp_all add: spsc_inv_start assms(2) spsc_inv_step)

subsection \<open>The operations as runs of their accesses\<close>

lemma spsc_push_run:
  assumes "sp_prod s = P_Idle" "spsc_ring_push (sp_ring s) fd = (ok, r')"
  shows "spsc_step\<^sup>*\<^sup>* s (s\<lparr> sp_ring := r', sp_sent := sp_sent s @ (if ok then [fd] else []) \<rparr>)"
proof -
  let ?h = "sr_head (sp_ring s)" and ?t = "sr_tail (sp_ring s)"
  have same: "s\<lparr> sp_prod := P_Idle \<rparr> = s" using assms(1) by (cases s) simp
  have "spsc_step\<^sup>*\<^sup>* s (s\<lparr> sp_prod := P_Check fd ?h ?t \<rparr>)"
    using push_head [OF assms(1), of fd] push_tail [of "s\<lparr> sp_prod := P_Load_Tail fd ?h \<rparr>"]
    by (auto intro: rtranclp.rtrancl_into_rtrancl)
  moreover have "spsc_step\<^sup>*\<^sup>* (s\<lparr> sp_prod := P_Check fd ?h ?t \<rparr>)
      (s\<lparr> sp_ring := r', sp_sent := sp_sent s @ (if ok then [fd] else []) \<rparr>)"
  proof (cases ok)
    case True
    then have "\<not> SPSC_CAP \<le> ?h - ?t"
        "r' = (sp_ring s)\<lparr> sr_data := (sr_data (sp_ring s))[spsc_slot ?h := fd], sr_head := ?h + 1 \<rparr>"
      using assms(2) by (auto simp: spsc_ring_push_def Let_def split: if_splits)
    then show ?thesis
      using push_write [of "s\<lparr> sp_prod := P_Check fd ?h ?t \<rparr>" fd ?h ?t] assms(1) True
        push_publish [of "s\<lparr> sp_prod := P_Publish fd ?h,
          sp_ring := (sp_ring s)\<lparr> sr_data := (sr_data (sp_ring s))[spsc_slot ?h := fd] \<rparr> \<rparr>" fd ?h]
      by (auto simp: same intro!: rtranclp.rtrancl_into_rtrancl [OF r_into_rtranclp])
  next
    case False
    then have "SPSC_CAP \<le> ?h - ?t" "r' = sp_ring s"
      using assms(2) by (auto simp: spsc_ring_push_def Let_def split: if_splits)
    then show ?thesis
      using push_full [of "s\<lparr> sp_prod := P_Check fd ?h ?t \<rparr>" fd ?h ?t] assms(1) False by (auto simp: same)
  qed
  ultimately show ?thesis by (rule rtranclp_trans)
qed

lemma spsc_pop_run:
  assumes "sp_cons s = C_Idle" "spsc_ring_pop (sp_ring s) = (x, r')"
  shows "spsc_step\<^sup>*\<^sup>* s (s\<lparr> sp_ring := r', sp_recvd := sp_recvd s @ (case x of None \<Rightarrow> [] | Some fd \<Rightarrow> [fd]) \<rparr>)"
proof -
  let ?h = "sr_head (sp_ring s)" and ?t = "sr_tail (sp_ring s)" and ?d = "sr_data (sp_ring s)"
  have same: "s\<lparr> sp_cons := C_Idle \<rparr> = s" using assms(1) by (cases s) simp
  have "spsc_step\<^sup>*\<^sup>* s (s\<lparr> sp_cons := C_Check ?t ?h \<rparr>)"
    using pop_tail [OF assms(1)] pop_head [of "s\<lparr> sp_cons := C_Load_Head ?t \<rparr>"]
    by (auto intro: rtranclp.rtrancl_into_rtrancl)
  moreover have "spsc_step\<^sup>*\<^sup>* (s\<lparr> sp_cons := C_Check ?t ?h \<rparr>)
      (s\<lparr> sp_ring := r', sp_recvd := sp_recvd s @ (case x of None \<Rightarrow> [] | Some fd \<Rightarrow> [fd]) \<rparr>)"
  proof (cases "?h = ?t")
    case True
    then show ?thesis using pop_empty [of "s\<lparr> sp_cons := C_Check ?t ?h \<rparr>" ?t ?h] assms
      by (auto simp: spsc_ring_pop_def Let_def same)
  next
    case False
    then have "x = Some (?d ! spsc_slot ?t)" "r' = (sp_ring s)\<lparr> sr_tail := ?t + 1 \<rparr>"
      using assms(2) by (auto simp: spsc_ring_pop_def Let_def)
    then show ?thesis
      using pop_read [of "s\<lparr> sp_cons := C_Check ?t ?h \<rparr>" ?t ?h] assms(1) False
        pop_release [of "s\<lparr> sp_cons := C_Release ?t (?d ! spsc_slot ?t) \<rparr>" ?t "?d ! spsc_slot ?t"]
      by (auto simp: same intro!: rtranclp.rtrancl_into_rtrancl [OF r_into_rtranclp])
  qed
  ultimately show ?thesis by (rule rtranclp_trans)
qed

text \<open>C5: Under every interleaving of the memory accesses of one producer and one consumer, however
  often the 64-bit indices wrap around, the descriptors popped are the descriptors pushed, in order and
  each once, with at most 1024 of them under way; the ring reports empty and full exactly when none or
  1024 are.\<close>

theorem spsc_fifo:
  assumes "spsc_step\<^sup>*\<^sup>* (spsc_start r) s" "length (sr_data r) = 1024"
  shows "\<exists>q. sp_sent s = sp_recvd s @ q \<and> length q \<le> 1024 \<and>
    (spsc_ring_empty (sp_ring s) \<longleftrightarrow> q = []) \<and> (spsc_ring_full (sp_ring s) \<longleftrightarrow> length q = 1024)"
proof -
  define n m where nm: "n = length (sp_sent s)" "m = length (sp_recvd s)"
  have I: "take m (sp_sent s) = sp_recvd s" "sr_head (sp_ring s) = of_nat n" "sr_tail (sp_ring s) = of_nat m"
      "m \<le> n" "n \<le> m + 1024"
    using spsc_inv_reach [OF assms] by (simp_all add: spsc_inv_def ring_ok_def Let_def nm)
  have "sp_sent s = sp_recvd s @ drop m (sp_sent s)" using append_take_drop_id [of m "sp_sent s"] I(1) by simp
  moreover have "length (drop m (sp_sent s)) = n - m" by (simp add: nm)
  moreover have "spsc_ring_empty (sp_ring s) \<longleftrightarrow> n = m" "spsc_ring_full (sp_ring s) \<longleftrightarrow> n = m + 1024"
    using spsc_distance [OF I(4,5)] I(2,3) by (simp_all add: spsc_ring_empty_def spsc_ring_full_def)
  ultimately show ?thesis using I(4,5)
    by (intro exI [of _ "drop m (sp_sent s)"]) (auto simp: nm)
qed

definition ex_spsc :: spsc_ring where
  "ex_spsc = \<lparr> sr_head = 0, sr_tail = 0, sr_data = replicate 1024 0 \<rparr>"

theorem spsc_fifo_witness:
  "\<exists>s. spsc_step\<^sup>*\<^sup>* (spsc_start ex_spsc) s \<and> sp_sent s = [7] \<and> sp_recvd s = [] \<and>
    \<not> spsc_ring_empty (sp_ring s) \<and> \<not> spsc_ring_full (sp_ring s)"
proof -
  let ?s = "(spsc_start ex_spsc)\<lparr> sp_ring := snd (spsc_ring_push (spsc_ring_init ex_spsc) 7), sp_sent := [7] \<rparr>"
  have "fst (spsc_ring_push (spsc_ring_init ex_spsc) 7)"
    by (simp add: spsc_ring_push_def spsc_ring_init_def ex_spsc_def SPSC_CAP_def)
  then have run: "spsc_step\<^sup>*\<^sup>* (spsc_start ex_spsc) ?s"
    using spsc_push_run [of "spsc_start ex_spsc" 7] by (simp add: spsc_start_def prod_eq_iff)
  have "length (sr_data ex_spsc) = 1024" by (simp add: ex_spsc_def)
  from spsc_fifo [OF run this] show ?thesis
    by (intro exI [of _ ?s] conjI run) (auto simp: spsc_start_def)
qed

end
