(* ===== verification/Ena_Backoff.thy ===== *)
theory Ena_Backoff
  imports Ena_Prelude
begin

text \<open>
  The idle policy of the multi-core sample's worker loop
  (\<^verbatim>\<open>src/samples/httpreply-mc/idlebackoff.h\<close>): how long a core may sleep after an iteration.
\<close>

definition IB_IDLE_STREAK_LIMIT :: u32 where [ena_consts]: "IB_IDLE_STREAK_LIMIT = 8"
definition IB_ACTIVE_WINDOW_NS :: u64 where [ena_consts]: "IB_ACTIVE_WINDOW_NS = 2000000"
definition IB_ACTIVE_SLEEP_NS :: u64 where [ena_consts]: "IB_ACTIVE_SLEEP_NS = 20000"
definition IB_LONG_BASE_NS :: u64 where [ena_consts]: "IB_LONG_BASE_NS = 1000000"
definition IB_LONG_MAX_NS :: u64 where [ena_consts]: "IB_LONG_MAX_NS = 8000000"
definition IB_LONG_MAX_SHIFT :: u32 where [ena_consts]: "IB_LONG_MAX_SHIFT = 3"

record ib_state =
  ib_streak :: u32
  ib_shift :: u32
  ib_last_work :: u64

definition ib_init :: "u64 \<Rightarrow> ib_state" where
  "ib_init now = \<lparr> ib_streak = 0, ib_shift = 0, ib_last_work = now \<rparr>"

definition ib_tick :: "ib_state \<Rightarrow> u64 \<Rightarrow> bool \<Rightarrow> u64 \<times> ib_state" where
  "ib_tick s now work =
    (if work then (0, s\<lparr> ib_streak := 0, ib_shift := 0, ib_last_work := now \<rparr>)
     else
       let s = s\<lparr> ib_streak := ib_streak s + 1 \<rparr> in
       if ib_streak s \<le> IB_IDLE_STREAK_LIMIT then (0, s)
       else if now - ib_last_work s \<le> IB_ACTIVE_WINDOW_NS then (IB_ACTIVE_SLEEP_NS, s)
       else
         let budget = push_bit (unat (ib_shift s)) IB_LONG_BASE_NS;
             budget = (if IB_LONG_MAX_NS < budget then IB_LONG_MAX_NS else budget)
         in (budget, if ib_shift s < IB_LONG_MAX_SHIFT then s\<lparr> ib_shift := ib_shift s + 1 \<rparr> else s))"

text \<open>The sleeps of a run of iterations without work, at the given times.\<close>

fun ib_idle :: "ib_state \<Rightarrow> u64 list \<Rightarrow> u64 list" where
  "ib_idle s [] = []"
| "ib_idle s (now # ts) = (case ib_tick s now False of (ns, s) \<Rightarrow> ns # ib_idle s ts)"

text \<open>The state after \<open>k\<close> dormant iterations without work.\<close>

definition ib_dormant :: "u64 \<Rightarrow> nat \<Rightarrow> ib_state" where
  "ib_dormant t k = \<lparr> ib_streak = of_nat k, ib_shift = of_nat (min (k - 8) 3), ib_last_work = t \<rparr>"

definition ib_schedule :: "nat \<Rightarrow> u64" where
  "ib_schedule k = (if k < 8 then 0 else 1000000 * 2 ^ min (k - 8) 3)"

lemma ib_longest_tick:
  assumes "IB_ACTIVE_WINDOW_NS < now - t" "\<not> x + 1 \<le> 8"
  shows "ib_tick \<lparr> ib_streak = x, ib_shift = 3, ib_last_work = t \<rparr> now False =
    (8000000, \<lparr> ib_streak = x + 1, ib_shift = 3, ib_last_work = t \<rparr>)"
  using assms by (simp add: ib_tick_def Let_def ena_consts not_le push_bit_eq_mult)

lemma ib_dormant_tick:
  assumes "IB_ACTIVE_WINDOW_NS < now - t" "Suc k < 2 ^ 32"
  shows "ib_tick (ib_dormant t k) now False = (ib_schedule k, ib_dormant t (Suc k))"
proof -
  have "unat (of_nat (Suc k) :: u32) = Suc k" using assms(2) by (subst unat_of_nat) simp
  then have u: "unat (of_nat k + 1 :: u32) = Suc k" by (simp add: add.commute)
  have "unat (8 :: u32) = 8" by simp
  then have le: "(of_nat k + 1 :: u32) \<le> 8 \<longleftrightarrow> k < 8" unfolding word_le_nat_alt u by (simp only: Suc_le_eq)
  note D = ib_tick_def ib_dormant_def ib_schedule_def Let_def ena_consts not_le push_bit_eq_mult le
  consider "k < 8" | "k = 8" | "k = 9" | "k = 10" | "11 \<le> k" by linarith
  then show ?thesis
  proof cases
    case 5
    then have "min (k - 8) 3 = 3" "min (Suc k - 8) 3 = 3" "\<not> k < 8" by simp_all
    then have "ib_dormant t k = \<lparr> ib_streak = of_nat k, ib_shift = 3, ib_last_work = t \<rparr>"
        "ib_dormant t (Suc k) = \<lparr> ib_streak = of_nat k + 1, ib_shift = 3, ib_last_work = t \<rparr>"
        "ib_schedule k = 8000000"
      unfolding ib_dormant_def ib_schedule_def by (simp_all only: of_nat_Suc of_nat_numeral add.commute if_False) simp
    then show ?thesis using ib_longest_tick [OF assms(1)] le \<open>\<not> k < 8\<close> by simp
  qed (use assms(1) in \<open>simp_all add: D\<close>)
qed

text \<open>C40: After the last work, a core that finds none and is past the active window runs eight
  iterations without sleeping, then sleeps 1, 2 and 4 ms and from then on 8 ms each time, for as many
  iterations as the 32-bit counter can count.\<close>

theorem ib_dormant_schedule:
  assumes "list_all (\<lambda>now. IB_ACTIVE_WINDOW_NS < now - t) ts" "length ts < 2 ^ 32"
  shows "ib_idle (ib_init t) ts = map ib_schedule [0..<length ts]"
proof -
  have "ib_idle (ib_dormant t k) ts = map ib_schedule [k..<k + length ts]" if "k + length ts < 2 ^ 32" for k
    using assms(1) that
    by (induction ts arbitrary: k) (simp_all add: ib_dormant_tick upt_conv_Cons del: upt_Suc)
  from this [of 0] show ?thesis using assms(2) by (simp add: ib_dormant_def ib_init_def)
qed

theorem ib_dormant_schedule_witness:
  "ib_idle (ib_init 5) (replicate 13 3000000) =
    [0, 0, 0, 0, 0, 0, 0, 0, 1000000, 2000000, 4000000, 8000000, 8000000]"
  using ib_dormant_schedule [of 5 "replicate 13 3000000"]
  by (simp add: IB_ACTIVE_WINDOW_NS_def ib_schedule_def upt_rec list_all_length)

end
