(* ===== verification/Spec2Isabelle.thy ===== *)
theory Spec2Isabelle
  imports Ena_Ring_Props Ena_Recover_Props Ena_Netdev_Props Ena_Intr_Props Ena_Pci_Props Ena_Cfg_Port
    Ena_Spsc Ena_Backoff
begin

text \<open>
  A verification development of lib-ena, the driver library for the Amazon Elastic Network Adapter on
  Unikraft (sources under \<^verbatim>\<open>src/\<close>).

  \<^bold>\<open>The program.\<close>  The probe (\<^verbatim>\<open>ena_pci.c\<close>) finds the device, maps its two memory windows and
  brings it up: it sets up the admin queues (\<^verbatim>\<open>ena_admin.c\<close>), negotiates features
  (\<^verbatim>\<open>ena_init.c\<close>, \<^verbatim>\<open>ena_rss.c\<close>) and arms interrupts (\<^verbatim>\<open>ena_intr.c\<close>, \<^verbatim>\<open>ena_plat.c\<close>).
  Packets travel over rings (\<^verbatim>\<open>ena_datapath.c\<close>): a submission queue the driver fills and a completion
  queue the device fills, with a phase bit per lap (\<^verbatim>\<open>ena_tx.c\<close>, \<^verbatim>\<open>ena_rx.c\<close>, \<^verbatim>\<open>ena_llq.c\<close>).
  The network device (\<^verbatim>\<open>ena_netdev.c\<close>) puts bounce memory and reassembly on top.  When a command
  times out or the device reports a fatal error, the driver resets it and creates the rings again.

  \<^bold>\<open>How it is modelled.\<close>  A C struct is a record with the fields of the struct, an integer is a word of
  its width, a pointer that is only tested is a boolean or an option, an error is a negative integer as
  in the code.  A function of the code is a function on the records that returns the result and the new
  state.  What is not under \<^verbatim>\<open>src/\<close> is an argument: the device and the allocators
  (\<open>platform\<close>, over a state \<open>'d\<close> of any type), the MSI-X services (\<open>msix_plat\<close>, \<open>intctlr\<close>), memory
  mapping (\<open>uk_mem\<close>), the configuration space (\<open>pci_cfg\<close>).  The device may write to a completion queue
  between any two reads of the driver: a poll takes the list of these writes as an argument.

  \<^item> \<open>Ena_Prelude\<close>: types, error numbers, shared lemmas, the collections \<open>ena_consts\<close> and \<open>frame_simps\<close>.
    \<open>Ena_Cursor\<close> (indices and phases of a queue), \<open>Ena_Pool\<close> (the locale \<open>fifo_pool\<close> of a circular pool of
    ids, interpreted for request ids and for the slots of both bounce memories), \<open>Ena_Wire\<close> (descriptors
    and their bytes).
  \<^item> \<open>Ena_Ring\<close>, with \<open>Ena_Ring_Facts\<close> and \<open>Ena_Ring_Props\<close>: rings and request ids; allocation takes all of
    its memory or none, and an id has one holder.
  \<^item> \<open>Ena_Tx\<close>, \<open>Ena_Tx_Facts\<close>, \<open>Ena_Tx_Poll\<close>, \<open>Ena_Rx\<close>, \<open>Ena_Rx_Facts\<close>: both data paths; for any device
    writes the ring invariant is kept and every packet buffer is held, delivered or released, once.
  \<^item> \<open>Ena_Adapter\<close>, \<open>Ena_Com\<close>, \<open>Ena_Admin\<close>, \<open>Ena_Queues\<close>, \<open>Ena_Init\<close>, \<open>Ena_Rss\<close>: the adapter, registers and
    reset, commands, hardware queues, negotiation.  \<open>Ena_Admin_Facts\<close>, \<open>Ena_Admin_Props\<close>: the result of
    a command on every branch, the layout of an entry, the balance of DMA memory.
  \<^item> \<open>Ena_Recover\<close>, \<open>Ena_Context\<close>, \<open>Ena_Recover_Facts\<close>, \<open>Ena_Recover_Props\<close>: events and recovery.  Execution
    and recovery call each other in the code; they are defined without recursion and shown to solve the
    mutual equations.  A recovery keeps every ring well formed and its doorbells inside the window.
  \<^item> \<open>Ena_Llq\<close>, \<open>Ena_Llq_Props\<close>: pushing into device memory; every write stays inside the push area.
  \<^item> \<open>Ena_Intr\<close>, \<open>Ena_Intr_Props\<close>: vectors, masking and the polling sweep over all rings.
  \<^item> \<open>Ena_Bounce\<close>, \<open>Ena_Bounce_Facts\<close>, \<open>Ena_Netdev\<close>, \<open>Ena_Netdev_Props\<close>: the network device.  A transmit
    queue refines a list of free slots and a partial map of bound ones.
  \<^item> \<open>Ena_Plat\<close>, \<open>Ena_Pci\<close>, \<open>Ena_Pci_Props\<close>: the platform layer and the probe.  \<open>Ena_Cfg_Port\<close>: reads of the
    configuration ports by several cores, as a step relation over the two spin locks.
  \<^item> \<open>Ena_Spsc\<close>, \<open>Ena_Backoff\<close>: the queue between cores and the idle policy of the multi-core sample.  The
    queue is a step relation that interleaves single memory accesses.

  \<^bold>\<open>Bounds.\<close>  A poll for completions runs on fuel: one unit for each element of the list of device
  writes, and the value \<open>None\<close> is a list too short.  The termination theorems show that one lap of the
  completion queue is enough when the device is quiet.  The polling loops for a command and for a reset
  are bounded by the counters of the code.  The walk along the PCI capability list has no bound in the
  code and is a partial function; it is shown exactly when it returns.

  \<^bold>\<open>Errors in the code.\<close>  Some theorems state what the code does where it departs from its purpose: a
  stale in-flight flag after a dropped receive completion, an old completion delivered again after a
  reset, a command failing when its id wraps around, a request that runs into the next entry, the
  upper half of a BAR size, two locks that do not exclude each other (\<open>cfg_read_race\<close>).

  \<^bold>\<open>Not modelled.\<close>  The spin locks of the rings and of the admin queue: each operation is one step, and
  operations of several cores on one ring are not interleaved.  Memory barriers.  Logging and the
  read-outs that only log.  The build for the unit tests on a host (the second half of
  \<^verbatim>\<open>ena_netdev.c\<close>, the mocks of \<^verbatim>\<open>ena_plat.c\<close>), which repeats the operations over structs of
  the tests.  The sample applications, which are socket and event-loop I/O.  The headers under
  \<^verbatim>\<open>src/reference/\<close>, which belong to another driver and are not compiled.
\<close>

end
